(* ===== verification/Prelude.thy ===== *)
theory Prelude
  imports Main "HOL-Library.Word" "HOL-Library.AList" "HOL-Library.Char_ord"
    "HOL-Library.List_Lexorder"
begin

text \<open>
  Shared vocabulary of the development.

  \<^item> Rust strings are byte lists (\<^typ>\<open>string\<close>, one \<^typ>\<open>char\<close> per UTF-8 byte), so
    \<open>str::len\<close> is \<^const>\<open>length\<close> and \<open>str::cmp\<close> is the lexicographic order on bytes that
    \<open>List_Lexorder\<close> and \<open>Char_ord\<close> give.  Where the source walks over characters
    (\<open>chars\<close>, \<open>trim\<close>, \<open>split_at\<close>), the code points are cut out of the bytes explicitly.
  \<^item> \<open>std::time::Instant\<close> and \<open>std::time::Duration\<close> are natural numbers of nanoseconds;
    \<open>duration_since\<close> and \<open>saturating_duration_since\<close> are truncated subtraction.
  \<^item> A \<open>HashMap\<close> is an association list with distinct keys.  Its order is arbitrary: no
    theorem fixes it, so iteration order is any order.
  \<^item> \<open>str::parse\<close> for integers follows the standard library: an optional sign, at least one
    decimal digit, no overflow of the target width.
\<close>

named_theorems hm_simps \<open>lookups in updated hash maps\<close>
named_theorems hm_wf_intros \<open>operations keep hash-map keys distinct\<close>

type_synonym u8 = "8 word"
type_synonym u16 = "16 word"
type_synonym u32 = "32 word"
type_synonym u64 = "64 word"
type_synonym bytes = "u8 list"
type_synonym instant = nat
type_synonym duration = nat

definition unwrap_or :: "'a option \<Rightarrow> 'a \<Rightarrow> 'a" where
  "unwrap_or x d = (case x of None \<Rightarrow> d | Some y \<Rightarrow> y)"

lemma unwrap_or_simps [simp]: "unwrap_or None d = d" "unwrap_or (Some y) d = y"
  by (simp_all add: unwrap_or_def)

text \<open>The end of a Rust call: a value, an error value, or a panic.\<close>

datatype ('e, 'a) exec = Ret 'a | Raise 'e | Panic

fun exec_bind :: "('e, 'a) exec \<Rightarrow> ('a \<Rightarrow> ('e, 'b) exec) \<Rightarrow> ('e, 'b) exec" where
  "exec_bind (Ret x) f = f x"
| "exec_bind (Raise e) f = Raise e"
| "exec_bind Panic f = Panic"

lemma exec_bind_Ret:
  "exec_bind m f = Ret y \<longleftrightarrow> (\<exists>x. m = Ret x \<and> f x = Ret y)"
  by (cases m) auto

section \<open>Durations\<close>

definition from_nanos :: "nat \<Rightarrow> duration" where
  "from_nanos n = n"

definition from_millis :: "nat \<Rightarrow> duration" where
  "from_millis n = n * 1000000"

definition from_secs :: "nat \<Rightarrow> duration" where
  "from_secs n = n * 1000000000"

definition as_millis :: "duration \<Rightarrow> nat" where
  "as_millis d = d div 1000000"

lemmas duration_defs = from_nanos_def from_millis_def from_secs_def as_millis_def

section \<open>Hash maps\<close>

type_synonym ('k, 'v) hashmap = "('k \<times> 'v) list"

definition hm_get :: "('k, 'v) hashmap \<Rightarrow> 'k \<Rightarrow> 'v option" where
  "hm_get m k = map_of m k"

definition hm_insert :: "'k \<Rightarrow> 'v \<Rightarrow> ('k, 'v) hashmap \<Rightarrow> ('k, 'v) hashmap" where
  "hm_insert k v m = AList.update k v m"

definition hm_remove :: "'k \<Rightarrow> ('k, 'v) hashmap \<Rightarrow> ('k, 'v) hashmap" where
  "hm_remove k m = AList.delete k m"

definition hm_map_values :: "('v \<Rightarrow> 'w) \<Rightarrow> ('k, 'v) hashmap \<Rightarrow> ('k, 'w) hashmap" where
  "hm_map_values f m = map (\<lambda>(k, v). (k, f v)) m"

definition hm_retain :: "('v \<Rightarrow> bool) \<Rightarrow> ('k, 'v) hashmap \<Rightarrow> ('k, 'v) hashmap" where
  "hm_retain P m = filter (\<lambda>(k, v). P v) m"

definition hm_wf :: "('k, 'v) hashmap \<Rightarrow> bool" where
  "hm_wf m \<longleftrightarrow> distinct (map fst m)"

text \<open>
  The contract the components rely on: a finite map with lookup, insertion and removal, in
  which writing one key never disturbs another.
\<close>

locale keyed_map =
  fixes get :: "'m \<Rightarrow> 'k \<Rightarrow> 'v option"
    and put :: "'k \<Rightarrow> 'v \<Rightarrow> 'm \<Rightarrow> 'm"
    and del :: "'k \<Rightarrow> 'm \<Rightarrow> 'm"
    and ok :: "'m \<Rightarrow> bool"
  assumes get_put: "get (put k v m) k' = (if k' = k then Some v else get m k')"
    and get_del: "get (del k m) k' = (if k' = k then None else get m k')"
    and ok_put: "ok m \<Longrightarrow> ok (put k v m)"
    and ok_del: "ok m \<Longrightarrow> ok (del k m)"
begin

lemma put_same [simp]: "get (put k v m) k = Some v"
  by (simp add: get_put)

lemma put_other: "k' \<noteq> k \<Longrightarrow> get (put k v m) k' = get m k'"
  by (simp add: get_put)

lemma del_same [simp]: "get (del k m) k = None"
  by (simp add: get_del)

lemma del_other: "k' \<noteq> k \<Longrightarrow> get (del k m) k' = get m k'"
  by (simp add: get_del)

lemma put_twice: "get (put k w (put k v m)) = get (put k w m)"
  by (rule ext) (simp add: get_put)

lemma del_put: "get (del k (put k v m)) = get (del k m)"
  by (rule ext) (simp add: get_put get_del)

lemma put_commute: "k \<noteq> k' \<Longrightarrow> get (put k v (put k' w m)) = get (put k' w (put k v m))"
  by (rule ext) (simp add: get_put)

end

interpretation hm: keyed_map hm_get hm_insert hm_remove hm_wf
proof unfold_locales
  fix k k' :: 'a and v :: 'b and m :: "('a, 'b) hashmap"
  show "hm_get (hm_insert k v m) k' = (if k' = k then Some v else hm_get m k')"
    by (simp add: hm_get_def hm_insert_def update_conv')
  show "hm_get (hm_remove k m) k' = (if k' = k then None else hm_get m k')"
    by (simp add: hm_get_def hm_remove_def delete_conv')
  show "hm_wf m \<Longrightarrow> hm_wf (hm_insert k v m)"
    by (simp add: hm_wf_def hm_insert_def distinct_update)
  show "hm_wf m \<Longrightarrow> hm_wf (hm_remove k m)"
    by (simp add: hm_wf_def hm_remove_def distinct_delete)
qed

lemmas [hm_simps] = hm.get_put hm.get_del
lemmas [hm_wf_intros] = hm.ok_put hm.ok_del

lemma hm_get_empty [simp]: "hm_get [] k = None"
  by (simp add: hm_get_def)

lemma hm_wf_empty [simp]: "hm_wf []"
  by (simp add: hm_wf_def)

lemma hm_get_map_values [hm_simps]: "hm_get (hm_map_values f m) k = map_option f (hm_get m k)"
  by (simp add: hm_get_def hm_map_values_def map_of_map)

lemma hm_wf_map_values [simp]: "hm_wf (hm_map_values f m) = hm_wf m"
  by (simp add: hm_wf_def hm_map_values_def comp_def case_prod_beta)

lemma hm_get_SomeD: "hm_get m k = Some v \<Longrightarrow> (k, v) \<in> set m"
  by (simp add: hm_get_def map_of_SomeD)

lemma hm_get_iff_mem: "hm_wf m \<Longrightarrow> hm_get m k = Some v \<longleftrightarrow> (k, v) \<in> set m"
  by (simp add: hm_get_def hm_wf_def)

lemma hm_get_NoneD: "hm_get m k = None \<Longrightarrow> k \<notin> fst ` set m"
  by (simp add: hm_get_def map_of_eq_None_iff)

lemma hm_wf_retain [hm_wf_intros]: "hm_wf m \<Longrightarrow> hm_wf (hm_retain P m)"
  by (induction m) (auto simp: hm_wf_def hm_retain_def)

lemma hm_get_retain [hm_simps]:
  "hm_wf m \<Longrightarrow> hm_get (hm_retain P m) k =
     (case hm_get m k of None \<Rightarrow> None | Some v \<Rightarrow> if P v then Some v else None)"
proof (induction m)
  case Nil
  then show ?case by (simp add: hm_retain_def)
next
  case (Cons p m)
  obtain a b where p: "p = (a, b)" by (cases p)
  from Cons.prems p have wf: "hm_wf m" and fresh: "a \<notin> fst ` set m"
    by (auto simp: hm_wf_def)
  from fresh have none: "map_of (filter (\<lambda>(k, v). P v) m) a = None"
    by (auto simp: map_of_eq_None_iff)
  from Cons.IH [OF wf] p none show ?case
    by (auto simp: hm_get_def hm_retain_def)
qed

section \<open>Bytes, characters and text\<close>

definition byte_of :: "char \<Rightarrow> nat" where
  "byte_of c = of_char c"

definition is_cont_byte :: "char \<Rightarrow> bool" where
  "is_cont_byte c \<longleftrightarrow> 128 \<le> byte_of c \<and> byte_of c < 192"

function (sequential) utf8_chars :: "string \<Rightarrow> string list" where
  "utf8_chars [] = []"
| "utf8_chars (c # cs) = (c # takeWhile is_cont_byte cs) # utf8_chars (dropWhile is_cont_byte cs)"
  by pat_completeness auto
termination
  by (relation "measure length") (auto simp: le_imp_less_Suc length_dropWhile_le)

definition is_char_boundary :: "string \<Rightarrow> nat \<Rightarrow> bool" where
  "is_char_boundary s i \<longleftrightarrow>
     i = 0 \<or> i = length s \<or> (i < length s \<and> \<not> is_cont_byte (s ! i))"

text \<open>\<open>char::is_whitespace\<close> on one encoded character (the Unicode White\_Space property).\<close>

definition is_whitespace :: "string \<Rightarrow> bool" where
  "is_whitespace ch =
     (case map byte_of ch of
        [b] \<Rightarrow> b = 32 \<or> (9 \<le> b \<and> b \<le> 13)
      | [b, c] \<Rightarrow> b = 194 \<and> (c = 133 \<or> c = 160)
      | [b, c, d] \<Rightarrow>
          (b = 225 \<and> c = 154 \<and> d = 128)
          \<or> (b = 226 \<and> c = 128 \<and> ((128 \<le> d \<and> d \<le> 138) \<or> d = 168 \<or> d = 169 \<or> d = 175))
          \<or> (b = 226 \<and> c = 129 \<and> d = 159)
          \<or> (b = 227 \<and> c = 128 \<and> d = 128)
      | _ \<Rightarrow> False)"

definition trim :: "string \<Rightarrow> string" where
  "trim s = concat (rev (dropWhile is_whitespace (rev (dropWhile is_whitespace (utf8_chars s)))))"

definition is_digit :: "char \<Rightarrow> bool" where
  "is_digit c \<longleftrightarrow> 48 \<le> byte_of c \<and> byte_of c \<le> 57"

definition is_ascii_alphanumeric :: "char \<Rightarrow> bool" where
  "is_ascii_alphanumeric c \<longleftrightarrow>
     is_digit c \<or> (65 \<le> byte_of c \<and> byte_of c \<le> 90) \<or> (97 \<le> byte_of c \<and> byte_of c \<le> 122)"

definition to_ascii_lowercase :: "string \<Rightarrow> string" where
  "to_ascii_lowercase s =
     map (\<lambda>c. if 65 \<le> byte_of c \<and> byte_of c \<le> 90 then char_of (byte_of c + 32) else c) s"

definition digits_value :: "string \<Rightarrow> nat" where
  "digits_value s = foldl (\<lambda>n c. 10 * n + (byte_of c - 48)) 0 s"

definition parse_digits :: "string \<Rightarrow> nat option" where
  "parse_digits s = (if s \<noteq> [] \<and> list_all is_digit s then Some (digits_value s) else None)"

text \<open>\<open>str::parse\<close> into an unsigned integer of the given width.\<close>

definition parse_unsigned :: "nat \<Rightarrow> string \<Rightarrow> nat option" where
  "parse_unsigned w s =
     (case parse_digits (case s of [] \<Rightarrow> [] | c # r \<Rightarrow> if c = CHR ''+'' then r else s) of
        None \<Rightarrow> None
      | Some n \<Rightarrow> if n < 2 ^ w then Some n else None)"

text \<open>\<open>str::parse\<close> into \<open>i64\<close>.\<close>

definition parse_i64 :: "string \<Rightarrow> int option" where
  "parse_i64 s =
     (case s of
        [] \<Rightarrow> None
      | c # r \<Rightarrow>
          if c = CHR ''-''
          then (case parse_digits r of
                  None \<Rightarrow> None
                | Some n \<Rightarrow> if n \<le> 2 ^ 63 then Some (- int n) else None)
          else (case parse_digits (if c = CHR ''+'' then r else s) of
                  None \<Rightarrow> None
                | Some n \<Rightarrow> if n < 2 ^ 63 then Some (int n) else None))"

text \<open>Decimal rendering of a natural number (\<open>Display\<close> for the unsigned types).\<close>

fun show_nat :: "nat \<Rightarrow> string" where
  "show_nat n =
     (if n < 10 then [char_of (48 + n)] else show_nat (n div 10) @ [char_of (48 + n mod 10)])"

declare show_nat.simps [simp del]

definition show_int :: "int \<Rightarrow> string" where
  "show_int i = (if i < 0 then CHR ''-'' # show_nat (nat (- i)) else show_nat (nat i))"

section \<open>Facts about text\<close>

lemma concat_utf8_chars [simp]: "concat (utf8_chars s) = s"
  by (induction s rule: utf8_chars.induct) simp_all

lemma byte_of_char_of [simp]: "n < 256 \<Longrightarrow> byte_of (char_of n) = n"
  by (simp add: byte_of_def)

lemma byte_of_less: "byte_of c < 256"
  by (simp add: byte_of_def)

lemma unat_u8_less: "unat (x :: u8) < 256"
  using unsigned_less [of x, where 'a = nat] by simp

lemma unat_u16_less: "unat (x :: u16) < 65536"
  using unsigned_less [of x, where 'a = nat] by simp

lemma is_digit_char_of: "d < (10 :: nat) \<Longrightarrow> is_digit (char_of (48 + d))"
  by (simp add: is_digit_def)

lemma digits_value_snoc [simp]: "digits_value (s @ [c]) = 10 * digits_value s + (byte_of c - 48)"
  by (simp add: digits_value_def)

lemma show_nat_digits: "show_nat n \<noteq> [] \<and> list_all is_digit (show_nat n)"
proof (induction n rule: show_nat.induct)
  case (1 n)
  then show ?case
    by (cases "n < 10") (simp_all add: show_nat.simps [of n] is_digit_char_of)
qed

lemma digits_value_show_nat: "digits_value (show_nat n) = n"
proof (induction n rule: show_nat.induct)
  case (1 n)
  show ?case
  proof (cases "n < 10")
    case True
    then show ?thesis by (simp add: show_nat.simps [of n] digits_value_def)
  next
    case False
    with "1.IH" have "digits_value (show_nat (n div 10)) = n div 10" by simp
    with False show ?thesis by (simp add: show_nat.simps [of n])
  qed
qed

lemma parse_digits_show_nat [simp]: "parse_digits (show_nat n) = Some n"
  using show_nat_digits [of n] by (simp add: parse_digits_def digits_value_show_nat)

lemma show_nat_hd_digit: "show_nat n = c # r \<Longrightarrow> is_digit c"
  using show_nat_digits [of n] by simp

lemma parse_unsigned_show_nat: "n < 2 ^ w \<Longrightarrow> parse_unsigned w (show_nat n) = Some n"
proof (cases "show_nat n")
  case Nil
  then show ?thesis using show_nat_digits [of n] by simp
next
  case (Cons c r)
  assume "n < 2 ^ w"
  from show_nat_hd_digit [OF Cons] have "c \<noteq> CHR ''+''"
    by (auto simp: is_digit_def byte_of_def)
  with Cons \<open>n < 2 ^ w\<close> parse_digits_show_nat [of n] show ?thesis
    by (simp add: parse_unsigned_def)
qed

lemma parse_unsigned_less: "parse_unsigned w s = Some n \<Longrightarrow> n < 2 ^ w"
  by (auto simp: parse_unsigned_def split: option.splits if_splits)

text \<open>Plain printable ASCII text is its own character list and has nothing to trim.\<close>

definition plain_char :: "char \<Rightarrow> bool" where
  "plain_char c \<longleftrightarrow> 32 < byte_of c \<and> byte_of c < 128"

lemma utf8_chars_plain: "list_all plain_char s \<Longrightarrow> utf8_chars s = map (\<lambda>c. [c]) s"
proof (induction s rule: utf8_chars.induct)
  case (2 c cs)
  have "takeWhile is_cont_byte cs = [] \<and> dropWhile is_cont_byte cs = cs"
    using "2.prems" by (cases cs) (auto simp: plain_char_def is_cont_byte_def)
  with 2 show ?case by simp
qed simp

lemma plain_not_whitespace: "plain_char c \<Longrightarrow> \<not> is_whitespace [c]"
  by (simp add: is_whitespace_def plain_char_def)

lemma dropWhile_none: "list_all (\<lambda>x. \<not> P x) xs \<Longrightarrow> dropWhile P xs = xs"
  by (cases xs) simp_all

lemma trim_plain: "list_all plain_char s \<Longrightarrow> trim s = s"
proof -
  assume plain: "list_all plain_char s"
  then have "list_all (\<lambda>ch. \<not> is_whitespace ch) (map (\<lambda>c. [c]) s)"
    by (simp add: list_all_iff plain_not_whitespace)
  moreover from this have "list_all (\<lambda>ch. \<not> is_whitespace ch) (rev (map (\<lambda>c. [c]) s))"
    by (simp add: list_all_iff)
  ultimately show ?thesis
    using plain by (simp add: trim_def utf8_chars_plain dropWhile_none)
qed

lemma digit_plain: "is_digit c \<Longrightarrow> plain_char c"
  by (simp add: is_digit_def plain_char_def)

lemma show_nat_plain: "list_all plain_char (show_nat n)"
  using show_nat_digits [of n] by (auto simp: list_all_iff digit_plain)

lemma parse_i64_show_nat: "n < 2 ^ 63 \<Longrightarrow> parse_i64 (show_nat n) = Some (int n)"
proof (cases "show_nat n")
  case Nil
  then show ?thesis using show_nat_digits [of n] by simp
next
  case (Cons c r)
  assume "n < 2 ^ 63"
  from show_nat_hd_digit [OF Cons] have "c \<noteq> CHR ''+'' \<and> c \<noteq> CHR ''-''"
    by (auto simp: is_digit_def byte_of_def)
  with Cons \<open>n < 2 ^ 63\<close> parse_digits_show_nat [of n] show ?thesis
    by (simp add: parse_i64_def)
qed

end
