(* ===== verification/Token.thy ===== *)
theory Token
  imports Prelude
begin

text \<open>
  The token store of \<open>src/src/token/mod.rs\<close>: join tokens, their redemption into client
  credentials, and the file they live in.

  \<^item> The store is the contents of \<open>tokens.json\<close> (\<open>ts_file\<close>, \<open>None\<close> when there is no file); every
    operation is one load-modify-save cycle on it, under the lock file.
  \<^item> The libraries are the fields of \<open>token_lib\<close>: reading and printing the record list
    (\<open>serde_json\<close>), HMAC-SHA-256, and RFC 3339 instants (\<open>time\<close>; an instant is an integer of
    nanoseconds, addition fails outside the representable range).
  \<^item> What the operating system answers during one call is a \<open>token_call\<close>: the clock, the
    environment variable, the random bytes, and whether the lock, the read or the write fails
    (a failed write leaves some contents behind).
\<close>

section \<open>Constants, errors and records\<close>

definition STATE_DIR_ENV :: string where
  "STATE_DIR_ENV = ''HOLLER_STATE_DIR''"

definition DEFAULT_STATE_DIR :: string where
  "DEFAULT_STATE_DIR = ''./holler-server-state''"

definition STATE_FILE :: string where
  "STATE_FILE = ''tokens.json''"

definition LOCK_FILE :: string where
  "LOCK_FILE = ''tokens.json.lock''"

definition PEPPER_ENV :: string where
  "PEPPER_ENV = ''HOLLER_SERVER_PEPPER''"

text \<open>\<open>time::Duration\<close> is signed; here an integer of nanoseconds.\<close>

definition DEFAULT_TTL :: int where
  "DEFAULT_TTL = 24 * 3600 * 1000000000"

datatype token_error =
    PepperMissing
  | InvalidTtl string
  | NotFound string
  | Unbound string
  | Disconnected string
  | WrongSecret string
  | WrongCredential string
  | AlreadyBound string
  | TokenInvalidated string
  | TokenRevoked string
  | TokenStale string
  | Io string
  | Serde string
  | Rng string
  | Time string

text \<open>\<open>Display\<close>; the quoted form of an invalid \<open>--ttl\<close> is the standard library's.\<close>

definition token_error_display :: "(string \<Rightarrow> string) \<Rightarrow> token_error \<Rightarrow> string" where
  "token_error_display quoted e =
     (case e of
        PepperMissing \<Rightarrow>
          PEPPER_ENV @ '' is not set; refusing to mint a token without a server pepper''
      | InvalidTtl s \<Rightarrow> ''invalid --ttl '' @ quoted s @ '' (expected e.g. 30m, 24h, 7d)''
      | NotFound i \<Rightarrow> ''no such token: '' @ i
      | Unbound i \<Rightarrow> ''token '' @ i @ '' has not been redeemed; nothing to ping''
      | Disconnected i \<Rightarrow> ''token '' @ i @ '' is bound but not connected''
      | WrongSecret i \<Rightarrow> ''wrong secret for token '' @ i
      | WrongCredential i \<Rightarrow> ''wrong credential for token '' @ i
      | AlreadyBound i \<Rightarrow> ''token '' @ i @ '' was already redeemed and is bound to a client''
      | TokenInvalidated i \<Rightarrow> ''token '' @ i @ '' was invalidated and cannot be redeemed''
      | TokenRevoked i \<Rightarrow> ''token '' @ i @ '' was revoked and cannot be redeemed''
      | TokenStale i \<Rightarrow> ''token '' @ i @ [CHR 0x27] @ ''s secret has expired and cannot be redeemed''
      | Io m \<Rightarrow> ''token store I/O error: '' @ m
      | Serde m \<Rightarrow> ''token store is corrupt: '' @ m
      | Rng m \<Rightarrow> ''failed to generate randomness: '' @ m
      | Time m \<Rightarrow> ''time error: '' @ m)"

datatype stored_state = SUnused | SBound | SInvalidated | SRevoked

datatype display_state = DUnused | DBound | DStale | DInvalidated | DRevoked

definition display_state_display :: "display_state \<Rightarrow> string" where
  "display_state_display s =
     (case s of DUnused \<Rightarrow> ''unused'' | DBound \<Rightarrow> ''bound'' | DStale \<Rightarrow> ''stale''
      | DInvalidated \<Rightarrow> ''invalidated'' | DRevoked \<Rightarrow> ''revoked'')"

record token_record =
  tr_token_id :: string
  tr_secret_hash :: string
  tr_state :: stored_state
  tr_label :: "string option"
  tr_machine :: "string option"
  tr_client_id :: "string option"
  tr_credential_hash :: "string option"
  tr_created_at :: string
  tr_expires :: string
  tr_last_seen :: "string option"

record token_lib =
  tl_from_str :: "string \<Rightarrow> string + token_record list"
  tl_to_string_pretty :: "token_record list \<Rightarrow> string + string"
  tl_hmac :: "bytes \<Rightarrow> bytes \<Rightarrow> bytes"
  tl_parse_rfc3339 :: "string \<Rightarrow> int option"
  tl_format_rfc3339 :: "int \<Rightarrow> string + string"
  tl_checked_add :: "int \<Rightarrow> int \<Rightarrow> int option"

record token_call =
  tc_now :: int
  tc_pepper :: "string option"
  tc_rng :: "nat \<Rightarrow> nat \<Rightarrow> string + bytes"
  tc_lock_err :: "string option"
  tc_read_err :: "string option"
  tc_write_err :: "(string \<times> string) option"

definition display_state_of :: "token_lib \<Rightarrow> int \<Rightarrow> token_record \<Rightarrow> display_state" where
  "display_state_of lib now r =
     (case tr_state r of
        SUnused \<Rightarrow>
          (case tl_parse_rfc3339 lib (tr_expires r) of
             Some expires \<Rightarrow> if expires \<le> now then DStale else DUnused
           | None \<Rightarrow> DUnused)
      | SBound \<Rightarrow> DBound
      | SInvalidated \<Rightarrow> DInvalidated
      | SRevoked \<Rightarrow> DRevoked)"

record token_view =
  tv_token_id :: string
  tv_state :: string
  tv_machine :: string
  tv_client_id :: string
  tv_label :: string
  tv_last_seen :: string
  tv_expires :: string

definition token_view_of :: "token_lib \<Rightarrow> int \<Rightarrow> token_record \<Rightarrow> token_view" where
  "token_view_of lib now r =
     \<lparr>tv_token_id = tr_token_id r,
      tv_state = display_state_display (display_state_of lib now r),
      tv_machine = unwrap_or (tr_machine r) ''-'',
      tv_client_id = unwrap_or (tr_client_id r) ''-'',
      tv_label = unwrap_or (tr_label r) ''-'',
      tv_last_seen = unwrap_or (tr_last_seen r) ''-'',
      tv_expires = tr_expires r\<rparr>"

record mint_result =
  mr_token_id :: string
  mr_secret :: string
  mr_expires :: string

record redeem_result =
  rr_token_id :: string
  rr_client_id :: string
  rr_credential :: string

record verified_client =
  vc_token_id :: string
  vc_client_id :: string
  vc_machine :: string

datatype ping_outcome = PingConnected string u64

datatype connection_status = StatusDisconnected | StatusConnected string u64

definition AlwaysDisconnected :: "string \<Rightarrow> connection_status" where
  "AlwaysDisconnected token_id = StatusDisconnected"

section \<open>Helpers\<close>

definition hex_digit :: "nat \<Rightarrow> char" where
  "hex_digit n = (if n < 10 then char_of (48 + n) else char_of (87 + n))"

definition to_hex :: "bytes \<Rightarrow> string" where
  "to_hex bs = concat (map (\<lambda>b. [hex_digit (unat b div 16), hex_digit (unat b mod 16)]) bs)"

definition hex_value :: "char \<Rightarrow> nat option" where
  "hex_value c =
     (let b = byte_of c
      in if 48 \<le> b \<and> b \<le> 57 then Some (b - 48)
         else if 97 \<le> b \<and> b \<le> 102 then Some (b - 87)
         else if 65 \<le> b \<and> b \<le> 70 then Some (b - 55)
         else None)"

text \<open>\<open>u8::from_str_radix\<close> on two bytes: two digits, or a plus sign and one digit.\<close>

definition radix16_byte :: "char \<Rightarrow> char \<Rightarrow> u8 option" where
  "radix16_byte a b =
     (if a = CHR ''+'' then map_option of_nat (hex_value b)
      else Option.bind (hex_value a) (\<lambda>x. map_option (\<lambda>y. of_nat (16 * x + y)) (hex_value b)))"

text \<open>Slicing the text in the middle of a character panics.\<close>

fun from_hex_pairs :: "string \<Rightarrow> (token_error, bytes option) exec" where
  "from_hex_pairs (a # b # rest) =
     (if rest \<noteq> [] \<and> is_cont_byte (hd rest) then Panic
      else case radix16_byte a b of
             None \<Rightarrow> Ret None
           | Some v \<Rightarrow> exec_bind (from_hex_pairs rest) (\<lambda>vs. Ret (map_option (Cons v) vs)))"
| "from_hex_pairs _ = Ret (Some [])"

definition from_hex :: "string \<Rightarrow> (token_error, bytes option) exec" where
  "from_hex s = (if length s mod 2 \<noteq> 0 then Ret None else from_hex_pairs s)"

definition random_hex :: "token_call \<Rightarrow> nat \<Rightarrow> nat \<Rightarrow> (token_error, string) exec" where
  "random_hex c i n = (case tc_rng c i n of Inl e \<Rightarrow> Raise (Rng e) | Inr bs \<Rightarrow> Ret (to_hex bs))"

definition as_bytes :: "string \<Rightarrow> bytes" where
  "as_bytes s = map (\<lambda>c. of_nat (byte_of c)) s"

definition hash_secret :: "token_lib \<Rightarrow> bytes \<Rightarrow> string \<Rightarrow> string" where
  "hash_secret lib pepper secret = to_hex (tl_hmac lib pepper (as_bytes secret))"

definition verify_secret :: "token_lib \<Rightarrow> bytes \<Rightarrow> string \<Rightarrow> string \<Rightarrow> (token_error, bool) exec" where
  "verify_secret lib pepper secret expected_hash_hex =
     exec_bind (from_hex expected_hash_hex)
       (\<lambda>expected. case expected of
          None \<Rightarrow> Ret False
        | Some bs \<Rightarrow> Ret (tl_hmac lib pepper (as_bytes secret) = bs))"

definition SECOND :: int where
  "SECOND = 1000000000"

text \<open>\<open>Duration::minutes\<close> and the like panic when the seconds overflow \<open>i64\<close>.\<close>

definition duration_of :: "int \<Rightarrow> int \<Rightarrow> (token_error, int) exec" where
  "duration_of n unit_seconds =
     (if n * unit_seconds < 2 ^ 63 then Ret (n * unit_seconds * SECOND) else Panic)"

definition parse_ttl :: "string \<Rightarrow> (token_error, int) exec" where
  "parse_ttl s0 =
     (let s = trim s0; invalid = Raise (InvalidTtl s)
      in if length s < 2 then invalid
         else if \<not> is_char_boundary s (length s - 1) then Panic
         else let num_part = take (length s - 1) s; unit = drop (length s - 1) s
              in case parse_i64 num_part of
                   None \<Rightarrow> invalid
                 | Some n \<Rightarrow>
                     if n < 0 then invalid
                     else if unit = ''s'' then duration_of n 1
                     else if unit = ''m'' then duration_of n 60
                     else if unit = ''h'' then duration_of n 3600
                     else if unit = ''d'' then duration_of n 86400
                     else invalid)"

section \<open>The store\<close>

record token_store =
  ts_file :: "string option"

definition state_dir :: "(string \<Rightarrow> string option) \<Rightarrow> string" where
  "state_dir env = unwrap_or (env STATE_DIR_ENV) DEFAULT_STATE_DIR"

definition load :: "token_lib \<Rightarrow> token_call \<Rightarrow> token_store \<Rightarrow> (token_error, token_record list) exec" where
  "load lib c st =
     (case tc_read_err c of
        Some e \<Rightarrow> Raise (Io e)
      | None \<Rightarrow>
          (case ts_file st of
             None \<Rightarrow> Ret []
           | Some contents \<Rightarrow>
               if trim contents = [] then Ret []
               else case tl_from_str lib contents of Inl e \<Rightarrow> Raise (Serde e) | Inr rs \<Rightarrow> Ret rs))"

definition save ::
  "token_lib \<Rightarrow> token_call \<Rightarrow> token_record list \<Rightarrow> token_store
   \<Rightarrow> (token_error, unit) exec \<times> token_store" where
  "save lib c rs st =
     (case tl_to_string_pretty lib rs of
        Inl e \<Rightarrow> (Raise (Serde e), st)
      | Inr json \<Rightarrow>
          (case tc_write_err c of
             Some (e, left) \<Rightarrow> (Raise (Io e), st\<lparr>ts_file := Some left\<rparr>)
           | None \<Rightarrow> (Ret (), st\<lparr>ts_file := Some json\<rparr>)))"

definition with_lock ::
  "token_call \<Rightarrow> (token_store \<Rightarrow> (token_error, 'a) exec \<times> token_store) \<Rightarrow> token_store
   \<Rightarrow> (token_error, 'a) exec \<times> token_store" where
  "with_lock c f st = (case tc_lock_err c of Some e \<Rightarrow> (Raise (Io e), st) | None \<Rightarrow> f st)"

text \<open>
  One load-modify-save cycle: the new records and the answer are computed from the loaded
  records, and the answer is given only after the save succeeded.
\<close>

definition load_modify_save ::
  "token_lib \<Rightarrow> token_call \<Rightarrow> (token_record list \<Rightarrow> (token_error, token_record list \<times> 'a) exec)
   \<Rightarrow> token_store \<Rightarrow> (token_error, 'a) exec \<times> token_store" where
  "load_modify_save lib c f st =
     (case exec_bind (load lib c st) f of
        Ret (rs, x) \<Rightarrow> (case save lib c rs st of (res, st') \<Rightarrow> (exec_bind res (\<lambda>_. Ret x), st'))
      | Raise e \<Rightarrow> (Raise e, st)
      | Panic \<Rightarrow> (Panic, st))"

text \<open>\<open>iter_mut().find\<close> with the change made to the record found.\<close>

fun update_first :: "('a \<Rightarrow> bool) \<Rightarrow> ('a \<Rightarrow> 'a) \<Rightarrow> 'a list \<Rightarrow> 'a list" where
  "update_first P f [] = []"
| "update_first P f (x # xs) = (if P x then f x # xs else x # update_first P f xs)"

definition find_token :: "string \<Rightarrow> token_record list \<Rightarrow> token_record option" where
  "find_token i rs = find (\<lambda>r. tr_token_id r = i) rs"

definition get_pepper :: "token_call \<Rightarrow> (token_error, bytes) exec" where
  "get_pepper c =
     (case tc_pepper c of
        None \<Rightarrow> Raise PepperMissing
      | Some p \<Rightarrow> if p = [] then Raise PepperMissing else Ret (as_bytes p))"

definition mint_with_pepper ::
  "token_lib \<Rightarrow> token_call \<Rightarrow> bytes \<Rightarrow> string option \<Rightarrow> int \<Rightarrow> token_store
   \<Rightarrow> (token_error, mint_result) exec \<times> token_store" where
  "mint_with_pepper lib c pepper label ttl st =
     (case exec_bind (random_hex c 0 16) (\<lambda>t.
           exec_bind (random_hex c 1 32) (\<lambda>s.
           case tl_checked_add lib (tc_now c) ttl of
             None \<Rightarrow> Panic
           | Some later \<Rightarrow>
               (case tl_format_rfc3339 lib later of
                  Inl e \<Rightarrow> Raise (Time e)
                | Inr expires \<Rightarrow>
                    (case tl_format_rfc3339 lib (tc_now c) of
                       Inl e \<Rightarrow> Raise (Time e)
                     | Inr created_at \<Rightarrow> Ret (''tok_'' @ t, ''hlr_'' @ s, expires, created_at))))) of
        Raise e \<Rightarrow> (Raise e, st)
      | Panic \<Rightarrow> (Panic, st)
      | Ret (token_id, secret, expires, created_at) \<Rightarrow>
          let record =
            \<lparr>tr_token_id = token_id, tr_secret_hash = hash_secret lib pepper secret,
             tr_state = SUnused, tr_label = label, tr_machine = None, tr_client_id = None,
             tr_credential_hash = None, tr_created_at = created_at, tr_expires = expires,
             tr_last_seen = None\<rparr>
          in with_lock c
               (load_modify_save lib c
                  (\<lambda>rs. Ret (rs @ [record],
                     \<lparr>mr_token_id = token_id, mr_secret = secret, mr_expires = expires\<rparr>))) st)"

definition mint ::
  "token_lib \<Rightarrow> token_call \<Rightarrow> string option \<Rightarrow> int \<Rightarrow> token_store
   \<Rightarrow> (token_error, mint_result) exec \<times> token_store" where
  "mint lib c label ttl st =
     (case get_pepper c of
        Ret pepper \<Rightarrow> mint_with_pepper lib c pepper label ttl st
      | Raise e \<Rightarrow> (Raise e, st)
      | Panic \<Rightarrow> (Panic, st))"

definition list_tokens ::
  "token_lib \<Rightarrow> token_call \<Rightarrow> token_store \<Rightarrow> (token_error, token_view list) exec" where
  "list_tokens lib c st =
     exec_bind (load lib c st) (\<lambda>rs. Ret (map (token_view_of lib (tc_now c)) rs))"

definition delete_record :: "token_record \<Rightarrow> token_record" where
  "delete_record r =
     (case tr_state r of
        SBound \<Rightarrow> r\<lparr>tr_credential_hash := None, tr_state := SRevoked\<rparr>
      | _ \<Rightarrow> r\<lparr>tr_state := SInvalidated\<rparr>)"

definition delete_body ::
  "token_lib \<Rightarrow> token_call \<Rightarrow> string \<Rightarrow> token_record list
   \<Rightarrow> (token_error, token_record list \<times> display_state) exec" where
  "delete_body lib c token_id rs =
     (case find_token token_id rs of
        None \<Rightarrow> Raise (NotFound token_id)
      | Some r \<Rightarrow>
          Ret (update_first (\<lambda>r. tr_token_id r = token_id) delete_record rs,
               display_state_of lib (tc_now c) (delete_record r)))"

definition delete ::
  "token_lib \<Rightarrow> token_call \<Rightarrow> string \<Rightarrow> token_store
   \<Rightarrow> (token_error, display_state) exec \<times> token_store" where
  "delete lib c token_id st =
     with_lock c (load_modify_save lib c (delete_body lib c token_id)) st"

definition bind_record :: "string \<Rightarrow> string \<Rightarrow> string \<Rightarrow> token_record \<Rightarrow> token_record" where
  "bind_record machine client_id credential_hash r =
     r\<lparr>tr_state := SBound, tr_machine := Some machine, tr_client_id := Some client_id,
       tr_credential_hash := Some credential_hash\<rparr>"

definition redeem_body ::
  "token_lib \<Rightarrow> token_call \<Rightarrow> bytes \<Rightarrow> string \<Rightarrow> string \<Rightarrow> string \<Rightarrow> token_record list
   \<Rightarrow> (token_error, token_record list \<times> redeem_result) exec" where
  "redeem_body lib c pepper token_id secret machine rs =
     (case find_token token_id rs of
        None \<Rightarrow> Raise (NotFound token_id)
      | Some r \<Rightarrow>
          (case display_state_of lib (tc_now c) r of
             DBound \<Rightarrow> Raise (AlreadyBound token_id)
           | DInvalidated \<Rightarrow> Raise (TokenInvalidated token_id)
           | DRevoked \<Rightarrow> Raise (TokenRevoked token_id)
           | DStale \<Rightarrow> Raise (TokenStale token_id)
           | DUnused \<Rightarrow>
               exec_bind (verify_secret lib pepper secret (tr_secret_hash r)) (\<lambda>matches.
               if \<not> matches then Raise (WrongSecret token_id)
               else exec_bind (random_hex c 0 16) (\<lambda>cid.
                    exec_bind (random_hex c 1 32) (\<lambda>cred.
                    let client_id = ''cli_'' @ cid; credential = ''hlr_live_'' @ cred
                    in Ret (update_first (\<lambda>r. tr_token_id r = token_id)
                              (bind_record machine client_id (hash_secret lib pepper credential)) rs,
                            \<lparr>rr_token_id = token_id, rr_client_id = client_id,
                             rr_credential = credential\<rparr>))))))"

definition redeem_with_pepper ::
  "token_lib \<Rightarrow> token_call \<Rightarrow> bytes \<Rightarrow> string \<Rightarrow> string \<Rightarrow> string \<Rightarrow> token_store
   \<Rightarrow> (token_error, redeem_result) exec \<times> token_store" where
  "redeem_with_pepper lib c pepper token_id secret machine st =
     with_lock c (load_modify_save lib c (redeem_body lib c pepper token_id secret machine)) st"

definition redeem ::
  "token_lib \<Rightarrow> token_call \<Rightarrow> string \<Rightarrow> string \<Rightarrow> string \<Rightarrow> token_store
   \<Rightarrow> (token_error, redeem_result) exec \<times> token_store" where
  "redeem lib c token_id secret machine st =
     (case get_pepper c of
        Ret pepper \<Rightarrow> redeem_with_pepper lib c pepper token_id secret machine st
      | Raise e \<Rightarrow> (Raise e, st)
      | Panic \<Rightarrow> (Panic, st))"

definition verify_body ::
  "token_lib \<Rightarrow> token_call \<Rightarrow> bytes \<Rightarrow> string \<Rightarrow> string \<Rightarrow> token_record list
   \<Rightarrow> (token_error, token_record list \<times> verified_client) exec" where
  "verify_body lib c pepper token_id credential rs =
     (case find_token token_id rs of
        None \<Rightarrow> Raise (NotFound token_id)
      | Some r \<Rightarrow>
          (case tr_state r of
             SUnused \<Rightarrow> Raise (Unbound token_id)
           | SInvalidated \<Rightarrow> Raise (TokenInvalidated token_id)
           | SRevoked \<Rightarrow> Raise (TokenRevoked token_id)
           | SBound \<Rightarrow>
               exec_bind (case tr_credential_hash r of
                            None \<Rightarrow> Ret False
                          | Some h \<Rightarrow> verify_secret lib pepper credential h) (\<lambda>matches.
               if \<not> matches then Raise (WrongCredential token_id)
               else case tl_format_rfc3339 lib (tc_now c) of
                      Inl e \<Rightarrow> Raise (Time e)
                    | Inr seen \<Rightarrow>
                        Ret (update_first (\<lambda>r. tr_token_id r = token_id)
                               (\<lambda>r. r\<lparr>tr_last_seen := Some seen\<rparr>) rs,
                             \<lparr>vc_token_id = token_id, vc_client_id = unwrap_or (tr_client_id r) [],
                              vc_machine = unwrap_or (tr_machine r) []\<rparr>))))"

definition verify_credential_with_pepper ::
  "token_lib \<Rightarrow> token_call \<Rightarrow> bytes \<Rightarrow> string \<Rightarrow> string \<Rightarrow> token_store
   \<Rightarrow> (token_error, verified_client) exec \<times> token_store" where
  "verify_credential_with_pepper lib c pepper token_id credential st =
     with_lock c (load_modify_save lib c (verify_body lib c pepper token_id credential)) st"

definition verify_credential ::
  "token_lib \<Rightarrow> token_call \<Rightarrow> string \<Rightarrow> string \<Rightarrow> token_store
   \<Rightarrow> (token_error, verified_client) exec \<times> token_store" where
  "verify_credential lib c token_id credential st =
     (case get_pepper c of
        Ret pepper \<Rightarrow> verify_credential_with_pepper lib c pepper token_id credential st
      | Raise e \<Rightarrow> (Raise e, st)
      | Panic \<Rightarrow> (Panic, st))"

definition token_ping ::
  "token_lib \<Rightarrow> token_call \<Rightarrow> string \<Rightarrow> (string \<Rightarrow> connection_status) \<Rightarrow> token_store
   \<Rightarrow> (token_error, ping_outcome) exec" where
  "token_ping lib c token_id probe st =
     exec_bind (load lib c st) (\<lambda>rs.
       case find_token token_id rs of
         None \<Rightarrow> Raise (NotFound token_id)
       | Some r \<Rightarrow>
           (case tr_state r of
              SBound \<Rightarrow>
                (case probe token_id of
                   StatusConnected hostname rtt_ms \<Rightarrow> Ret (PingConnected hostname rtt_ms)
                 | StatusDisconnected \<Rightarrow> Raise (Disconnected token_id))
            | _ \<Rightarrow> Raise (Unbound token_id)))"

section \<open>Lemmas\<close>

subsection \<open>Hexadecimal text\<close>

lemma byte_of_hex_digit: "n < 16 \<Longrightarrow> byte_of (hex_digit n) = (if n < 10 then 48 + n else 87 + n)"
  by (simp add: hex_digit_def)

lemma hex_value_hex_digit [simp]: "n < 16 \<Longrightarrow> hex_value (hex_digit n) = Some n"
  by (simp add: hex_value_def byte_of_hex_digit Let_def)

lemma hex_digit_not_plus: "n < 16 \<Longrightarrow> hex_digit n \<noteq> CHR ''+''"
  using byte_of_hex_digit [of n] by (auto simp: byte_of_def split: if_splits)

lemma hex_digit_not_cont: "n < 16 \<Longrightarrow> \<not> is_cont_byte (hex_digit n)"
  by (simp add: is_cont_byte_def byte_of_hex_digit)

lemma radix16_byte_hex:
  "radix16_byte (hex_digit (unat b div 16)) (hex_digit (unat b mod 16)) = Some b"
proof -
  have "unat b div 16 < 16" using unat_u8_less [of b] by (simp add: div_less_iff_less_mult)
  then show ?thesis
    by (simp add: radix16_byte_def hex_digit_not_plus del: of_nat_add of_nat_mult)
qed

lemma to_hex_Cons:
  "to_hex (b # bs) = hex_digit (unat b div 16) # hex_digit (unat b mod 16) # to_hex bs"
  by (simp add: to_hex_def)

lemma to_hex_hd_not_cont: "to_hex bs \<noteq> [] \<Longrightarrow> \<not> is_cont_byte (hd (to_hex bs))"
proof (cases bs)
  case (Cons b bs')
  have "unat b div 16 < 16" using unat_u8_less [of b] by (simp add: div_less_iff_less_mult)
  with Cons show ?thesis by (simp add: to_hex_Cons hex_digit_not_cont)
qed (simp add: to_hex_def)

lemma from_hex_pairs_to_hex: "from_hex_pairs (to_hex bs) = Ret (Some bs)"
proof (induction bs)
  case (Cons b bs)
  then show ?case using to_hex_hd_not_cont [of bs] by (auto simp: to_hex_Cons radix16_byte_hex)
qed (simp add: to_hex_def)

lemma length_to_hex: "length (to_hex bs) = 2 * length bs"
  by (induction bs) (simp_all add: to_hex_Cons, simp add: to_hex_def)

lemma from_hex_to_hex [simp]: "from_hex (to_hex bs) = Ret (Some bs)"
  by (simp add: from_hex_def length_to_hex from_hex_pairs_to_hex)

lemma verify_hash_secret [simp]:
  "verify_secret lib pepper s (hash_secret lib p s') =
     Ret (tl_hmac lib pepper (as_bytes s) = tl_hmac lib p (as_bytes s'))"
  by (simp add: verify_secret_def hash_secret_def)

subsection \<open>Records\<close>

lemma find_token_update:
  assumes "\<And>r. tr_token_id (f r) = tr_token_id r"
  shows "find_token i (update_first (\<lambda>r. tr_token_id r = j) f rs) =
         (if i = j then map_option f (find_token i rs) else find_token i rs)"
  using assms by (induction rs) (auto simp: find_token_def)

lemma find_token_append:
  "find_token i (rs @ [r]) =
     (case find_token i rs of Some x \<Rightarrow> Some x | None \<Rightarrow> if tr_token_id r = i then Some r else None)"
  by (induction rs) (auto simp: find_token_def)

lemma find_token_id: "find_token i rs = Some r \<Longrightarrow> tr_token_id r = i"
  by (auto simp: find_token_def find_Some_iff)

lemma delete_record_id [simp]: "tr_token_id (delete_record r) = tr_token_id r"
  by (simp add: delete_record_def split: stored_state.splits)

lemma bind_record_sel [simp]:
  "tr_token_id (bind_record m cl h r) = tr_token_id r" "tr_state (bind_record m cl h r) = SBound"
  "tr_credential_hash (bind_record m cl h r) = Some h" "tr_client_id (bind_record m cl h r) = Some cl"
  "tr_machine (bind_record m cl h r) = Some m"
  by (simp_all add: bind_record_def)

lemma delete_body_Ret:
  "delete_body lib c i rs = Ret (rs', d) \<longleftrightarrow>
     (\<exists>r. find_token i rs = Some r \<and> d = display_state_of lib (tc_now c) (delete_record r) \<and>
        rs' = update_first (\<lambda>r. tr_token_id r = i) delete_record rs)"
  by (auto simp: delete_body_def split: option.splits)

lemma random_hex_Ret: "random_hex c k n = Ret s \<longleftrightarrow> (\<exists>bs. tc_rng c k n = Inr bs \<and> s = to_hex bs)"
  by (auto simp: random_hex_def split: sum.splits)

lemma redeem_body_Ret:
  "redeem_body lib c p i s m rs = Ret (rs', x) \<longleftrightarrow>
     (\<exists>r b1 b2. find_token i rs = Some r \<and> display_state_of lib (tc_now c) r = DUnused \<and>
        verify_secret lib p s (tr_secret_hash r) = Ret True \<and>
        tc_rng c 0 16 = Inr b1 \<and> tc_rng c 1 32 = Inr b2 \<and>
        x = \<lparr>rr_token_id = i, rr_client_id = ''cli_'' @ to_hex b1,
             rr_credential = ''hlr_live_'' @ to_hex b2\<rparr> \<and>
        rs' = update_first (\<lambda>r. tr_token_id r = i)
                (bind_record m (rr_client_id x) (hash_secret lib p (rr_credential x))) rs)"
proof (cases "find_token i rs")
  case (Some r)
  show ?thesis
  proof (cases "display_state_of lib (tc_now c) r = DUnused \<and>
                verify_secret lib p s (tr_secret_hash r) = Ret True")
    case True
    with Some show ?thesis
      by (cases "tc_rng c 0 16"; cases "tc_rng c 1 32")
         (auto simp: redeem_body_def random_hex_def Let_def)
  next
    case False
    with Some show ?thesis
      by (auto simp: redeem_body_def exec_bind_Ret split: display_state.splits if_splits)
  qed
qed (simp add: redeem_body_def)

lemma verify_body_Ret:
  "verify_body lib c p i cred rs = Ret (rs', v) \<longleftrightarrow>
     (\<exists>r h seen. find_token i rs = Some r \<and> tr_state r = SBound \<and> tr_credential_hash r = Some h \<and>
        verify_secret lib p cred h = Ret True \<and> tl_format_rfc3339 lib (tc_now c) = Inr seen \<and>
        v = \<lparr>vc_token_id = i, vc_client_id = unwrap_or (tr_client_id r) [],
             vc_machine = unwrap_or (tr_machine r) []\<rparr> \<and>
        rs' = update_first (\<lambda>r. tr_token_id r = i) (\<lambda>r. r\<lparr>tr_last_seen := Some seen\<rparr>) rs)"
  by (auto simp: verify_body_def exec_bind_Ret split: option.splits stored_state.splits sum.splits)

subsection \<open>The file\<close>

text \<open>What a reader would load, and the one thing asked of the library: it reads what it printed.\<close>

definition contents :: "token_lib \<Rightarrow> token_store \<Rightarrow> token_record list option" where
  "contents lib st =
     (case ts_file st of
        None \<Rightarrow> Some []
      | Some s \<Rightarrow> if trim s = [] then Some []
                  else case tl_from_str lib s of Inl _ \<Rightarrow> None | Inr rs \<Rightarrow> Some rs)"

definition reads_back :: "token_lib \<Rightarrow> bool" where
  "reads_back lib \<longleftrightarrow>
     (\<forall>rs json. tl_to_string_pretty lib rs = Inr json \<longrightarrow>
        trim json \<noteq> [] \<and> tl_from_str lib json = Inr rs)"

lemma load_Ret: "load lib c st = Ret rs \<longleftrightarrow> tc_read_err c = None \<and> contents lib st = Some rs"
  by (auto simp: load_def contents_def split: option.splits sum.splits)

lemma contents_saved:
  "reads_back lib \<Longrightarrow> tl_to_string_pretty lib rs = Inr json \<Longrightarrow>
   contents lib (st\<lparr>ts_file := Some json\<rparr>) = Some rs"
  by (auto simp: contents_def reads_back_def)

text \<open>
  Every mutating operation is a locked cycle.  Unless the write itself fails, it either leaves
  the file alone and does not return normally, or commits exactly what its body computed.
\<close>

lemma locked_cycle:
  assumes "tc_write_err c = None" and "with_lock c (load_modify_save lib c f) st = (res, st')"
  shows "(st' = st \<and> (\<forall>x. res \<noteq> Ret x)) \<or>
         (\<exists>rs rs' x json. tc_lock_err c = None \<and> tc_read_err c = None \<and>
            contents lib st = Some rs \<and> f rs = Ret (rs', x) \<and>
            tl_to_string_pretty lib rs' = Inr json \<and> st' = st\<lparr>ts_file := Some json\<rparr> \<and> res = Ret x)"
proof (cases "exec_bind (load lib c st) f")
  case (Ret p)
  then obtain rs where rs: "load lib c st = Ret rs" "f rs = Ret p" by (auto simp: exec_bind_Ret)
  obtain rs' x where p: "p = (rs', x)" by (cases p)
  have l: "tc_read_err c = None" "contents lib st = Some rs" using rs(1) by (simp_all add: load_Ret)
  show ?thesis
  proof (cases "tl_to_string_pretty lib rs'")
    case (Inl e)
    then show ?thesis using assms Ret p
      by (auto simp: with_lock_def load_modify_save_def save_def split: option.splits)
  next
    case (Inr json)
    then show ?thesis using assms Ret p rs(2) l
      by (auto simp: with_lock_def load_modify_save_def save_def split: option.splits)
  qed
qed (use assms in \<open>auto simp: with_lock_def load_modify_save_def split: option.splits\<close>)

lemma locked_cycle_Ret_write:
  "with_lock c (load_modify_save lib c f) st = (Ret x, st') \<Longrightarrow> tc_write_err c = None"
  by (auto simp: with_lock_def load_modify_save_def save_def
        split: option.splits exec.splits sum.splits prod.splits)

lemma locked_cycle_Ret:
  assumes "reads_back lib" and "with_lock c (load_modify_save lib c f) st = (Ret x, st')"
  shows "\<exists>rs rs'. contents lib st = Some rs \<and> f rs = Ret (rs', x) \<and> contents lib st' = Some rs'"
  using locked_cycle [OF locked_cycle_Ret_write [OF assms(2)] assms(2)] contents_saved [OF assms(1)]
  by fastforce

lemma locked_cycle_healthy:
  assumes "tc_lock_err c = None" and "tc_read_err c = None" and "tc_write_err c = None"
    and "contents lib st = Some rs" and "f rs = Ret (rs', x)"
    and "tl_to_string_pretty lib rs' = Inr json"
  shows "with_lock c (load_modify_save lib c f) st = (Ret x, st\<lparr>ts_file := Some json\<rparr>)"
proof -
  have "load lib c st = Ret rs" using assms by (simp add: load_Ret)
  with assms show ?thesis by (simp add: with_lock_def load_modify_save_def save_def)
qed

end
