(* ===== verification/TokenHistory.thy ===== *)
theory TokenHistory
  imports Token
begin

text \<open>
  Histories of the token store: any sequence of \<open>mint\<close>, \<open>delete\<close>, \<open>redeem\<close> and
  \<open>verify_credential\<close> calls, each with its own clock, environment and faults, run on the file.
  The file-level operations are shown to simulate a small machine on record lists, and the
  life-cycle and authenticity theorems are proved of every history.
\<close>

section \<open>Operations as data\<close>

datatype token_op =
    OpMint token_call "string option" int
  | OpDelete token_call string
  | OpRedeem token_call string string string
  | OpVerify token_call string string

datatype token_event =
    Minted mint_result
  | Deleted display_state
  | Redeemed redeem_result
  | Verified verified_client

fun op_call :: "token_op \<Rightarrow> token_call" where
  "op_call (OpMint c _ _) = c"
| "op_call (OpDelete c _) = c"
| "op_call (OpRedeem c _ _ _) = c"
| "op_call (OpVerify c _ _) = c"

fun ret_value :: "('e, 'a) exec \<Rightarrow> 'a option" where
  "ret_value (Ret x) = Some x"
| "ret_value _ = None"

lemma ret_value_Some [simp]: "ret_value m = Some x \<longleftrightarrow> m = Ret x"
  by (cases m) auto

fun token_exec :: "token_lib \<Rightarrow> token_op \<Rightarrow> token_store \<Rightarrow> token_event option \<times> token_store" where
  "token_exec lib (OpMint c label ttl) st =
     (case mint lib c label ttl st of (r, st') \<Rightarrow> (map_option Minted (ret_value r), st'))"
| "token_exec lib (OpDelete c i) st =
     (case delete lib c i st of (r, st') \<Rightarrow> (map_option Deleted (ret_value r), st'))"
| "token_exec lib (OpRedeem c i s m) st =
     (case redeem lib c i s m st of (r, st') \<Rightarrow> (map_option Redeemed (ret_value r), st'))"
| "token_exec lib (OpVerify c i cred) st =
     (case verify_credential lib c i cred st of (r, st') \<Rightarrow> (map_option Verified (ret_value r), st'))"

type_synonym token_log = "(token_op \<times> token_event option) list"

fun token_run :: "token_lib \<Rightarrow> token_op list \<Rightarrow> token_store \<Rightarrow> token_log \<times> token_store" where
  "token_run lib [] st = ([], st)"
| "token_run lib (op # ops) st =
     (case token_exec lib op st of (e, st1) \<Rightarrow>
        (case token_run lib ops st1 of (l, st2) \<Rightarrow> ((op, e) # l, st2)))"

lemma token_run_Cons [simp]:
  "snd (token_run lib (op # ops) st) = snd (token_run lib ops (snd (token_exec lib op st)))"
  "fst (token_run lib (op # ops) st) =
     (op, fst (token_exec lib op st)) # fst (token_run lib ops (snd (token_exec lib op st)))"
  by (simp_all split: prod.splits)

declare token_run.simps(2) [simp del]

section \<open>The machine on records\<close>

text \<open>What one committed operation does to the records, with the event it reports.\<close>

inductive record_step ::
  "token_lib \<Rightarrow> token_record list \<Rightarrow> token_op \<Rightarrow> token_event \<Rightarrow> token_record list \<Rightarrow> bool"
  for lib :: token_lib where
  step_mint:
    "get_pepper c = Ret p \<Longrightarrow> tr_token_id r = mr_token_id x \<Longrightarrow>
     tr_secret_hash r = hash_secret lib p (mr_secret x) \<Longrightarrow> tr_state r = SUnused \<Longrightarrow>
     tr_label r = label \<Longrightarrow> tr_expires r = mr_expires x \<Longrightarrow>
     record_step lib rs (OpMint c label ttl) (Minted x) (rs @ [r])"
| step_delete:
    "delete_body lib c i rs = Ret (rs', d) \<Longrightarrow>
     record_step lib rs (OpDelete c i) (Deleted d) rs'"
| step_redeem:
    "get_pepper c = Ret p \<Longrightarrow> redeem_body lib c p i s m rs = Ret (rs', x) \<Longrightarrow>
     record_step lib rs (OpRedeem c i s m) (Redeemed x) rs'"
| step_verify:
    "get_pepper c = Ret p \<Longrightarrow> verify_body lib c p i cred rs = Ret (rs', v) \<Longrightarrow>
     record_step lib rs (OpVerify c i cred) (Verified v) rs'"

inductive_cases record_stepE: "record_step lib rs op e rs'"

lemma with_pepper:
  "(case get_pepper c of Ret p \<Rightarrow> g p | Raise e \<Rightarrow> (Raise e, st) | Panic \<Rightarrow> (Panic, st)) = (Ret x, st')
   \<longleftrightarrow> (\<exists>p. get_pepper c = Ret p \<and> g p = (Ret x, st'))"
  by (cases "get_pepper c") auto

lemma mint_with_pepper_Ret:
  assumes "reads_back lib" and "mint_with_pepper lib c p label ttl st = (Ret x, st')"
  shows "\<exists>rs r. contents lib st = Some rs \<and> contents lib st' = Some (rs @ [r]) \<and>
           tr_token_id r = mr_token_id x \<and> tr_secret_hash r = hash_secret lib p (mr_secret x) \<and>
           tr_state r = SUnused \<and> tr_label r = label \<and> tr_expires r = mr_expires x"
  using assms(2) unfolding mint_with_pepper_def
  by (auto simp: Let_def split: exec.splits dest!: locked_cycle_Ret [OF assms(1)])

text \<open>The simulation: an operation that reports an event has committed that step of the machine.\<close>

lemma token_exec_simulates:
  assumes "reads_back lib" and "token_exec lib op st = (Some e, st')"
  shows "\<exists>rs rs'. contents lib st = Some rs \<and> contents lib st' = Some rs' \<and>
                  record_step lib rs op e rs'"
proof (cases op)
  case (OpMint c label ttl)
  then obtain x p where "e = Minted x" "get_pepper c = Ret p"
      "mint_with_pepper lib c p label ttl st = (Ret x, st')"
    using assms(2) by (auto simp: mint_def with_pepper split: prod.splits)
  with mint_with_pepper_Ret [OF assms(1), of c p label ttl st x st'] OpMint show ?thesis
    by (fastforce intro: step_mint)
next
  case (OpDelete c i)
  then obtain d where "e = Deleted d" "delete lib c i st = (Ret d, st')"
    using assms(2) by (auto split: prod.splits)
  with locked_cycle_Ret [OF assms(1), of c "delete_body lib c i" st d st'] OpDelete
  show ?thesis by (auto simp: delete_def intro: step_delete)
next
  case (OpRedeem c i s m)
  then obtain x p where "e = Redeemed x" "get_pepper c = Ret p"
      "redeem_with_pepper lib c p i s m st = (Ret x, st')"
    using assms(2) by (auto simp: redeem_def with_pepper split: prod.splits)
  with locked_cycle_Ret [OF assms(1), of c "redeem_body lib c p i s m" st x st'] OpRedeem
  show ?thesis by (auto simp: redeem_with_pepper_def intro: step_redeem)
next
  case (OpVerify c i cred)
  then obtain v p where "e = Verified v" "get_pepper c = Ret p"
      "verify_credential_with_pepper lib c p i cred st = (Ret v, st')"
    using assms(2) by (auto simp: verify_credential_def with_pepper split: prod.splits)
  with locked_cycle_Ret [OF assms(1), of c "verify_body lib c p i cred" st v st'] OpVerify
  show ?thesis by (auto simp: verify_credential_with_pepper_def intro: step_verify)
qed

lemma locked_cycle_keeps:
  "tc_write_err c = None \<Longrightarrow> with_lock c (load_modify_save lib c f) st = (res, st') \<Longrightarrow>
   ret_value res = None \<Longrightarrow> st' = st"
  using locked_cycle [of c lib f st res st'] by auto

lemma mint_with_pepper_keeps:
  "tc_write_err c = None \<Longrightarrow> mint_with_pepper lib c p label ttl st = (res, st') \<Longrightarrow>
   ret_value res = None \<Longrightarrow> st' = st"
  unfolding mint_with_pepper_def
  by (auto simp: Let_def split: exec.splits prod.splits dest: locked_cycle_keeps)

lemma with_pepper_keeps:
  assumes "(case get_pepper c of Ret p \<Rightarrow> g p | Raise e \<Rightarrow> (Raise e, st) | Panic \<Rightarrow> (Panic, st)) =
       (res, st')"
    and "ret_value res = None" and "\<And>p. g p = (res, st') \<Longrightarrow> st' = st"
  shows "st' = st"
  using assms by (cases "get_pepper c") auto

lemma token_exec_keeps:
  assumes "tc_write_err (op_call op) = None" and "token_exec lib op st = (None, st')"
  shows "st' = st"
proof (cases op)
  case (OpMint c label ttl)
  then show ?thesis using assms
    by (auto simp: mint_def split: prod.splits elim!: with_pepper_keeps dest: mint_with_pepper_keeps)
next
  case (OpDelete c i)
  then show ?thesis using assms
    by (auto simp: delete_def split: prod.splits dest: locked_cycle_keeps)
next
  case (OpRedeem c i s m)
  then show ?thesis using assms
    by (auto simp: redeem_def redeem_with_pepper_def split: prod.splits elim!: with_pepper_keeps
          dest: locked_cycle_keeps)
next
  case (OpVerify c i cred)
  then show ?thesis using assms
    by (auto simp: verify_credential_def verify_credential_with_pepper_def split: prod.splits
          elim!: with_pepper_keeps dest: locked_cycle_keeps)
qed

section \<open>Life cycle\<close>

fun state_rank :: "stored_state \<Rightarrow> nat" where
  "state_rank SUnused = 0"
| "state_rank SBound = 1"
| "state_rank SRevoked = 2"
| "state_rank SInvalidated = 3"

lemma delete_record_rank: "state_rank (tr_state r) \<le> state_rank (tr_state (delete_record r))"
  by (cases "tr_state r") (simp_all add: delete_record_def)

lemma display_state_of_Unused: "display_state_of lib now r = DUnused \<Longrightarrow> tr_state r = SUnused"
  by (cases "tr_state r") (simp_all add: display_state_of_def)

lemma redeem_body_found:
  assumes "redeem_body lib c p i s m rs = Ret (rs', x)"
  shows "\<exists>r. find_token i rs = Some r \<and> tr_state r = SUnused \<and>
           verify_secret lib p s (tr_secret_hash r) = Ret True \<and> rr_token_id x = i \<and>
           (\<forall>j. find_token j rs' =
             (if j = i then Some (bind_record m (rr_client_id x) (hash_secret lib p (rr_credential x)) r)
              else find_token j rs))"
proof -
  obtain r where r: "find_token i rs = Some r" "tr_state r = SUnused"
      "verify_secret lib p s (tr_secret_hash r) = Ret True" "rr_token_id x = i"
      "rs' = update_first (\<lambda>r. tr_token_id r = i)
               (bind_record m (rr_client_id x) (hash_secret lib p (rr_credential x))) rs"
    using assms unfolding redeem_body_Ret by (fastforce dest: display_state_of_Unused)
  then show ?thesis by (simp add: find_token_update)
qed

text \<open>No committed step moves a token backwards, whoever runs it.\<close>

lemma record_step_rank:
  assumes "record_step lib rs op e rs'" and "find_token i rs = Some r"
  shows "\<exists>r'. find_token i rs' = Some r' \<and> state_rank (tr_state r) \<le> state_rank (tr_state r')"
  using assms(1)
proof cases
  case step_mint
  then show ?thesis using assms(2) by (auto simp: find_token_append)
next
  case (step_delete c j d)
  then show ?thesis using assms(2)
    by (auto simp: delete_body_Ret find_token_update delete_record_rank)
next
  case (step_redeem c p j s m x)
  then show ?thesis using assms(2) redeem_body_found [of lib c p j s m rs rs' x] by auto
next
  case (step_verify c p j cred v)
  then show ?thesis using assms(2) by (auto simp: verify_body_Ret find_token_update)
qed

definition no_write_faults :: "token_op list \<Rightarrow> bool" where
  "no_write_faults ops \<longleftrightarrow> (\<forall>op \<in> set ops. tc_write_err (op_call op) = None)"

lemma token_exec_outcome:
  assumes "reads_back lib" and "tc_write_err (op_call op) = None" and "contents lib st = Some rs"
  shows "token_exec lib op st = (None, st) \<or>
         (\<exists>e rs' st'. token_exec lib op st = (Some e, st') \<and> contents lib st' = Some rs' \<and>
            record_step lib rs op e rs')"
proof (cases "token_exec lib op st")
  case (Pair ev st')
  then show ?thesis
    using token_exec_keeps [OF assms(2), of lib st st'] token_exec_simulates [OF assms(1), of op st _ st']
      assms(3)
    by (cases ev) fastforce+
qed

lemma token_run_rank:
  assumes "reads_back lib" and "no_write_faults ops" and "contents lib st = Some rs"
    and "find_token i rs = Some r"
  shows "\<exists>rs' r'. contents lib (snd (token_run lib ops st)) = Some rs' \<and> find_token i rs' = Some r' \<and>
           state_rank (tr_state r) \<le> state_rank (tr_state r')"
  using assms(2-4)
proof (induction ops arbitrary: st rs r)
  case (Cons op ops)
  have w: "tc_write_err (op_call op) = None" "no_write_faults ops"
    using Cons.prems(1) by (simp_all add: no_write_faults_def)
  consider (kept) "token_exec lib op st = (None, st)"
    | (stepped) e rs' st' where "token_exec lib op st = (Some e, st')" "contents lib st' = Some rs'"
        "record_step lib rs op e rs'"
    using token_exec_outcome [OF assms(1) w(1) Cons.prems(2)] by blast
  then show ?case
  proof cases
    case kept
    with Cons.IH [OF w(2) Cons.prems(2,3)] show ?thesis by simp
  next
    case (stepped e rs' st')
    obtain r' where r': "find_token i rs' = Some r'" "state_rank (tr_state r) \<le> state_rank (tr_state r')"
      using record_step_rank [OF stepped(3) Cons.prems(3)] by blast
    with Cons.IH [OF w(2) stepped(2) r'(1)] stepped(1) show ?thesis
      by (auto intro: le_trans)
  qed
qed auto

lemma redeem_Ret:
  assumes "reads_back lib" and "redeem lib c i s m st = (Ret x, st')"
  shows "\<exists>p rs rs' r. get_pepper c = Ret p \<and> contents lib st = Some rs \<and> contents lib st' = Some rs' \<and>
           redeem_body lib c p i s m rs = Ret (rs', x) \<and> find_token i rs = Some r \<and>
           tr_state r = SUnused \<and> (\<exists>r'. find_token i rs' = Some r' \<and> tr_state r' = SBound)"
proof -
  obtain p where p: "get_pepper c = Ret p" "redeem_with_pepper lib c p i s m st = (Ret x, st')"
    using assms(2) by (auto simp: redeem_def with_pepper)
  then obtain rs rs' where rs: "contents lib st = Some rs" "redeem_body lib c p i s m rs = Ret (rs', x)"
      "contents lib st' = Some rs'"
    using locked_cycle_Ret [OF assms(1), of c "redeem_body lib c p i s m" st x st']
    by (auto simp: redeem_with_pepper_def)
  then show ?thesis using p redeem_body_found [OF rs(2)] by auto
qed

lemma verify_Ret:
  assumes "reads_back lib" and "verify_credential lib c i cred st = (Ret v, st')"
  shows "\<exists>p rs rs' r. get_pepper c = Ret p \<and> contents lib st = Some rs \<and> contents lib st' = Some rs' \<and>
           verify_body lib c p i cred rs = Ret (rs', v) \<and> find_token i rs = Some r \<and> tr_state r = SBound"
proof -
  obtain p where p: "get_pepper c = Ret p" "verify_credential_with_pepper lib c p i cred st = (Ret v, st')"
    using assms(2) by (auto simp: verify_credential_def with_pepper)
  then obtain rs rs' where rs: "contents lib st = Some rs" "verify_body lib c p i cred rs = Ret (rs', v)"
      "contents lib st' = Some rs'"
    using locked_cycle_Ret [OF assms(1), of c "verify_body lib c p i cred" st v st']
    by (auto simp: verify_credential_with_pepper_def)
  then show ?thesis using p by (auto simp: verify_body_Ret)
qed

lemma delete_Ret:
  assumes "reads_back lib" and "delete lib c i st = (Ret d, st')"
  shows "\<exists>rs rs' r. contents lib st = Some rs \<and> contents lib st' = Some rs' \<and>
           find_token i rs = Some r \<and> find_token i rs' = Some (delete_record r) \<and>
           d = display_state_of lib (tc_now c) (delete_record r)"
proof -
  obtain rs rs' where "contents lib st = Some rs" "delete_body lib c i rs = Ret (rs', d)"
      "contents lib st' = Some rs'"
    using locked_cycle_Ret [OF assms(1), of c "delete_body lib c i" st d st'] assms(2)
    by (auto simp: delete_def)
  then show ?thesis by (auto simp: delete_body_Ret find_token_update)
qed

section \<open>A concrete library\<close>

text \<open>
  A complete, executable instance of the library parameters, so that the theorems below can be
  evaluated: records print as escaped fields, HMAC is the identity on the message, instants
  print in decimal.
\<close>

definition enc_str :: "string \<Rightarrow> string" where
  "enc_str s = concat (map (\<lambda>c. [CHR ''a'', c]) s) @ ''z''"

fun dec_str :: "string \<Rightarrow> string \<times> string" where
  "dec_str (t # c # r) =
     (if t = CHR ''a'' then (case dec_str r of (s, q) \<Rightarrow> (c # s, q)) else ([], c # r))"
| "dec_str _ = ([], [])"

lemma dec_enc_str [simp]: "dec_str (enc_str s @ r) = (s, r)"
  by (induction s) (cases r, simp_all add: enc_str_def)

definition opt_str :: "string option \<Rightarrow> string" where
  "opt_str x = (case x of None \<Rightarrow> [] | Some s \<Rightarrow> CHR ''s'' # s)"

definition str_opt :: "string \<Rightarrow> string option" where
  "str_opt s = (case s of [] \<Rightarrow> None | c # r \<Rightarrow> Some r)"

lemma str_opt_str [simp]: "str_opt (opt_str x) = x"
  by (cases x) (simp_all add: opt_str_def str_opt_def)

definition state_str :: "stored_state \<Rightarrow> string" where
  "state_str s = (case s of SUnused \<Rightarrow> ''u'' | SBound \<Rightarrow> ''b'' | SInvalidated \<Rightarrow> ''i'' | SRevoked \<Rightarrow> ''r'')"

definition str_state :: "string \<Rightarrow> stored_state" where
  "str_state s =
     (if s = ''u'' then SUnused else if s = ''b'' then SBound
      else if s = ''i'' then SInvalidated else SRevoked)"

lemma str_state_str [simp]: "str_state (state_str s) = s"
  by (cases s) (simp_all add: state_str_def str_state_def)

definition enc_record :: "token_record \<Rightarrow> string" where
  "enc_record r =
     enc_str (tr_token_id r) @ enc_str (tr_secret_hash r) @ enc_str (state_str (tr_state r)) @
     enc_str (opt_str (tr_label r)) @ enc_str (opt_str (tr_machine r)) @
     enc_str (opt_str (tr_client_id r)) @ enc_str (opt_str (tr_credential_hash r)) @
     enc_str (tr_created_at r) @ enc_str (tr_expires r) @ enc_str (opt_str (tr_last_seen r))"

definition dec_record :: "string \<Rightarrow> token_record \<times> string" where
  "dec_record s0 =
     (let (a, s1) = dec_str s0; (b, s2) = dec_str s1; (c, s3) = dec_str s2; (d, s4) = dec_str s3;
          (e, s5) = dec_str s4; (f, s6) = dec_str s5; (g, s7) = dec_str s6; (h, s8) = dec_str s7;
          (i, s9) = dec_str s8; (j, s10) = dec_str s9
      in (\<lparr>tr_token_id = a, tr_secret_hash = b, tr_state = str_state c, tr_label = str_opt d,
           tr_machine = str_opt e, tr_client_id = str_opt f, tr_credential_hash = str_opt g,
           tr_created_at = h, tr_expires = i, tr_last_seen = str_opt j\<rparr>, s10))"

lemma dec_enc_record [simp]: "dec_record (enc_record r @ s) = (r, s)"
  by (simp add: dec_record_def enc_record_def)

fun enc_records :: "token_record list \<Rightarrow> string" where
  "enc_records [] = ''.''"
| "enc_records (r # rs) = CHR '','' # enc_record r @ enc_records rs"

fun dec_records :: "nat \<Rightarrow> string \<Rightarrow> token_record list" where
  "dec_records (Suc n) (c # s) =
     (if c = CHR '','' then (case dec_record s of (r, q) \<Rightarrow> r # dec_records n q) else [])"
| "dec_records _ _ = []"

lemma length_enc_records: "length rs < length (enc_records rs)"
  by (induction rs) simp_all

lemma dec_enc_records: "length rs < n \<Longrightarrow> dec_records n (enc_records rs) = rs"
proof (induction rs arbitrary: n)
  case Nil
  then show ?case by (cases n) simp_all
next
  case (Cons r rs)
  then show ?case by (cases n) simp_all
qed

definition demo_token_lib :: token_lib where
  "demo_token_lib =
     \<lparr>tl_from_str = (\<lambda>s. Inr (dec_records (length s) s)),
      tl_to_string_pretty = (\<lambda>rs. Inr (enc_records rs)),
      tl_hmac = (\<lambda>p m. m),
      tl_parse_rfc3339 = (\<lambda>s. map_option int (parse_digits s)),
      tl_format_rfc3339 = (\<lambda>t. Inr (show_nat (nat t))),
      tl_checked_add = (\<lambda>a b. Some (a + b))\<rparr>"

lemma trim_marked: "c = CHR ''.'' \<or> c = CHR '','' \<Longrightarrow> trim (c # s) \<noteq> []"
proof -
  assume c: "c = CHR ''.'' \<or> c = CHR '',''"
  let ?ch = "c # takeWhile is_cont_byte s" and ?rest = "utf8_chars (dropWhile is_cont_byte s)"
  have "\<not> is_whitespace ?ch"
    using c by (cases "takeWhile is_cont_byte s")
      (auto simp: is_whitespace_def byte_of_def split: list.splits)
  then have "dropWhile is_whitespace (utf8_chars (c # s)) = ?ch # ?rest" by simp
  moreover have "\<exists>x. dropWhile is_whitespace (rev (?ch # ?rest)) = x @ [?ch]"
    using \<open>\<not> is_whitespace ?ch\<close> by (auto simp: dropWhile_append)
  ultimately show ?thesis by (auto simp: trim_def)
qed

lemma demo_reads_back: "reads_back demo_token_lib"
proof -
  have "trim (enc_records rs) \<noteq> []" for rs
    using trim_marked by (cases rs) auto
  then show ?thesis
    by (simp add: reads_back_def demo_token_lib_def dec_enc_records length_enc_records)
qed

definition demo_call :: "int \<Rightarrow> token_call" where
  "demo_call now =
     \<lparr>tc_now = now, tc_pepper = Some ''pepper'',
      tc_rng = (\<lambda>i n. Inr (replicate n (of_nat i))),
      tc_lock_err = None, tc_read_err = None, tc_write_err = None\<rparr>"

section \<open>Calls without faults\<close>

definition healthy :: "token_lib \<Rightarrow> bytes \<Rightarrow> token_call \<Rightarrow> bool" where
  "healthy lib p c \<longleftrightarrow>
     tc_lock_err c = None \<and> tc_read_err c = None \<and> tc_write_err c = None \<and> get_pepper c = Ret p \<and>
     (\<forall>i n. \<exists>bs. tc_rng c i n = Inr bs) \<and> (\<exists>s. tl_format_rfc3339 lib (tc_now c) = Inr s)"

definition prints :: "token_lib \<Rightarrow> bool" where
  "prints lib \<longleftrightarrow> reads_back lib \<and> (\<forall>rs. \<exists>json. tl_to_string_pretty lib rs = Inr json)"

lemma healthy_cycle:
  assumes "prints lib" and "healthy lib p c" and "contents lib st = Some rs" and "f rs = Ret (rs', x)"
  shows "\<exists>st'. with_lock c (load_modify_save lib c f) st = (Ret x, st') \<and> contents lib st' = Some rs'"
proof -
  obtain json where "tl_to_string_pretty lib rs' = Inr json" using assms(1) by (auto simp: prints_def)
  with locked_cycle_healthy [of c lib st rs f rs' x json] contents_saved [of lib rs' json st] assms
  show ?thesis by (auto simp: prints_def healthy_def)
qed

lemma redeem_healthy:
  assumes "prints lib" and "healthy lib p c" and "contents lib st = Some rs"
    and "find_token i rs = Some r" and "display_state_of lib (tc_now c) r = DUnused"
    and "tr_secret_hash r = hash_secret lib p secret"
  shows "\<exists>x st' rs'. redeem lib c i secret m st = (Ret x, st') \<and> contents lib st' = Some rs' \<and>
           find_token i rs' =
             Some (bind_record m (rr_client_id x) (hash_secret lib p (rr_credential x)) r)"
proof -
  obtain b1 b2 where "tc_rng c 0 16 = Inr b1" "tc_rng c 1 32 = Inr b2"
    using assms(2) by (meson healthy_def)
  then obtain rs' x where body: "redeem_body lib c p i secret m rs = Ret (rs', x)"
    using assms(4,5,6) unfolding redeem_body_Ret by auto
  with healthy_cycle [where f = "redeem_body lib c p i secret m", OF assms(1,2,3) body]
    redeem_body_found [OF body] assms(2,4) show ?thesis
    by (auto simp: redeem_def redeem_with_pepper_def healthy_def)
qed

lemma verify_healthy:
  assumes "prints lib" and "healthy lib p c" and "contents lib st = Some rs"
    and "find_token i rs = Some r" and "tr_state r = SBound"
    and "tr_credential_hash r = Some (hash_secret lib p cred)"
  shows "\<exists>st'. verify_credential lib c i cred st =
           (Ret \<lparr>vc_token_id = i, vc_client_id = unwrap_or (tr_client_id r) [],
                 vc_machine = unwrap_or (tr_machine r) []\<rparr>, st')"
proof -
  obtain s where "tl_format_rfc3339 lib (tc_now c) = Inr s" using assms(2) by (auto simp: healthy_def)
  then obtain rs' where "verify_body lib c p i cred rs =
      Ret (rs', \<lparr>vc_token_id = i, vc_client_id = unwrap_or (tr_client_id r) [],
                 vc_machine = unwrap_or (tr_machine r) []\<rparr>)"
    using assms(4,5,6) unfolding verify_body_Ret by auto
  from healthy_cycle [where f = "verify_body lib c p i cred", OF assms(1,2,3) this] assms(2)
  show ?thesis
    by (auto simp: verify_credential_def verify_credential_with_pepper_def healthy_def)
qed

lemma delete_healthy:
  assumes "prints lib" and "healthy lib p c" and "contents lib st = Some rs"
    and "find_token i rs = Some r"
  shows "\<exists>st'. delete lib c i st = (Ret (display_state_of lib (tc_now c) (delete_record r)), st')"
proof -
  obtain rs' where "delete_body lib c i rs = Ret (rs', display_state_of lib (tc_now c) (delete_record r))"
    using assms(4) unfolding delete_body_Ret by auto
  from healthy_cycle [where f = "delete_body lib c i", OF assms(1,2,3) this]
  show ?thesis by (auto simp: delete_def)
qed

lemma mint_healthy:
  assumes "prints lib" and "healthy lib p c" and "contents lib st = Some rs"
    and "tl_checked_add lib (tc_now c) ttl = Some later" and "tl_format_rfc3339 lib later = Inr ex"
    and "\<forall>bs. tc_rng c 0 16 = Inr bs \<longrightarrow> find_token (''tok_'' @ to_hex bs) rs = None"
  shows "\<exists>x st' rs' r. mint lib c label ttl st = (Ret x, st') \<and> contents lib st' = Some rs' \<and>
           find_token (mr_token_id x) rs' = Some r \<and> tr_state r = SUnused \<and> tr_expires r = ex \<and>
           tr_secret_hash r = hash_secret lib p (mr_secret x)"
proof -
  obtain b1 b2 created where b: "tc_rng c 0 16 = Inr b1" "tc_rng c 1 32 = Inr b2"
      "tl_format_rfc3339 lib (tc_now c) = Inr created"
    using assms(2) by (meson healthy_def)
  let ?id = "''tok_'' @ to_hex b1" and ?secret = "''hlr_'' @ to_hex b2"
  let ?r = "\<lparr>tr_token_id = ?id, tr_secret_hash = hash_secret lib p ?secret, tr_state = SUnused,
    tr_label = label, tr_machine = None, tr_client_id = None, tr_credential_hash = None,
    tr_created_at = created, tr_expires = ex, tr_last_seen = None\<rparr>"
  let ?x = "\<lparr>mr_token_id = ?id, mr_secret = ?secret, mr_expires = ex\<rparr>"
  obtain st' where c: "with_lock c (load_modify_save lib c (\<lambda>rs. Ret (rs @ [?r], ?x))) st = (Ret ?x, st')"
      "contents lib st' = Some (rs @ [?r])"
    using healthy_cycle [OF assms(1,2,3), of "\<lambda>rs. Ret (rs @ [?r], ?x)"] by auto
  then have "mint lib c label ttl st = (Ret ?x, st')"
    using b assms(2,4,5) by (simp add: mint_def mint_with_pepper_def random_hex_def healthy_def)
  moreover have "find_token ?id (rs @ [?r]) = Some ?r"
    using assms(6) b(1) by (simp add: find_token_append)
  ultimately show ?thesis using c(2) by (intro exI [of _ ?x] exI [of _ st']) auto
qed

lemma demo_prints: "prints demo_token_lib"
  using demo_reads_back by (simp add: prints_def demo_token_lib_def)

lemma demo_healthy: "healthy demo_token_lib (as_bytes ''pepper'') (demo_call t)"
  by (simp add: healthy_def demo_call_def demo_token_lib_def get_pepper_def)

definition demo_token :: "stored_state \<Rightarrow> token_record" where
  "demo_token s =
     \<lparr>tr_token_id = ''tok_a'', tr_secret_hash = hash_secret demo_token_lib (as_bytes ''pepper'') ''hlr_s'',
      tr_state = s, tr_label = None, tr_machine = None, tr_client_id = None,
      tr_credential_hash = None, tr_created_at = ''0'', tr_expires = ''100'', tr_last_seen = None\<rparr>"

definition demo_store :: "stored_state \<Rightarrow> token_store" where
  "demo_store s = \<lparr>ts_file = Some (enc_records [demo_token s])\<rparr>"

lemma demo_contents: "contents demo_token_lib (demo_store s) = Some [demo_token s]"
  using contents_saved [OF demo_reads_back, of "[demo_token s]" "enc_records [demo_token s]" "demo_store s"]
  by (simp add: demo_store_def demo_token_lib_def)

lemma demo_find: "find_token ''tok_a'' [demo_token s] = Some (demo_token s)"
  by (simp add: find_token_def demo_token_def)

lemma demo_unused: "t < 100 \<Longrightarrow> display_state_of demo_token_lib t (demo_token SUnused) = DUnused"
proof -
  assume "t < 100"
  moreover have "parse_digits ''100'' = Some 100"
    by (simp add: parse_digits_def is_digit_def byte_of_def digits_value_def)
  ultimately show ?thesis by (simp add: display_state_of_def demo_token_def demo_token_lib_def)
qed

section \<open>Properties\<close>

text \<open>
  C10: a join secret works once.  After a successful \<open>redeem\<close> of a token, no later \<open>redeem\<close> of it
  succeeds, with any secret, at any time and after any sequence of mints, deletes, redeems and
  verifications by this or other processes in which no write of the token file fails half-way.
\<close>

theorem token_redeem_single_use:
  assumes "reads_back lib" and "no_write_faults ops" and "redeem lib c i s m st = (Ret x, st1)"
  shows "fst (redeem lib c' i s' m' (snd (token_run lib ops st1))) \<noteq> Ret y"
proof
  assume "fst (redeem lib c' i s' m' (snd (token_run lib ops st1))) = Ret y"
  then obtain st2 where again: "redeem lib c' i s' m' (snd (token_run lib ops st1)) = (Ret y, st2)"
    by (metis prod.collapse)
  obtain rs1 r1 where "contents lib st1 = Some rs1" "find_token i rs1 = Some r1" "tr_state r1 = SBound"
    using redeem_Ret [OF assms(1,3)] by blast
  then obtain rs2 r2 where "contents lib (snd (token_run lib ops st1)) = Some rs2"
      "find_token i rs2 = Some r2" "1 \<le> state_rank (tr_state r2)"
    using token_run_rank [OF assms(1,2)] by fastforce
  with redeem_Ret [OF assms(1) again] show False by auto
qed

theorem token_redeem_single_use_witness:
  "\<exists>x st1. redeem demo_token_lib (demo_call 5) ''tok_a'' ''hlr_s'' ''box'' (demo_store SUnused) = (Ret x, st1) \<and>
     (\<forall>y. fst (redeem demo_token_lib (demo_call 7) ''tok_a'' ''hlr_s'' ''box''
            (snd (token_run demo_token_lib [OpVerify (demo_call 6) ''tok_a'' (rr_credential x)] st1))) \<noteq> Ret y)"
proof -
  obtain x st1 where r: "redeem demo_token_lib (demo_call 5) ''tok_a'' ''hlr_s'' ''box'' (demo_store SUnused) = (Ret x, st1)"
    using redeem_healthy [OF demo_prints demo_healthy demo_contents demo_find demo_unused]
    by (force simp: demo_call_def demo_token_def)
  have "no_write_faults [OpVerify (demo_call 6) ''tok_a'' (rr_credential x)]"
    by (simp add: no_write_faults_def demo_call_def)
  with r token_redeem_single_use [OF demo_reads_back this r] show ?thesis by blast
qed

text \<open>
  C11: deletion is final.  After a successful \<open>delete\<close> of a token neither a join secret nor a client
  credential is ever accepted for it again, whatever operations follow, as long as no write of the
  token file fails half-way.
\<close>

theorem token_delete_final:
  assumes "reads_back lib" and "no_write_faults ops" and "delete lib c i st = (Ret d, st1)"
  shows "fst (redeem lib c' i s m (snd (token_run lib ops st1))) \<noteq> Ret x \<and>
         fst (verify_credential lib c' i cred (snd (token_run lib ops st1))) \<noteq> Ret v"
proof -
  obtain rs1 r where "contents lib st1 = Some rs1" "find_token i rs1 = Some (delete_record r)"
    using delete_Ret [OF assms(1,3)] by blast
  moreover have "2 \<le> state_rank (tr_state (delete_record r))"
    by (cases "tr_state r") (simp_all add: delete_record_def)
  ultimately obtain rs2 r2 where end_st: "contents lib (snd (token_run lib ops st1)) = Some rs2"
      "find_token i rs2 = Some r2" "2 \<le> state_rank (tr_state r2)"
    using token_run_rank [OF assms(1,2)] by fastforce
  show ?thesis
  proof (intro conjI notI)
    assume "fst (redeem lib c' i s m (snd (token_run lib ops st1))) = Ret x"
    then obtain st2 where "redeem lib c' i s m (snd (token_run lib ops st1)) = (Ret x, st2)"
      by (metis prod.collapse)
    from redeem_Ret [OF assms(1) this] end_st show False by auto
  next
    assume "fst (verify_credential lib c' i cred (snd (token_run lib ops st1))) = Ret v"
    then obtain st2 where "verify_credential lib c' i cred (snd (token_run lib ops st1)) = (Ret v, st2)"
      by (metis prod.collapse)
    from verify_Ret [OF assms(1) this] end_st show False by auto
  qed
qed

theorem token_delete_final_witness:
  "\<exists>st1. delete demo_token_lib (demo_call 5) ''tok_a'' (demo_store SUnused) = (Ret DInvalidated, st1) \<and>
     (\<forall>x v. fst (redeem demo_token_lib (demo_call 7) ''tok_a'' ''hlr_s'' ''box''
                   (snd (token_run demo_token_lib [] st1))) \<noteq> Ret x \<and>
            fst (verify_credential demo_token_lib (demo_call 7) ''tok_a'' ''c''
                   (snd (token_run demo_token_lib [] st1))) \<noteq> Ret v)"
proof -
  have "display_state_of demo_token_lib 5 (delete_record (demo_token SUnused)) = DInvalidated"
    by (simp add: display_state_of_def delete_record_def demo_token_def)
  with delete_healthy [OF demo_prints demo_healthy demo_contents demo_find, of 5 SUnused]
  obtain st1 where d: "delete demo_token_lib (demo_call 5) ''tok_a'' (demo_store SUnused) = (Ret DInvalidated, st1)"
    by (auto simp: demo_call_def)
  have "no_write_faults []" by (simp add: no_write_faults_def)
  from d token_delete_final [OF demo_reads_back this d] show ?thesis by blast
qed

text \<open>
  C32: the whole join flow works.  With a fresh token id, a secret minted and redeemed before its
  expiry binds the token, and the credential handed out then authenticates as the client identity
  and machine name recorded at redemption.
\<close>

theorem token_lifecycle:
  assumes "prints lib" and "healthy lib p c1" and "healthy lib p c2" and "healthy lib p c3"
    and "contents lib st = Some rs"
    and "tl_checked_add lib (tc_now c1) ttl = Some later" and "tl_format_rfc3339 lib later = Inr ex"
    and "tl_parse_rfc3339 lib ex = Some later" and "tc_now c2 < later"
    and "\<forall>bs. tc_rng c1 0 16 = Inr bs \<longrightarrow> find_token (''tok_'' @ to_hex bs) rs = None"
  shows "\<exists>x st1 y st2 v st3. mint lib c1 label ttl st = (Ret x, st1) \<and>
     redeem lib c2 (mr_token_id x) (mr_secret x) machine st1 = (Ret y, st2) \<and>
     verify_credential lib c3 (mr_token_id x) (rr_credential y) st2 = (Ret v, st3) \<and>
     v = \<lparr>vc_token_id = mr_token_id x, vc_client_id = rr_client_id y, vc_machine = machine\<rparr>"
proof -
  obtain x st1 rs1 r where x: "mint lib c1 label ttl st = (Ret x, st1)" "contents lib st1 = Some rs1"
      "find_token (mr_token_id x) rs1 = Some r" "tr_state r = SUnused" "tr_expires r = ex"
      "tr_secret_hash r = hash_secret lib p (mr_secret x)"
    using mint_healthy [OF assms(1,2,5,6,7,10)] by blast
  have "display_state_of lib (tc_now c2) r = DUnused"
    using x(4,5) assms(8,9) by (simp add: display_state_of_def)
  from redeem_healthy [OF assms(1,3) x(2,3) this x(6)]
  obtain y st2 rs2 where y: "redeem lib c2 (mr_token_id x) (mr_secret x) machine st1 = (Ret y, st2)"
      "contents lib st2 = Some rs2"
      "find_token (mr_token_id x) rs2 =
        Some (bind_record machine (rr_client_id y) (hash_secret lib p (rr_credential y)) r)"
    by blast
  from verify_healthy [OF assms(1,4) y(2,3)] x(1) y(1) show ?thesis by fastforce
qed

theorem token_lifecycle_witness:
  "\<exists>x st1 y st2 v st3.
     mint demo_token_lib (demo_call 0) None 100 \<lparr>ts_file = None\<rparr> = (Ret x, st1) \<and>
     redeem demo_token_lib (demo_call 50) (mr_token_id x) (mr_secret x) ''box'' st1 = (Ret y, st2) \<and>
     verify_credential demo_token_lib (demo_call 60) (mr_token_id x) (rr_credential y) st2 = (Ret v, st3) \<and>
     v = \<lparr>vc_token_id = mr_token_id x, vc_client_id = rr_client_id y, vc_machine = ''box''\<rparr>"
proof (rule token_lifecycle [OF demo_prints demo_healthy demo_healthy demo_healthy])
  show "contents demo_token_lib \<lparr>ts_file = None\<rparr> = Some []" by (simp add: contents_def)
  show "tl_checked_add demo_token_lib (tc_now (demo_call 0)) 100 = Some 100"
    by (simp add: demo_token_lib_def demo_call_def)
  show "tl_format_rfc3339 demo_token_lib 100 = Inr (show_nat 100)"
    by (simp add: demo_token_lib_def)
  show "tl_parse_rfc3339 demo_token_lib (show_nat 100) = Some 100"
    by (simp add: demo_token_lib_def)
qed (simp_all add: demo_call_def find_token_def)

text \<open>
  Where the hashes in the store come from: every unused record carries the hash of a secret some
  mint of the history returned for it, every bound one the hash of a credential some redeem did.
\<close>

definition minted_in :: "token_lib \<Rightarrow> token_log \<Rightarrow> string \<Rightarrow> string \<Rightarrow> bool" where
  "minted_in lib log i h \<longleftrightarrow>
     (\<exists>op p x. (op, Some (Minted x)) \<in> set log \<and> get_pepper (op_call op) = Ret p \<and>
        mr_token_id x = i \<and> h = hash_secret lib p (mr_secret x))"

definition redeemed_in :: "token_lib \<Rightarrow> token_log \<Rightarrow> string \<Rightarrow> string \<Rightarrow> bool" where
  "redeemed_in lib log i h \<longleftrightarrow>
     (\<exists>op p x. (op, Some (Redeemed x)) \<in> set log \<and> get_pepper (op_call op) = Ret p \<and>
        rr_token_id x = i \<and> h = hash_secret lib p (rr_credential x))"

definition record_issued :: "token_lib \<Rightarrow> token_log \<Rightarrow> string \<Rightarrow> token_record \<Rightarrow> bool" where
  "record_issued lib log i r \<longleftrightarrow>
     (case tr_state r of
        SUnused \<Rightarrow> minted_in lib log i (tr_secret_hash r)
      | SBound \<Rightarrow> (case tr_credential_hash r of None \<Rightarrow> False | Some h \<Rightarrow> redeemed_in lib log i h)
      | _ \<Rightarrow> True)"

definition issued :: "token_lib \<Rightarrow> token_log \<Rightarrow> token_record list \<Rightarrow> bool" where
  "issued lib log rs \<longleftrightarrow> (\<forall>i r. find_token i rs = Some r \<longrightarrow> record_issued lib log i r)"

lemma minted_in_mono: "minted_in lib log i h \<Longrightarrow> minted_in lib (log @ l) i h"
  by (auto simp: minted_in_def)

lemma redeemed_in_mono: "redeemed_in lib log i h \<Longrightarrow> redeemed_in lib (log @ l) i h"
  by (auto simp: redeemed_in_def)

lemma record_issued_mono: "record_issued lib log i r \<Longrightarrow> record_issued lib (log @ l) i r"
  by (cases "tr_state r"; cases "tr_credential_hash r")
     (simp_all add: record_issued_def minted_in_mono redeemed_in_mono)

lemma issued_mono: "issued lib log rs \<Longrightarrow> issued lib (log @ l) rs"
  by (simp add: issued_def record_issued_mono)

lemma record_issued_last_seen [simp]:
  "record_issued lib log i (r\<lparr>tr_last_seen := s\<rparr>) = record_issued lib log i r"
  by (cases "tr_state r") (simp_all add: record_issued_def)

lemma record_issued_deleted [simp]: "record_issued lib log i (delete_record r)"
  by (cases "tr_state r") (simp_all add: record_issued_def delete_record_def)

lemma issued_step:
  assumes "issued lib log rs" and "record_step lib rs op e rs'"
  shows "issued lib (log @ [(op, Some e)]) rs'"
  using assms(2)
proof cases
  case (step_mint c p r x label ttl)
  have "minted_in lib (log @ [(op, Some e)]) (mr_token_id x) (tr_secret_hash r)"
    using step_mint by (force simp: minted_in_def)
  then show ?thesis
    using step_mint issued_mono [OF assms(1), of "[(op, Some e)]"]
    by (auto simp: issued_def find_token_append record_issued_def split: option.splits if_splits)
next
  case (step_delete c j d)
  show ?thesis
    using step_delete issued_mono [OF assms(1), of "[(op, Some e)]"]
    by (auto simp: issued_def delete_body_Ret find_token_update split: if_splits)
next
  case (step_redeem c p j s m x)
  then obtain r where r: "find_token j rs = Some r" "rr_token_id x = j"
    "\<forall>k. find_token k rs' =
       (if k = j then Some (bind_record m (rr_client_id x) (hash_secret lib p (rr_credential x)) r)
        else find_token k rs)"
    using redeem_body_found by blast
  have "redeemed_in lib (log @ [(op, Some e)]) j (hash_secret lib p (rr_credential x))"
    using step_redeem r(2) by (force simp: redeemed_in_def)
  then have "record_issued lib (log @ [(op, Some e)]) j
      (bind_record m (rr_client_id x) (hash_secret lib p (rr_credential x)) r)"
    by (simp add: record_issued_def)
  then show ?thesis
    using r issued_mono [OF assms(1), of "[(op, Some e)]"] by (auto simp: issued_def)
next
  case (step_verify c p j cred v)
  then show ?thesis
    using issued_mono [OF assms(1), of "[(op, Some e)]"]
    by (auto simp: issued_def verify_body_Ret find_token_update split: if_splits)
qed

lemma issued_run:
  assumes "reads_back lib" and "no_write_faults ops" and "contents lib st = Some rs"
    and "issued lib log rs"
  shows "\<exists>rs'. contents lib (snd (token_run lib ops st)) = Some rs' \<and>
           issued lib (log @ fst (token_run lib ops st)) rs'"
  using assms(2-4)
proof (induction ops arbitrary: st rs log)
  case (Cons op ops)
  have w: "tc_write_err (op_call op) = None" "no_write_faults ops"
    using Cons.prems(1) by (simp_all add: no_write_faults_def)
  consider (kept) "token_exec lib op st = (None, st)"
    | (stepped) e rs' st' where "token_exec lib op st = (Some e, st')" "contents lib st' = Some rs'"
        "record_step lib rs op e rs'"
    using token_exec_outcome [OF assms(1) w(1) Cons.prems(2)] by blast
  then show ?case
  proof cases
    case kept
    with Cons.IH [OF w(2) Cons.prems(2) issued_mono [OF Cons.prems(3)], of "[(op, None)]"]
    show ?thesis by simp
  next
    case (stepped e rs' st')
    with Cons.IH [OF w(2) stepped(2) issued_step [OF Cons.prems(3) stepped(3)]] show ?thesis by simp
  qed
qed simp

lemma issued_verify:
  assumes "reads_back lib" and "contents lib st = Some rs" and "issued lib log rs"
    and "fst (verify_credential lib c i cred st) = Ret v"
  shows "\<exists>op p p' x. (op, Some (Redeemed x)) \<in> set log \<and> rr_token_id x = i \<and>
           get_pepper (op_call op) = Ret p' \<and> get_pepper c = Ret p \<and>
           tl_hmac lib p (as_bytes cred) = tl_hmac lib p' (as_bytes (rr_credential x))"
proof -
  obtain st' where "verify_credential lib c i cred st = (Ret v, st')" using assms(4) by (metis prod.collapse)
  from verify_Ret [OF assms(1) this] obtain p r h where "get_pepper c = Ret p"
      "find_token i rs = Some r" "tr_state r = SBound" "tr_credential_hash r = Some h"
      "verify_secret lib p cred h = Ret True"
    using assms(2) by (auto simp: verify_body_Ret)
  moreover from this have "redeemed_in lib log i h" 
    using assms(3) by (force simp: issued_def record_issued_def)
  then obtain op p' x where "(op, Some (Redeemed x)) \<in> set log" "rr_token_id x = i"
      "get_pepper (op_call op) = Ret p'" "h = hash_secret lib p' (rr_credential x)"
    by (auto simp: redeemed_in_def)
  ultimately show ?thesis by (intro exI [of _ op] exI [of _ p] exI [of _ p'] exI [of _ x]) simp
qed

lemma issued_redeem:
  assumes "reads_back lib" and "contents lib st = Some rs" and "issued lib log rs"
    and "fst (redeem lib c i s m st) = Ret y"
  shows "\<exists>op p p' x. (op, Some (Minted x)) \<in> set log \<and> mr_token_id x = i \<and>
           get_pepper (op_call op) = Ret p' \<and> get_pepper c = Ret p \<and>
           tl_hmac lib p (as_bytes s) = tl_hmac lib p' (as_bytes (mr_secret x))"
proof -
  obtain st' where "redeem lib c i s m st = (Ret y, st')" using assms(4) by (metis prod.collapse)
  from redeem_Ret [OF assms(1) this] obtain p rs' where "get_pepper c = Ret p"
      "redeem_body lib c p i s m rs = Ret (rs', y)"
    using assms(2) by auto
  moreover from redeem_body_found [OF this(2)] obtain r where "find_token i rs = Some r"
      "tr_state r = SUnused" "verify_secret lib p s (tr_secret_hash r) = Ret True" by blast
  moreover from this have "minted_in lib log i (tr_secret_hash r)"
    using assms(3) by (force simp: issued_def record_issued_def)
  then obtain op p' x where "(op, Some (Minted x)) \<in> set log" "mr_token_id x = i"
      "get_pepper (op_call op) = Ret p'" "tr_secret_hash r = hash_secret lib p' (mr_secret x)"
    by (auto simp: minted_in_def)
  ultimately show ?thesis by (intro exI [of _ op] exI [of _ p] exI [of _ p'] exI [of _ x]) simp
qed

lemma issued_history:
  assumes "reads_back lib" and "no_write_faults ops"
    and "token_run lib ops \<lparr>ts_file = None\<rparr> = (log, st)"
  shows "\<exists>rs. contents lib st = Some rs \<and> issued lib log rs"
proof -
  have "issued lib [] []" by (simp add: issued_def find_token_def)
  from issued_run [OF assms(1,2) _ this, of "\<lparr>ts_file = None\<rparr>"] assms(3) show ?thesis
    by (auto simp: contents_def)
qed

text \<open>
  C2: nothing is accepted that was not issued.  In any history that starts without a token file,
  a credential that verifies for a token has the HMAC of a credential that an earlier redeem of
  that very token returned, and a join secret that redeems has the HMAC of one an earlier mint of
  it returned.  (No write of the token file fails half-way in the history: such a write leaves
  arbitrary contents.)
\<close>

theorem token_authenticity:
  assumes "reads_back lib" and "no_write_faults ops"
    and "token_run lib ops \<lparr>ts_file = None\<rparr> = (log, st)"
  shows "(\<forall>c i cred v. fst (verify_credential lib c i cred st) = Ret v \<longrightarrow>
            (\<exists>op p p' x. (op, Some (Redeemed x)) \<in> set log \<and> rr_token_id x = i \<and>
               get_pepper (op_call op) = Ret p' \<and> get_pepper c = Ret p \<and>
               tl_hmac lib p (as_bytes cred) = tl_hmac lib p' (as_bytes (rr_credential x)))) \<and>
         (\<forall>c i s m y. fst (redeem lib c i s m st) = Ret y \<longrightarrow>
            (\<exists>op p p' x. (op, Some (Minted x)) \<in> set log \<and> mr_token_id x = i \<and>
               get_pepper (op_call op) = Ret p' \<and> get_pepper c = Ret p \<and>
               tl_hmac lib p (as_bytes s) = tl_hmac lib p' (as_bytes (mr_secret x))))"
  using issued_history [OF assms] issued_verify [OF assms(1)] issued_redeem [OF assms(1)] by metis

text \<open>A mint in an empty store, for the next witness.\<close>

lemma demo_minted:
  "\<exists>x st. token_run demo_token_lib [OpMint (demo_call 0) None 100] \<lparr>ts_file = None\<rparr> =
            ([(OpMint (demo_call 0) None 100, Some (Minted x))], st) \<and>
          (\<exists>y. fst (redeem demo_token_lib (demo_call 50) (mr_token_id x) (mr_secret x) ''box'' st) = Ret y)"
proof -
  have "contents demo_token_lib \<lparr>ts_file = None\<rparr> = Some []" by (simp add: contents_def)
  from mint_healthy [OF demo_prints demo_healthy this, of 0 100 100 "show_nat 100" None]
  obtain x st rs r where m: "mint demo_token_lib (demo_call 0) None 100 \<lparr>ts_file = None\<rparr> = (Ret x, st)"
      "contents demo_token_lib st = Some rs" "find_token (mr_token_id x) rs = Some r"
      "tr_state r = SUnused" "tr_expires r = show_nat 100"
      "tr_secret_hash r = hash_secret demo_token_lib (as_bytes ''pepper'') (mr_secret x)"
    by (auto simp: demo_token_lib_def demo_call_def find_token_def)
  have "display_state_of demo_token_lib (tc_now (demo_call 50)) r = DUnused"
    using m(4,5) by (simp add: display_state_of_def demo_token_lib_def demo_call_def)
  from redeem_healthy [OF demo_prints demo_healthy m(2,3) this m(6)]
  obtain y st' where "redeem demo_token_lib (demo_call 50) (mr_token_id x) (mr_secret x) ''box'' st = (Ret y, st')"
    by blast
  with m(1) show ?thesis by (simp add: token_run.simps(2))
qed

theorem token_authenticity_witness:
  "\<exists>x st. token_run demo_token_lib [OpMint (demo_call 0) None 100] \<lparr>ts_file = None\<rparr> =
            ([(OpMint (demo_call 0) None 100, Some (Minted x))], st) \<and>
          (\<exists>y. fst (redeem demo_token_lib (demo_call 50) (mr_token_id x) (mr_secret x) ''box'' st) = Ret y) \<and>
          (\<exists>p p' x'. Minted x' = Minted x \<and> get_pepper (demo_call 50) = Ret p \<and>
             tl_hmac demo_token_lib p (as_bytes (mr_secret x)) =
             tl_hmac demo_token_lib p' (as_bytes (mr_secret x')))"
proof -
  obtain x st y where run: "token_run demo_token_lib [OpMint (demo_call 0) None 100] \<lparr>ts_file = None\<rparr> =
            ([(OpMint (demo_call 0) None 100, Some (Minted x))], st)"
      and red: "fst (redeem demo_token_lib (demo_call 50) (mr_token_id x) (mr_secret x) ''box'' st) = Ret y"
    using demo_minted by blast
  have "no_write_faults [OpMint (demo_call 0) None 100]"
    by (simp add: no_write_faults_def demo_call_def)
  from token_authenticity [OF demo_reads_back this run] run red show ?thesis by fastforce
qed

text \<open>
  C20: every failing call fails closed.  Unless the final write to disk itself fails, a mint,
  delete, redeem or verification that does not return normally (an error, or a panic on a corrupt
  record) leaves the token file byte for byte as it was; and a successful verification changes
  nothing but the token's \<open>last_seen\<close>.
\<close>

theorem token_fail_closed:
  assumes "reads_back lib" and "tc_write_err (op_call op) = None" and "token_exec lib op st = (e, st')"
  shows "case e of
           None \<Rightarrow> st' = st
         | Some (Verified v) \<Rightarrow>
             (\<exists>rs seen. contents lib st = Some rs \<and>
                contents lib st' = Some (update_first (\<lambda>r. tr_token_id r = vc_token_id v)
                                           (\<lambda>r. r\<lparr>tr_last_seen := Some seen\<rparr>) rs))
         | Some _ \<Rightarrow> True"
proof (cases e)
  case None
  with token_exec_keeps [OF assms(2)] assms(3) show ?thesis by simp
next
  case (Some ev)
  with token_exec_simulates [OF assms(1)] assms(3)
  obtain rs rs' where "contents lib st = Some rs" "contents lib st' = Some rs'"
      "record_step lib rs op ev rs'" by blast
  moreover have "\<exists>seen. rs' = update_first (\<lambda>r. tr_token_id r = vc_token_id v)
      (\<lambda>r. r\<lparr>tr_last_seen := Some seen\<rparr>) rs" if "record_step lib rs op (Verified v) rs'" for v
    using that by (cases rule: record_step.cases) (auto simp: verify_body_Ret)
  ultimately show ?thesis using Some by (cases ev) auto
qed

theorem token_fail_closed_witness:
  "token_exec demo_token_lib (OpVerify (demo_call 5) ''tok_b'' ''c'') (demo_store SUnused) =
     (None, demo_store SUnused)"
proof -
  have "load demo_token_lib (demo_call 5) (demo_store SUnused) = Ret [demo_token SUnused]"
    by (simp add: load_Ret demo_contents) (simp add: demo_call_def)
  moreover have "verify_body demo_token_lib (demo_call 5) p ''tok_b'' ''c'' [demo_token SUnused] =
      Raise (NotFound ''tok_b'')" for p
    by (simp add: verify_body_def find_token_def demo_token_def)
  moreover have "get_pepper (demo_call 5) = Ret (as_bytes ''pepper'')" "tc_lock_err (demo_call 5) = None"
    by (simp_all add: get_pepper_def demo_call_def)
  ultimately have e: "token_exec demo_token_lib (OpVerify (demo_call 5) ''tok_b'' ''c'') (demo_store SUnused) =
      (None, snd (token_exec demo_token_lib (OpVerify (demo_call 5) ''tok_b'' ''c'') (demo_store SUnused)))"
    by (simp add: verify_credential_def verify_credential_with_pepper_def with_lock_def
          load_modify_save_def)
  have w: "tc_write_err (op_call (OpVerify (demo_call 5) ''tok_b'' ''c'')) = None"
    by (simp add: demo_call_def)
  from token_fail_closed [OF demo_reads_back w e] e show ?thesis by simp
qed

text \<open>
  What \<open>delete\<close> reports.  A bound token becomes \<open>revoked\<close> with its credential hash erased, any
  other becomes \<open>invalidated\<close>; so deleting an already revoked token relabels it \<open>invalidated\<close>.
\<close>

lemma token_delete_outcome:
  assumes "reads_back lib" and "delete lib c i st = (Ret d, st')"
  shows "\<exists>rs rs' r r'. contents lib st = Some rs \<and> find_token i rs = Some r \<and>
           contents lib st' = Some rs' \<and> find_token i rs' = Some r' \<and>
           (if tr_state r = SBound then d = DRevoked \<and> tr_state r' = SRevoked \<and> tr_credential_hash r' = None
            else d = DInvalidated \<and> tr_state r' = SInvalidated) \<and>
           (\<forall>c2 d2. fst (delete lib c2 i st') = Ret d2 \<longrightarrow> d2 = DInvalidated)"
proof -
  obtain rs rs' r where r: "contents lib st = Some rs" "contents lib st' = Some rs'"
      "find_token i rs = Some r" "find_token i rs' = Some (delete_record r)"
      "d = display_state_of lib (tc_now c) (delete_record r)"
    using delete_Ret [OF assms] by blast
  have "d2 = DInvalidated" if "fst (delete lib c2 i st') = Ret d2" for c2 d2
  proof -
    from that obtain st2 where "delete lib c2 i st' = (Ret d2, st2)" by (metis prod.collapse)
    from delete_Ret [OF assms(1) this] r have "d2 = display_state_of lib (tc_now c2) (delete_record (delete_record r))"
      by auto
    then show ?thesis by (cases "tr_state r") (simp_all add: delete_record_def display_state_of_def)
  qed
  moreover have "if tr_state r = SBound
      then d = DRevoked \<and> tr_state (delete_record r) = SRevoked \<and> tr_credential_hash (delete_record r) = None
      else d = DInvalidated \<and> tr_state (delete_record r) = SInvalidated"
    using r(5) by (cases "tr_state r") (simp_all add: delete_record_def display_state_of_def)
  ultimately show ?thesis using r by blast
qed

lemma token_delete_outcome_at_work:
  "\<exists>st' rs' r'. delete demo_token_lib (demo_call 5) ''tok_a'' (demo_store SBound) = (Ret DRevoked, st') \<and>
     contents demo_token_lib st' = Some rs' \<and> find_token ''tok_a'' rs' = Some r' \<and> tr_state r' = SRevoked"
proof -
  have "display_state_of demo_token_lib 5 (delete_record (demo_token SBound)) = DRevoked"
    by (simp add: display_state_of_def delete_record_def demo_token_def)
  with delete_healthy [OF demo_prints demo_healthy demo_contents demo_find, of 5 SBound]
  obtain st' where d: "delete demo_token_lib (demo_call 5) ''tok_a'' (demo_store SBound) = (Ret DRevoked, st')"
    by (auto simp: demo_call_def)
  from d token_delete_outcome [OF demo_reads_back d] show ?thesis
    by (force split: if_splits)
qed

text \<open>
  \<open>--ttl\<close> values.  A decimal number followed by \<open>s\<close>, \<open>m\<close>, \<open>h\<close> or \<open>d\<close> parses to that many
  seconds, minutes, hours or days, as long as the seconds fit 63 bits.
\<close>

lemma parse_ttl_units:
  assumes "(u, k) \<in> {(CHR ''s'', 1), (CHR ''m'', 60), (CHR ''h'', 3600), (CHR ''d'', 86400)}"
    and "int n * k < 2 ^ 63"
  shows "parse_ttl (show_nat n @ [u]) = Ret (int n * k * 1000000000)"
proof -
  have u: "plain_char u" using assms(1) by (auto simp: plain_char_def byte_of_def)
  then have tr: "trim (show_nat n @ [u]) = show_nat n @ [u]"
    by (intro trim_plain) (simp add: show_nat_plain)
  have ne: "show_nat n \<noteq> []" using show_nat_digits by blast
  have k: "1 \<le> k" using assms(1) by auto
  have "int n \<le> int n * k" using k by (simp add: mult_le_cancel_left1)
  then have "int n < 2 ^ 63" using assms(2) by linarith
  then have "n < 2 ^ 63" by (metis of_nat_less_numeral_power_cancel_iff of_nat_numeral)
  then have p: "parse_i64 (show_nat n) = Some (int n)" by (rule parse_i64_show_nat)
  have "\<not> is_cont_byte u" using u by (simp add: plain_char_def is_cont_byte_def)
  then have b: "is_char_boundary (show_nat n @ [u]) (length (show_nat n))"
    by (simp add: is_char_boundary_def)
  show ?thesis
    using assms ne by (auto simp: parse_ttl_def tr b p Let_def duration_of_def SECOND_def Suc_le_eq)
qed

theorem parse_ttl_units_witness: "parse_ttl (show_nat 24 @ ''h'') = Ret 86400000000000"
  using parse_ttl_units [of "CHR ''h''" 3600 24] by simp

text \<open>
  \<open>--ttl\<close> can crash the command.  The value is split one byte before its end, which panics when
  that is inside a character (\<open>30\<mu>\<close>), and the unit constructors panic when the seconds overflow.
\<close>

lemma parse_ttl_panics:
  "parse_ttl [CHR ''3'', CHR ''0'', CHR 0xC2, CHR 0xB5] = Panic \<and>
   parse_ttl ''999999999999999999d'' = Panic"
proof
  show "parse_ttl [CHR ''3'', CHR ''0'', CHR 0xC2, CHR 0xB5] = Panic"
    by (simp add: parse_ttl_def trim_def is_cont_byte_def byte_of_def is_whitespace_def
          is_char_boundary_def)
  have "trim ''999999999999999999d'' = ''999999999999999999d''"
    by (rule trim_plain) (simp add: plain_char_def byte_of_def)
  then show "parse_ttl ''999999999999999999d'' = Panic"
    by (simp add: parse_ttl_def is_char_boundary_def is_cont_byte_def byte_of_def parse_i64_def
          parse_digits_def is_digit_def digits_value_def duration_of_def)
qed

end
