(* ===== verification/TokenLock.thy ===== *)
theory TokenLock
  imports TokenHistory
begin

text \<open>
  Several processes on one state directory.  Each runs one mutating operation, cut into the
  steps another process can be scheduled between: taking the lock file, reading \<open>tokens.json\<close>,
  writing it, releasing the lock.  The advisory lock (\<open>flock\<close>/\<open>LockFileEx\<close>) is taken only when
  nobody holds it; that is all that is assumed of it.
\<close>

datatype lock_phase =
    Waiting
  | Holding
  | Loaded "(token_error, token_record list) exec"
  | Written
  | Finished

record lock_sys =
  ls_holder :: "nat option"
  ls_store :: token_store
  ls_phase :: "nat \<Rightarrow> lock_phase"
  ls_commits :: "nat list"

definition lock_init :: "token_store \<Rightarrow> lock_sys" where
  "lock_init st = \<lparr>ls_holder = None, ls_store = st, ls_phase = (\<lambda>_. Waiting), ls_commits = []\<rparr>"

text \<open>What the write step of a process leaves in the file, given what it loaded.\<close>

definition write_back ::
  "token_lib \<Rightarrow> token_call \<Rightarrow> (token_record list \<Rightarrow> (token_error, token_record list \<times> 'a) exec)
   \<Rightarrow> (token_error, token_record list) exec \<Rightarrow> token_store \<Rightarrow> token_store" where
  "write_back lib c f loaded st =
     (case exec_bind loaded f of Ret (rs, x) \<Rightarrow> snd (save lib c rs st) | _ \<Rightarrow> st)"

inductive lock_step ::
  "token_lib \<Rightarrow> (nat \<Rightarrow> token_call)
   \<Rightarrow> (nat \<Rightarrow> token_record list \<Rightarrow> (token_error, token_record list \<times> 'a) exec)
   \<Rightarrow> lock_sys \<Rightarrow> lock_sys \<Rightarrow> bool"
  for lib :: token_lib and calls :: "nat \<Rightarrow> token_call"
    and bodies :: "nat \<Rightarrow> token_record list \<Rightarrow> (token_error, token_record list \<times> 'a) exec" where
  lock_refused:
    "ls_phase s p = Waiting \<Longrightarrow> tc_lock_err (calls p) = Some e \<Longrightarrow>
     lock_step lib calls bodies s (s\<lparr>ls_phase := (ls_phase s)(p := Finished)\<rparr>)"
| lock_taken:
    "ls_phase s p = Waiting \<Longrightarrow> tc_lock_err (calls p) = None \<Longrightarrow> ls_holder s = None \<Longrightarrow>
     lock_step lib calls bodies s
       (s\<lparr>ls_holder := Some p, ls_phase := (ls_phase s)(p := Holding)\<rparr>)"
| file_read:
    "ls_phase s p = Holding \<Longrightarrow>
     lock_step lib calls bodies s
       (s\<lparr>ls_phase := (ls_phase s)(p := Loaded (load lib (calls p) (ls_store s)))\<rparr>)"
| file_written:
    "ls_phase s p = Loaded l \<Longrightarrow>
     lock_step lib calls bodies s
       (s\<lparr>ls_store := write_back lib (calls p) (bodies p) l (ls_store s),
          ls_phase := (ls_phase s)(p := Written), ls_commits := ls_commits s @ [p]\<rparr>)"
| lock_released:
    "ls_phase s p = Written \<Longrightarrow>
     lock_step lib calls bodies s
       (s\<lparr>ls_holder := None, ls_phase := (ls_phase s)(p := Finished)\<rparr>)"

inductive lock_reach ::
  "token_lib \<Rightarrow> (nat \<Rightarrow> token_call)
   \<Rightarrow> (nat \<Rightarrow> token_record list \<Rightarrow> (token_error, token_record list \<times> 'a) exec)
   \<Rightarrow> token_store \<Rightarrow> lock_sys \<Rightarrow> bool"
  for lib :: token_lib and calls :: "nat \<Rightarrow> token_call"
    and bodies :: "nat \<Rightarrow> token_record list \<Rightarrow> (token_error, token_record list \<times> 'a) exec"
    and st0 :: token_store where
  reach_init: "lock_reach lib calls bodies st0 (lock_init st0)"
| reach_step:
    "lock_reach lib calls bodies st0 s \<Longrightarrow> lock_step lib calls bodies s s' \<Longrightarrow>
     lock_reach lib calls bodies st0 s'"

definition in_section :: "lock_phase \<Rightarrow> bool" where
  "in_section ph = (case ph of Holding \<Rightarrow> True | Loaded _ \<Rightarrow> True | Written \<Rightarrow> True | _ \<Rightarrow> False)"

text \<open>Running the operations one after another, each in one piece.\<close>

definition sequential ::
  "token_lib \<Rightarrow> (nat \<Rightarrow> token_call)
   \<Rightarrow> (nat \<Rightarrow> token_record list \<Rightarrow> (token_error, token_record list \<times> 'a) exec)
   \<Rightarrow> nat list \<Rightarrow> token_store \<Rightarrow> token_store" where
  "sequential lib calls bodies ps st =
     foldl (\<lambda>st p. snd (with_lock (calls p) (load_modify_save lib (calls p) (bodies p)) st)) st ps"

definition lock_inv ::
  "token_lib \<Rightarrow> (nat \<Rightarrow> token_call)
   \<Rightarrow> (nat \<Rightarrow> token_record list \<Rightarrow> (token_error, token_record list \<times> 'a) exec)
   \<Rightarrow> token_store \<Rightarrow> lock_sys \<Rightarrow> bool" where
  "lock_inv lib calls bodies st0 s \<longleftrightarrow>
     (\<forall>p. in_section (ls_phase s p) \<longleftrightarrow> ls_holder s = Some p) \<and>
     (\<forall>p. in_section (ls_phase s p) \<longrightarrow> tc_lock_err (calls p) = None) \<and>
     (\<forall>p l. ls_phase s p = Loaded l \<longrightarrow> l = load lib (calls p) (ls_store s)) \<and>
     distinct (ls_commits s) \<and>
     (\<forall>p \<in> set (ls_commits s). ls_phase s p = Written \<or> ls_phase s p = Finished) \<and>
     (\<forall>p. ls_phase s p = Written \<or> ls_phase s p = Finished \<and> tc_lock_err (calls p) = None \<longrightarrow>
        p \<in> set (ls_commits s)) \<and>
     ls_store s = sequential lib calls bodies (ls_commits s) st0"

lemma write_back_cycle:
  "tc_lock_err c = None \<Longrightarrow>
   write_back lib c f (load lib c st) st = snd (with_lock c (load_modify_save lib c f) st)"
  by (simp add: write_back_def with_lock_def load_modify_save_def split: exec.splits prod.splits)

lemma sequential_snoc [simp]:
  "sequential lib calls bodies (ps @ [p]) st =
     snd (with_lock (calls p) (load_modify_save lib (calls p) (bodies p))
            (sequential lib calls bodies ps st))"
  by (simp add: sequential_def)

lemma in_section_simps [simp]:
  "\<not> in_section Waiting" "in_section Holding" "in_section (Loaded l)" "in_section Written"
  "\<not> in_section Finished"
  by (simp_all add: in_section_def)

lemma lock_inv_init: "lock_inv lib calls bodies st0 (lock_init st0)"
  by (simp add: lock_inv_def lock_init_def sequential_def)

lemma lock_inv_step:
  assumes "lock_step lib calls bodies s s'" and "lock_inv lib calls bodies st0 s"
  shows "lock_inv lib calls bodies st0 s'"
  using assms
proof (cases rule: lock_step.cases)
  case (file_written p l)
  have h: "ls_holder s = Some p" and ok: "tc_lock_err (calls p) = None"
    and l: "l = load lib (calls p) (ls_store s)" and new: "p \<notin> set (ls_commits s)"
    using assms(2) file_written(2) unfolding lock_inv_def
    by (metis in_section_simps(3), metis in_section_simps(3), blast, force)
  have other: "ls_phase s q \<noteq> Loaded l'" if "q \<noteq> p" for q l'
    using assms(2) h that unfolding lock_inv_def by (metis in_section_simps(3) option.inject)
  show ?thesis
    using assms(2) file_written(1,2) h ok l new other
    unfolding lock_inv_def by (auto simp: write_back_cycle)
qed (auto simp: lock_inv_def)

lemma lock_reach_inv: "lock_reach lib calls bodies st0 s \<Longrightarrow> lock_inv lib calls bodies st0 s"
  by (induction rule: lock_reach.induct) (auto intro: lock_inv_init lock_inv_step)

text \<open>A process that finds the lock free can run to its end.\<close>

lemma lock_solo_run:
  assumes "lock_reach lib calls bodies st0 s" and "ls_phase s p = Waiting" and "ls_holder s = None"
    and "tc_lock_err (calls p) = None"
  shows "\<exists>s'. lock_reach lib calls bodies st0 s' \<and> ls_commits s' = ls_commits s @ [p] \<and>
           ls_holder s' = None \<and> ls_phase s' = (ls_phase s)(p := Finished)"
proof -
  define s1 where "s1 = s\<lparr>ls_holder := Some p, ls_phase := (ls_phase s)(p := Holding)\<rparr>"
  define s2 where "s2 = s1\<lparr>ls_phase := (ls_phase s1)(p := Loaded (load lib (calls p) (ls_store s1)))\<rparr>"
  define s3 where "s3 = s2\<lparr>ls_store := write_back lib (calls p) (bodies p) (load lib (calls p) (ls_store s1)) (ls_store s2),
     ls_phase := (ls_phase s2)(p := Written), ls_commits := ls_commits s2 @ [p]\<rparr>"
  define s4 where "s4 = s3\<lparr>ls_holder := None, ls_phase := (ls_phase s3)(p := Finished)\<rparr>"
  have "lock_reach lib calls bodies st0 s1"
    using assms unfolding s1_def by (intro reach_step [OF assms(1)] lock_taken)
  then have "lock_reach lib calls bodies st0 s2"
    unfolding s2_def by (rule reach_step) (rule file_read, simp add: s1_def)
  then have "lock_reach lib calls bodies st0 s3"
    unfolding s3_def by (rule reach_step) (rule file_written, simp add: s2_def)
  then have "lock_reach lib calls bodies st0 s4"
    unfolding s4_def by (rule reach_step) (rule lock_released, simp add: s3_def)
  then show ?thesis
    by (intro exI [of _ s4]) (simp add: s4_def s3_def s2_def s1_def)
qed

section \<open>Properties\<close>

text \<open>
  C18: no lost update.  However the steps of concurrent mints, deletes, redeems and verifications
  interleave, the token file is at every moment what running the operations that have written so
  far one after another, in the order of their writes, would have produced; each operation appears
  in that order at most once, and every operation that got the lock and finished appears.
\<close>

theorem token_lock_serializes:
  assumes "lock_reach lib calls bodies st0 s"
  shows "ls_store s = sequential lib calls bodies (ls_commits s) st0 \<and> distinct (ls_commits s) \<and>
         (\<forall>p. ls_phase s p = Finished \<and> tc_lock_err (calls p) = None \<longrightarrow> p \<in> set (ls_commits s)) \<and>
         (\<forall>p q. in_section (ls_phase s p) \<and> in_section (ls_phase s q) \<longrightarrow> p = q)"
proof -
  have "lock_inv lib calls bodies st0 s" using lock_reach_inv [OF assms] .
  then show ?thesis unfolding lock_inv_def by (metis option.inject)
qed

definition demo_calls :: "nat \<Rightarrow> token_call" where
  "demo_calls p = demo_call (int p)"

definition demo_bodies ::
  "nat \<Rightarrow> token_record list \<Rightarrow> (token_error, token_record list \<times> display_state) exec" where
  "demo_bodies p = delete_body demo_token_lib (demo_calls p) ''tok_a''"

theorem token_lock_serializes_witness:
  "\<exists>s. lock_reach demo_token_lib demo_calls demo_bodies (demo_store SBound) s \<and>
       ls_commits s = [0, 1] \<and>
       ls_store s = sequential demo_token_lib demo_calls demo_bodies [0, 1] (demo_store SBound)"
proof -
  let ?reach = "lock_reach demo_token_lib demo_calls demo_bodies (demo_store SBound)"
  have ok: "tc_lock_err (demo_calls p) = None" for p by (simp add: demo_calls_def demo_call_def)
  obtain s1 where s1: "?reach s1" "ls_commits s1 = [0]" "ls_holder s1 = None" "ls_phase s1 1 = Waiting"
    using lock_solo_run [OF reach_init, of "demo_store SBound" 0 demo_calls demo_token_lib demo_bodies] ok
    by (auto simp: lock_init_def)
  obtain s2 where s2: "?reach s2" "ls_commits s2 = [0, 1]"
    using lock_solo_run [OF s1(1,4,3) ok] s1(2) by auto
  with token_lock_serializes [OF s2(1)] show ?thesis by auto
qed

end
