(* ===== verification/Json.thy ===== *)
theory Json
  imports Prelude "HOL-Library.Monad_Syntax"
begin

text \<open>
  JSON values as \<open>serde_json::Value\<close> holds them, and the shapes that \<open>serde\<close>'s derived
  \<open>Serialize\<close> and \<open>Deserialize\<close> give the program's types.

  \<^item> \<open>Number\<close> is one of three: a \<open>u64\<close>, a negative \<open>i64\<close>, or the bits of an \<open>f64\<close>.
  \<^item> An object the program prints is the list of its members in printing order; an object the
    library has read is a \<open>BTreeMap\<close>: strictly sorted by key, the last of two equal keys kept
    (\<open>canon\<close>).
  \<^item> The text level, \<open>serde_json::from_str\<close> and \<open>to_string\<close>, and the wording of the library's
    errors are not part of this repository: they are the fields of the record \<open>json_lib\<close>,
    an argument of everything that uses them.
\<close>

datatype json =
    JNull
  | JBool bool
  | JPos u64
  | JNeg int
  | JFloat u64
  | JString string
  | JArray "json list"
  | JObject "(string \<times> json) list"

record json_lib =
  jl_from_str :: "string \<Rightarrow> string + json"
  jl_to_string :: "json \<Rightarrow> string"
  jl_value_error :: "string \<Rightarrow> json \<Rightarrow> string"

section \<open>Objects\<close>

fun obj_insert :: "string \<Rightarrow> json \<Rightarrow> (string \<times> json) list \<Rightarrow> (string \<times> json) list" where
  "obj_insert k v [] = [(k, v)]"
| "obj_insert k v ((k', v') # m) =
     (if k < k' then (k, v) # (k', v') # m
      else if k = k' then (k, v) # m
      else (k', v') # obj_insert k v m)"

definition obj_of :: "(string \<times> json) list \<Rightarrow> (string \<times> json) list" where
  "obj_of kvs = foldl (\<lambda>m (k, v). obj_insert k v m) [] kvs"

fun canon :: "json \<Rightarrow> json" where
  "canon (JArray js) = JArray (map canon js)"
| "canon (JObject kvs) = JObject (obj_of (map (\<lambda>(k, v). (k, canon v)) kvs))"
| "canon j = j"

fun json_get :: "json \<Rightarrow> string \<Rightarrow> json option" where
  "json_get (JObject kvs) k = map_of kvs k"
| "json_get _ k = None"

fun as_str :: "json \<Rightarrow> string option" where
  "as_str (JString s) = Some s"
| "as_str _ = None"

fun as_u64 :: "json \<Rightarrow> u64 option" where
  "as_u64 (JPos n) = Some n"
| "as_u64 _ = None"

fun as_bool :: "json \<Rightarrow> bool option" where
  "as_bool (JBool b) = Some b"
| "as_bool _ = None"

fun as_array :: "json \<Rightarrow> json list option" where
  "as_array (JArray js) = Some js"
| "as_array _ = None"

section \<open>Derived serialization\<close>

text \<open>Unsigned and signed machine integers as JSON numbers.\<close>

definition u32_json :: "u32 \<Rightarrow> json" where
  "u32_json n = JPos (ucast n)"

definition i64_json :: "int \<Rightarrow> json" where
  "i64_json i = (if i < 0 then JNeg i else JPos (word_of_int i))"

text \<open>
  A derived struct prints its fields in order; a field with \<open>skip_serializing_if\<close> is left out
  when the value is \<open>None\<close> (or the list is empty).
\<close>

definition struct_json :: "(string \<times> json option) list \<Rightarrow> json" where
  "struct_json ms = JObject (List.map_filter (\<lambda>(k, j). map_option (Pair k) j) ms)"

definition skip_empty :: "('a \<Rightarrow> json) \<Rightarrow> 'a list \<Rightarrow> json option" where
  "skip_empty f xs = (if xs = [] then None else Some (JArray (map f xs)))"

section \<open>Derived deserialization\<close>

fun u32_from :: "json \<Rightarrow> u32 option" where
  "u32_from (JPos n) = (if unat n < 2 ^ 32 then Some (ucast n) else None)"
| "u32_from _ = None"

fun i64_from :: "json \<Rightarrow> int option" where
  "i64_from (JPos n) = (if unat n < 2 ^ 63 then Some (uint n) else None)"
| "i64_from (JNeg i) = Some i"
| "i64_from _ = None"

definition in_i64 :: "int \<Rightarrow> bool" where
  "in_i64 i \<longleftrightarrow> - (2 ^ 63) \<le> i \<and> i < 2 ^ 63"

fun list_from :: "(json \<Rightarrow> 'a option) \<Rightarrow> json \<Rightarrow> 'a list option" where
  "list_from f (JArray js) = those (map f js)"
| "list_from f _ = None"

definition option_from :: "(json \<Rightarrow> 'a option) \<Rightarrow> json \<Rightarrow> 'a option option" where
  "option_from f j = (if j = JNull then Some None else map_option Some (f j))"

text \<open>
  A derived struct reads an object (unknown members ignored) or an array of at most as many
  elements as it has fields, taken in field order.
\<close>

fun struct_members :: "string list \<Rightarrow> json \<Rightarrow> (string \<times> json) list option" where
  "struct_members names (JObject kvs) = Some kvs"
| "struct_members names (JArray js) =
     (if length js \<le> length names then Some (zip names js) else None)"
| "struct_members names _ = None"

definition required :: "string \<Rightarrow> (json \<Rightarrow> 'a option) \<Rightarrow> (string \<times> json) list \<Rightarrow> 'a option" where
  "required k f kvs = Option.bind (map_of kvs k) f"

definition defaulted ::
  "'a \<Rightarrow> string \<Rightarrow> (json \<Rightarrow> 'a option) \<Rightarrow> (string \<times> json) list \<Rightarrow> 'a option" where
  "defaulted d k f kvs = (case map_of kvs k of None \<Rightarrow> Some d | Some j \<Rightarrow> f j)"

definition optional ::
  "string \<Rightarrow> (json \<Rightarrow> 'a option) \<Rightarrow> (string \<times> json) list \<Rightarrow> 'a option option" where
  "optional k f = defaulted None k (option_from f)"

section \<open>Lemmas\<close>

lemma map_of_obj_insert [simp]: "map_of (obj_insert k v m) = (map_of m)(k \<mapsto> v)"
  by (induction k v m rule: obj_insert.induct) (auto simp: fun_eq_iff)

lemma map_of_foldl_insert:
  "map_of (foldl (\<lambda>m (k, v). obj_insert k v m) m kvs) = map_of m ++ map_of (rev kvs)"
  by (induction kvs arbitrary: m) (auto simp: map_add_assoc fun_eq_iff map_add_def split: option.splits)

lemma map_of_obj_of [simp]: "map_of (obj_of kvs) = map_of (rev kvs)"
  by (simp add: obj_of_def map_of_foldl_insert)

lemma fst_obj_insert: "fst ` set (obj_insert k v m) = insert k (fst ` set m)"
  by (induction k v m rule: obj_insert.induct) auto

lemma sorted_obj_insert:
  "sorted_wrt (<) (map fst m) \<Longrightarrow> sorted_wrt (<) (map fst (obj_insert k v m))"
proof (induction k v m rule: obj_insert.induct)
  case (2 k v k' v' m)
  have "k' < x" if "x \<in> fst ` set (obj_insert k v m)" "\<not> k < k'" "k \<noteq> k'" for x
    using that 2 by (auto simp: fst_obj_insert)
  with 2 show ?case by (fastforce dest: less_trans)
qed simp

lemma sorted_obj_of: "sorted_wrt (<) (map fst (obj_of kvs))"
proof -
  have "sorted_wrt (<) (map fst m) \<Longrightarrow>
        sorted_wrt (<) (map fst (foldl (\<lambda>m (k, v). obj_insert k v m) m kvs))" for m
    by (induction kvs arbitrary: m) (auto simp: sorted_obj_insert)
  then show ?thesis by (simp add: obj_of_def)
qed

lemma filter_obj_insert:
  assumes "sorted_wrt (<) (map fst m)"
  shows "filter (\<lambda>p. fst p \<noteq> x) (obj_insert k v m) =
         (if k = x then filter (\<lambda>p. fst p \<noteq> x) m
          else obj_insert k v (filter (\<lambda>p. fst p \<noteq> x) m))"
  using assms
proof (induction k v m rule: obj_insert.induct)
  case (2 k v k' v' m)
  have gt: "\<forall>p \<in> set m. k' < fst p" using 2 by auto
  have "obj_insert k v (filter (\<lambda>p. fst p \<noteq> x) m) = (k, v) # filter (\<lambda>p. fst p \<noteq> x) m"
    if "k < k'"
  proof (cases "filter (\<lambda>p. fst p \<noteq> x) m")
    case (Cons p ps)
    then have "p \<in> set m" by (metis filter_is_subset list.set_intros(1) subsetD)
    with gt that have "k < fst p" by (auto intro: less_trans)
    with Cons show ?thesis by (cases p) simp
  qed simp
  moreover have "obj_insert k v (filter (\<lambda>p. fst p \<noteq> x) m) = (k, v) # filter (\<lambda>p. fst p \<noteq> x) m"
    if "k = k'"
  proof (cases "filter (\<lambda>p. fst p \<noteq> x) m")
    case (Cons p ps)
    then have "p \<in> set m" by (metis filter_is_subset list.set_intros(1) subsetD)
    with gt that have "k < fst p" by auto
    with Cons show ?thesis by (cases p) simp
  qed simp
  ultimately show ?case using 2 by auto
qed simp

text \<open>Removing the first member's key from an object that mentions it nowhere else.\<close>

lemma filter_obj_of_Cons:
  assumes "x \<notin> fst ` set kvs"
  shows "filter (\<lambda>p. fst p \<noteq> x) (obj_of ((x, v) # kvs)) = obj_of kvs"
proof -
  have "sorted_wrt (<) (map fst m) \<Longrightarrow>
        filter (\<lambda>p. fst p \<noteq> x) (foldl (\<lambda>m (k, v). obj_insert k v m) m kvs) =
        foldl (\<lambda>m (k, v). obj_insert k v m) (filter (\<lambda>p. fst p \<noteq> x) m) kvs" for m
    using assms
    by (induction kvs arbitrary: m) (auto simp: filter_obj_insert sorted_obj_insert)
  then show ?thesis by (simp add: obj_of_def)
qed

lemma map_of_canon_members:
  "map_of (obj_of (map (\<lambda>(k, v). (k, canon v)) kvs)) k = map_option canon (map_of (rev kvs) k)"
  by (simp add: rev_map map_of_map)

text \<open>Objects the library has read.\<close>

lemma map_of_rev_distinct: "distinct (map fst kvs) \<Longrightarrow> map_of (rev kvs) = map_of kvs"
proof -
  assume d: "distinct (map fst kvs)"
  then have "distinct (map fst (rev kvs))" by (simp flip: rev_map)
  with d show ?thesis by (auto intro!: map_of_eqI map_of_is_SomeI)
qed

lemma obj_of_sorted: "sorted_wrt (<) (map fst kvs) \<Longrightarrow> obj_of kvs = kvs"
proof (induction kvs rule: rev_induct)
  case (snoc p kvs)
  obtain k v where p: "p = (k, v)" by (cases p)
  have "sorted_wrt (<) (map fst (m @ [p])) \<Longrightarrow> obj_insert k v m = m @ [(k, v)]" for m
    using p by (induction k v m rule: obj_insert.induct) (auto simp: sorted_wrt_append)
  with snoc p show ?case by (simp add: obj_of_def sorted_wrt_append)
qed (simp add: obj_of_def)

lemma canon_object_sorted: "canon (JObject kvs) = JObject kvs \<Longrightarrow> sorted_wrt (<) (map fst kvs)"
  using sorted_obj_of [of "map (\<lambda>(k, v). (k, canon v)) kvs"] by simp

lemma sorted_keys_distinct: "sorted_wrt (<) (ks :: string list) \<Longrightarrow> distinct ks"
  by (simp add: strict_sorted_iff)

lemma canon_object_member:
  assumes "canon (JObject kvs) = JObject kvs" and "map_of kvs k = Some v"
  shows "canon v = v"
proof -
  have "distinct (map fst kvs)"
    using canon_object_sorted [OF assms(1)] by (rule sorted_keys_distinct)
  then have "map_of (rev kvs) = map_of kvs" by (rule map_of_rev_distinct)
  moreover have "map_of kvs k = map_option canon (map_of (rev kvs) k)"
    using assms(1) map_of_canon_members [of kvs k] by simp
  ultimately show ?thesis using assms(2) by simp
qed

lemma canon_object_filter:
  assumes "canon (JObject kvs) = JObject kvs"
  shows "canon (JObject (filter P kvs)) = JObject (filter P kvs)"
proof -
  have srt: "sorted_wrt (<) (map fst kvs)" using canon_object_sorted [OF assms] .
  then have "canon v = v" if "(k, v) \<in> set kvs" for k v
    using canon_object_member [OF assms] that by (simp add: sorted_keys_distinct)
  then have "map (\<lambda>(k, v). (k, canon v)) (filter P kvs) = filter P kvs"
    by (intro map_idI) auto
  moreover have "sorted_wrt (<) (map fst (filter P kvs))"
    using srt by (induction kvs) auto
  ultimately show ?thesis by (simp add: obj_of_sorted)
qed

text \<open>The numbers of a value the library has read fit their machine types.\<close>

fun json_ints :: "json \<Rightarrow> bool" where
  "json_ints (JNeg i) \<longleftrightarrow> - (2 ^ 63) \<le> i \<and> i < 0"
| "json_ints (JArray js) \<longleftrightarrow> (\<forall>j \<in> set js. json_ints j)"
| "json_ints (JObject kvs) \<longleftrightarrow> (\<forall>p \<in> set kvs. json_ints (snd p))"
| "json_ints _ \<longleftrightarrow> True"

definition json_read :: "json \<Rightarrow> bool" where
  "json_read j \<longleftrightarrow> canon j = j \<and> json_ints j"

lemma json_read_member: "json_read (JObject kvs) \<Longrightarrow> map_of kvs k = Some v \<Longrightarrow> json_read v"
  unfolding json_read_def using canon_object_member [of kvs k v] map_of_SomeD [of kvs k v] by force

lemma json_read_element:
  assumes "json_read (JArray js)" and "v \<in> set js"
  shows "json_read v"
proof -
  have "map canon js = js" using assms by (simp add: json_read_def)
  then have "canon v = v" using assms(2) by (metis map_eq_conv map_idI map_ident)
  then show ?thesis using assms by (simp add: json_read_def)
qed

lemma json_read_struct_member:
  "json_read j \<Longrightarrow> struct_members names j = Some kvs \<Longrightarrow> map_of kvs k = Some v \<Longrightarrow> json_read v"
proof (cases j)
  case (JArray js)
  assume "json_read j" "struct_members names j = Some kvs" "map_of kvs k = Some v"
  with JArray show ?thesis
    by (auto split: if_splits dest!: map_of_SomeD set_zip_rightD intro: json_read_element)
qed (auto intro: json_read_member)

lemma i64_from_read:
  assumes "json_read j" and "i64_from j = Some i"
  shows "in_i64 i"
proof (cases j)
  case (JPos n)
  with assms(2) have "unat n < 2 ^ 63" "i = uint n"
    by (simp_all split: if_splits)
  then have "uint n < int (2 ^ 63)" by (simp only: unat_eq_nat_uint nat_less_iff uint_ge_0)
  then have "uint n < 2 ^ 63" by (simp only: of_nat_power of_nat_numeral)
  moreover have "- (2 ^ 63) \<le> uint n" by (rule order_trans [of _ 0]) simp_all
  ultimately show ?thesis using \<open>i = uint n\<close> by (simp add: in_i64_def)
qed (use assms in \<open>simp_all add: json_read_def in_i64_def\<close>)

text \<open>The members of a printed struct after the library has read them.\<close>

definition canon_members :: "(string \<times> json option) list \<Rightarrow> (string \<times> json) list" where
  "canon_members ms =
     obj_of (map (\<lambda>(k, v). (k, canon v)) (List.map_filter (\<lambda>(k, j). map_option (Pair k) j) ms))"

lemma canon_struct_json: "canon (struct_json ms) = JObject (canon_members ms)"
  by (simp add: struct_json_def canon_members_def)

lemma keys_map_filter:
  "fst ` set (List.map_filter (\<lambda>(k, j). map_option (Pair k) j) ms) \<subseteq> fst ` set ms"
  by (auto simp: map_filter_def) force

lemma map_of_map_filter:
  "distinct (map fst ms) \<Longrightarrow>
   map_of (List.map_filter (\<lambda>(k, j). map_option (Pair k) j) ms) k = Option.bind (map_of ms k) id \<and>
   distinct (map fst (List.map_filter (\<lambda>(k, j). map_option (Pair k) j) ms))"
proof (induction ms)
  case (Cons p ms)
  obtain a j where p: "p = (a, j)" by (cases p)
  have "a \<notin> fst ` set (List.map_filter (\<lambda>(k, j). map_option (Pair k) j) ms)"
    using Cons.prems p keys_map_filter [of ms] by auto
  moreover have "map_of ms a = None" using Cons.prems p by (simp add: map_of_eq_None_iff)
  ultimately show ?case using Cons p
    by (cases j) auto
qed simp

lemma map_of_canon_members_struct:
  assumes "distinct (map fst ms)"
  shows "map_of (canon_members ms) k = map_option canon (Option.bind (map_of ms k) id)"
proof -
  let ?kvs = "List.map_filter (\<lambda>(k, j). map_option (Pair k) j) ms"
  have "distinct (map fst ?kvs)" using map_of_map_filter [OF assms] by blast
  then have "map_of (rev ?kvs) = map_of ?kvs" by (rule map_of_rev_distinct)
  then show ?thesis
    using map_of_map_filter [OF assms] unfolding canon_members_def map_of_canon_members by simp
qed

named_theorems codec_simps \<open>reading back what a codec printed\<close>

section \<open>The codec contract\<close>

text \<open>
  What the rest of the program relies on when a type crosses the wire: a value that is
  well-formed reads back as itself after the library has normalised what was printed.
\<close>

definition opt_member_from :: "(json \<Rightarrow> 'a option) \<Rightarrow> json option \<Rightarrow> 'a option option" where
  "opt_member_from f j = (case j of None \<Rightarrow> Some None | Some v \<Rightarrow> option_from f (canon v))"

definition list_member_from :: "(json \<Rightarrow> 'a option) \<Rightarrow> json option \<Rightarrow> 'a list option" where
  "list_member_from f j = (case j of None \<Rightarrow> Some [] | Some v \<Rightarrow> list_from f (canon v))"

locale json_codec =
  fixes enc :: "'a \<Rightarrow> json" and dec :: "json \<Rightarrow> 'a option" and ok :: "'a \<Rightarrow> bool"
  assumes dec_enc: "ok x \<Longrightarrow> dec (canon (enc x)) = Some x"
begin

lemma enc_inject: "ok x \<Longrightarrow> ok y \<Longrightarrow> enc x = enc y \<longleftrightarrow> x = y"
  using dec_enc by (metis option.inject)

lemma dec_list:
  "list_all ok xs \<Longrightarrow> list_from dec (JArray (map (\<lambda>x. canon (enc x)) xs)) = Some xs"
  by (induction xs) (simp_all add: dec_enc)

lemma dec_those: "list_all ok xs \<Longrightarrow> those (map (dec \<circ> (canon \<circ> enc)) xs) = Some xs"
  by (induction xs) (simp_all add: dec_enc)

lemma dec_opt_member:
  "pred_option (\<lambda>y. ok y \<and> canon (enc y) \<noteq> JNull) x \<Longrightarrow>
   opt_member_from dec (map_option enc x) = Some x"
  by (cases x) (simp_all add: opt_member_from_def option_from_def dec_enc)

lemma dec_list_member:
  "list_all ok xs \<Longrightarrow> list_member_from dec (skip_empty enc xs) = Some xs"
  using dec_list [of xs] by (simp add: list_member_from_def skip_empty_def comp_def)

end

text \<open>Reading one field of a printed struct.\<close>

lemma required_struct:
  "distinct (map fst ms) \<Longrightarrow> map_of ms k = Some (Some j) \<Longrightarrow>
   required k f (canon_members ms) = f (canon j)"
  by (simp add: required_def map_of_canon_members_struct)

lemma optional_struct:
  "distinct (map fst ms) \<Longrightarrow> map_of ms k = Some j \<Longrightarrow>
   optional k f (canon_members ms) = opt_member_from f j"
  by (cases j) (simp_all add: optional_def defaulted_def opt_member_from_def map_of_canon_members_struct)

lemma defaulted_list_struct:
  "distinct (map fst ms) \<Longrightarrow> map_of ms k = Some j \<Longrightarrow>
   defaulted [] k (list_from f) (canon_members ms) = list_member_from f j"
  by (cases j) (simp_all add: defaulted_def list_member_from_def map_of_canon_members_struct)

lemma defaulted_struct:
  "distinct (map fst ms) \<Longrightarrow> map_of ms k = Some (Some j) \<Longrightarrow>
   defaulted d k f (canon_members ms) = f (canon j)"
  by (simp add: defaulted_def map_of_canon_members_struct)

lemmas struct_reads =
  canon_struct_json required_struct optional_struct defaulted_list_struct defaulted_struct

lemma u32_json_roundtrip: "u32_from (canon (u32_json n)) = Some n"
proof -
  have "unat (ucast n :: u64) = unat n" by transfer simp
  moreover have "unat n < 2 ^ 32" using unsigned_less [where w = n and ?'a = nat] by simp
  moreover have "ucast (ucast n :: u64) = n" by transfer simp
  ultimately show ?thesis by (simp add: u32_json_def)
qed

lemma i64_json_roundtrip: "in_i64 i \<Longrightarrow> i64_from (canon (i64_json i)) = Some i"
  by (auto simp: in_i64_def i64_json_def unat_eq_nat_uint uint_word_of_int nat_less_iff)

interpretation string_codec: json_codec JString as_str "\<lambda>_. True"
  by unfold_locales simp

interpretation bool_codec: json_codec JBool as_bool "\<lambda>_. True"
  by unfold_locales simp

interpretation u32_codec: json_codec u32_json u32_from "\<lambda>_. True"
  by unfold_locales (rule u32_json_roundtrip)

interpretation i64_codec: json_codec i64_json i64_from in_i64
  by unfold_locales (rule i64_json_roundtrip)

interpretation value_codec: json_codec "\<lambda>j. j" Some "\<lambda>j. canon j = j"
  by unfold_locales simp

lemma value_opt_member:
  "pred_option (\<lambda>j. canon j = j \<and> j \<noteq> JNull) x \<Longrightarrow> opt_member_from Some x = Some x"
  using value_codec.dec_opt_member [of x] by (cases x) simp_all

lemmas [codec_simps] =
  struct_reads u32_json_roundtrip i64_json_roundtrip value_opt_member
  string_codec.dec_those string_codec.dec_opt_member string_codec.dec_list_member
  i64_codec.dec_opt_member list.pred_True option.pred_True

end
