(* ===== verification/Proto.thy ===== *)
theory Proto
  imports Json
begin

text \<open>
  The protocol codec of \<open>src/src/proto/mod.rs\<close>: message types, one record per body, the
  envelope, and \<open>encode\<close>/\<open>decode\<close>.  The printing and reading of JSON text and the wording of
  the library's errors come from the argument \<open>lib\<close>; everything between the JSON tree and the
  typed envelope is defined here, field by field as the derive attributes say.
\<close>

section \<open>Error codes\<close>

definition CODE_UNSUPPORTED_VERSION :: string where
  "CODE_UNSUPPORTED_VERSION = ''unsupported_version''"

definition CODE_UNKNOWN_TYPE :: string where
  "CODE_UNKNOWN_TYPE = ''unknown_type''"

definition CODE_UNAUTHENTICATED :: string where
  "CODE_UNAUTHENTICATED = ''unauthenticated''"

definition CODE_UNKNOWN_CMD :: string where
  "CODE_UNKNOWN_CMD = ''unknown_cmd''"

definition CODE_UNKNOWN_FEATURE :: string where
  "CODE_UNKNOWN_FEATURE = ''unknown_feature''"

definition CODE_NOT_CONNECTED :: string where
  "CODE_NOT_CONNECTED = ''not_connected''"

definition CODE_JOIN_FAILED :: string where
  "CODE_JOIN_FAILED = ''join_failed''"

definition CODE_SESSION_SUPERSEDED :: string where
  "CODE_SESSION_SUPERSEDED = ''session_superseded''"

definition CODE_UNKNOWN_SESSION :: string where
  "CODE_UNKNOWN_SESSION = ''unknown_session''"

section \<open>Types\<close>

datatype role = Client | Server

datatype message_type =
    TJoin | TJoinOk | TAuth | THello | TQuery | TQueryOk | TPrompt | TReply | TInterrupt
  | TAnswer | TPresence | TSessionBlocked | TPing | TPong | TAck | TError

record join_body =
  join_secret :: string
  join_hostname :: string

record join_ok_body =
  jok_client_id :: string
  jok_credential :: string

record auth_body =
  auth_credential :: json

record hello_session =
  hs_name :: string
  hs_harness :: string

record hello_body =
  hb_protocol :: u32
  hb_protocol_min :: u32
  hb_protocol_max :: u32
  hb_role :: role
  hb_hostname :: string
  hb_token_id :: "string option"
  hb_client_id :: "string option"
  hb_harnesses :: "string list"
  hb_harnesses_known :: "string list"
  hb_harnesses_confirmed :: "string list"
  hb_features :: "string list"
  hb_sessions :: "hello_session list"

record query_body =
  qb_cmd :: string
  qb_args :: "string list"

record query_ok_body =
  qok_cmd :: string
  qok_rest :: json

record prompt_body =
  pr_session :: string
  pr_text :: string
  pr_meta :: "json option"

record reply_body =
  rp_session :: string
  rp_text :: "string option"
  rp_chunks :: "string list"
  rp_done :: bool
  rp_exit :: "int option"

record interrupt_body =
  int_session :: string

record answer_body =
  ans_session :: string
  ans_choice :: string

record presence_body =
  pres_sessions :: "json list"

record session_blocked_body =
  sb_session :: string
  sb_blocked :: bool

record ping_body =
  ping_hostname :: "string option"

record pong_body =
  pong_hostname :: "string option"

record ack_body =
  ack_of :: "string option"

record error_body =
  err_code :: string
  err_cmd :: "string option"
  err_message :: "string option"

datatype body =
    BJoin join_body
  | BJoinOk join_ok_body
  | BAuth auth_body
  | BHello hello_body
  | BQuery query_body
  | BQueryOk query_ok_body
  | BPrompt prompt_body
  | BReply reply_body
  | BInterrupt interrupt_body
  | BAnswer answer_body
  | BPresence presence_body
  | BSessionBlocked session_blocked_body
  | BPing ping_body
  | BPong pong_body
  | BAck ack_body
  | BError error_body

record envelope =
  env_v :: u32
  env_msg_type :: message_type
  env_id :: string
  env_ts :: string
  env_from :: string
  env_body :: body

datatype decode_error = UnsupportedVersion u32 | UnknownType | Malformed string

definition decode_error_display :: "decode_error \<Rightarrow> string" where
  "decode_error_display e =
     (case e of
        UnsupportedVersion v \<Rightarrow>
          ''unsupported protocol version '' @ show_nat (unat v) @ '' (v1 requires v == 1)''
      | UnknownType \<Rightarrow> ''unknown message type''
      | Malformed msg \<Rightarrow> ''malformed frame: '' @ msg)"

section \<open>Wire names\<close>

definition from_wire :: "string \<Rightarrow> message_type option" where
  "from_wire s =
     (if s = ''join'' then Some TJoin
      else if s = ''join_ok'' then Some TJoinOk
      else if s = ''auth'' then Some TAuth
      else if s = ''hello'' then Some THello
      else if s = ''query'' then Some TQuery
      else if s = ''query_ok'' then Some TQueryOk
      else if s = ''prompt'' then Some TPrompt
      else if s = ''reply'' then Some TReply
      else if s = ''interrupt'' then Some TInterrupt
      else if s = ''answer'' then Some TAnswer
      else if s = ''presence'' then Some TPresence
      else if s = ''session_blocked'' then Some TSessionBlocked
      else if s = ''ping'' then Some TPing
      else if s = ''pong'' then Some TPong
      else if s = ''ack'' then Some TAck
      else if s = ''error'' then Some TError
      else None)"

fun as_wire_str :: "message_type \<Rightarrow> string" where
  "as_wire_str TJoin = ''join''"
| "as_wire_str TJoinOk = ''join_ok''"
| "as_wire_str TAuth = ''auth''"
| "as_wire_str THello = ''hello''"
| "as_wire_str TQuery = ''query''"
| "as_wire_str TQueryOk = ''query_ok''"
| "as_wire_str TPrompt = ''prompt''"
| "as_wire_str TReply = ''reply''"
| "as_wire_str TInterrupt = ''interrupt''"
| "as_wire_str TAnswer = ''answer''"
| "as_wire_str TPresence = ''presence''"
| "as_wire_str TSessionBlocked = ''session_blocked''"
| "as_wire_str TPing = ''ping''"
| "as_wire_str TPong = ''pong''"
| "as_wire_str TAck = ''ack''"
| "as_wire_str TError = ''error''"

section \<open>Bodies on the wire\<close>

definition role_json :: "role \<Rightarrow> json" where
  "role_json r = JString (case r of Client \<Rightarrow> ''client'' | Server \<Rightarrow> ''server'')"

text \<open>A derived unit variant reads its name, or an object with that one member set to null.\<close>

definition role_from :: "json \<Rightarrow> role option" where
  "role_from j =
     Option.bind (case j of JString s \<Rightarrow> Some s | JObject [(s, JNull)] \<Rightarrow> Some s | _ \<Rightarrow> None)
       (\<lambda>s. if s = ''client'' then Some Client else if s = ''server'' then Some Server else None)"

definition join_json :: "join_body \<Rightarrow> json" where
  "join_json b =
     struct_json [(''secret'', Some (JString (join_secret b))),
       (''hostname'', Some (JString (join_hostname b)))]"

definition join_from :: "json \<Rightarrow> join_body option" where
  "join_from j =
     do {
        kvs \<leftarrow> struct_members [''secret'', ''hostname''] j;
        secret \<leftarrow> required ''secret'' as_str kvs;
        hostname \<leftarrow> required ''hostname'' as_str kvs;
        Some \<lparr>join_secret = secret, join_hostname = hostname\<rparr>
     }"

definition join_ok_json :: "join_ok_body \<Rightarrow> json" where
  "join_ok_json b =
     struct_json [(''client_id'', Some (JString (jok_client_id b))),
       (''credential'', Some (JString (jok_credential b)))]"

definition join_ok_from :: "json \<Rightarrow> join_ok_body option" where
  "join_ok_from j =
     do {
        kvs \<leftarrow> struct_members [''client_id'', ''credential''] j;
        client_id \<leftarrow> required ''client_id'' as_str kvs;
        credential \<leftarrow> required ''credential'' as_str kvs;
        Some \<lparr>jok_client_id = client_id, jok_credential = credential\<rparr>
     }"

definition auth_json :: "auth_body \<Rightarrow> json" where
  "auth_json b =
     struct_json [(''credential'', Some (auth_credential b))]"

definition auth_from :: "json \<Rightarrow> auth_body option" where
  "auth_from j =
     do {
        kvs \<leftarrow> struct_members [''credential''] j;
        credential \<leftarrow> required ''credential'' Some kvs;
        Some \<lparr>auth_credential = credential\<rparr>
     }"

definition hello_session_json :: "hello_session \<Rightarrow> json" where
  "hello_session_json b =
     struct_json [(''name'', Some (JString (hs_name b))),
       (''harness'', Some (JString (hs_harness b)))]"

definition hello_session_from :: "json \<Rightarrow> hello_session option" where
  "hello_session_from j =
     do {
        kvs \<leftarrow> struct_members [''name'', ''harness''] j;
        name \<leftarrow> required ''name'' as_str kvs;
        harness \<leftarrow> required ''harness'' as_str kvs;
        Some \<lparr>hs_name = name, hs_harness = harness\<rparr>
     }"

definition hello_json :: "hello_body \<Rightarrow> json" where
  "hello_json b =
     struct_json [(''protocol'', Some (u32_json (hb_protocol b))),
       (''protocol_min'', Some (u32_json (hb_protocol_min b))),
       (''protocol_max'', Some (u32_json (hb_protocol_max b))),
       (''role'', Some (role_json (hb_role b))),
       (''hostname'', Some (JString (hb_hostname b))),
       (''token_id'', map_option JString (hb_token_id b)),
       (''client_id'', map_option JString (hb_client_id b)),
       (''harnesses'', skip_empty JString (hb_harnesses b)),
       (''harnesses_known'', skip_empty JString (hb_harnesses_known b)),
       (''harnesses_confirmed'', skip_empty JString (hb_harnesses_confirmed b)),
       (''features'', skip_empty JString (hb_features b)),
       (''sessions'', skip_empty hello_session_json (hb_sessions b))]"

definition hello_from :: "json \<Rightarrow> hello_body option" where
  "hello_from j =
     do {
        kvs \<leftarrow> struct_members [''protocol'', ''protocol_min'', ''protocol_max'', ''role'',
                                ''hostname'', ''token_id'', ''client_id'', ''harnesses'',
                                ''harnesses_known'', ''harnesses_confirmed'', ''features'',
                                ''sessions''] j;
        protocol \<leftarrow> required ''protocol'' u32_from kvs;
        protocol_min \<leftarrow> required ''protocol_min'' u32_from kvs;
        protocol_max \<leftarrow> required ''protocol_max'' u32_from kvs;
        role \<leftarrow> required ''role'' role_from kvs;
        hostname \<leftarrow> required ''hostname'' as_str kvs;
        token_id \<leftarrow> optional ''token_id'' as_str kvs;
        client_id \<leftarrow> optional ''client_id'' as_str kvs;
        harnesses \<leftarrow> defaulted [] ''harnesses'' (list_from as_str) kvs;
        harnesses_known \<leftarrow> defaulted [] ''harnesses_known'' (list_from as_str) kvs;
        harnesses_confirmed \<leftarrow> defaulted [] ''harnesses_confirmed'' (list_from as_str) kvs;
        features \<leftarrow> defaulted [] ''features'' (list_from as_str) kvs;
        sessions \<leftarrow> defaulted [] ''sessions'' (list_from hello_session_from) kvs;
        Some \<lparr>hb_protocol = protocol, hb_protocol_min = protocol_min, hb_protocol_max = protocol_max,
               hb_role = role, hb_hostname = hostname, hb_token_id = token_id, hb_client_id =
               client_id, hb_harnesses = harnesses, hb_harnesses_known = harnesses_known,
               hb_harnesses_confirmed = harnesses_confirmed, hb_features = features, hb_sessions =
               sessions\<rparr>
     }"

definition query_json :: "query_body \<Rightarrow> json" where
  "query_json b =
     struct_json [(''cmd'', Some (JString (qb_cmd b))),
       (''args'', Some (JArray (map JString (qb_args b))))]"

definition query_from :: "json \<Rightarrow> query_body option" where
  "query_from j =
     do {
        kvs \<leftarrow> struct_members [''cmd'', ''args''] j;
        cmd \<leftarrow> required ''cmd'' as_str kvs;
        args \<leftarrow> defaulted [] ''args'' (list_from as_str) kvs;
        Some \<lparr>qb_cmd = cmd, qb_args = args\<rparr>
     }"

text \<open>
  \<open>query_ok\<close> flattens \<open>rest\<close> into the same object: printing fails unless \<open>rest\<close> is an object
  (or null, which adds nothing), and reading takes an object only and leaves every member but
  \<open>cmd\<close> in \<open>rest\<close>.
\<close>

definition query_ok_json :: "query_ok_body \<Rightarrow> json option" where
  "query_ok_json b =
     (case qok_rest b of
        JObject kvs \<Rightarrow> Some (JObject ((''cmd'', JString (qok_cmd b)) # kvs))
      | JNull \<Rightarrow> Some (JObject [(''cmd'', JString (qok_cmd b))])
      | _ \<Rightarrow> None)"

definition query_ok_from :: "json \<Rightarrow> query_ok_body option" where
  "query_ok_from j =
     (case j of
        JObject kvs \<Rightarrow>
          Option.bind (required ''cmd'' as_str kvs)
            (\<lambda>c. Some \<lparr>qok_cmd = c, qok_rest = JObject (filter (\<lambda>p. fst p \<noteq> ''cmd'') kvs)\<rparr>)
      | _ \<Rightarrow> None)"

definition prompt_json :: "prompt_body \<Rightarrow> json" where
  "prompt_json b =
     struct_json [(''session'', Some (JString (pr_session b))),
       (''text'', Some (JString (pr_text b))),
       (''meta'', pr_meta b)]"

definition prompt_from :: "json \<Rightarrow> prompt_body option" where
  "prompt_from j =
     do {
        kvs \<leftarrow> struct_members [''session'', ''text'', ''meta''] j;
        session \<leftarrow> required ''session'' as_str kvs;
        text \<leftarrow> required ''text'' as_str kvs;
        meta \<leftarrow> optional ''meta'' Some kvs;
        Some \<lparr>pr_session = session, pr_text = text, pr_meta = meta\<rparr>
     }"

definition reply_json :: "reply_body \<Rightarrow> json" where
  "reply_json b =
     struct_json [(''session'', Some (JString (rp_session b))),
       (''text'', map_option JString (rp_text b)),
       (''chunks'', skip_empty JString (rp_chunks b)),
       (''done'', Some (JBool (rp_done b))),
       (''exit'', map_option i64_json (rp_exit b))]"

definition reply_from :: "json \<Rightarrow> reply_body option" where
  "reply_from j =
     do {
        kvs \<leftarrow> struct_members [''session'', ''text'', ''chunks'', ''done'', ''exit''] j;
        session \<leftarrow> required ''session'' as_str kvs;
        text \<leftarrow> optional ''text'' as_str kvs;
        chunks \<leftarrow> defaulted [] ''chunks'' (list_from as_str) kvs;
        done \<leftarrow> defaulted False ''done'' as_bool kvs;
        exit \<leftarrow> optional ''exit'' i64_from kvs;
        Some \<lparr>rp_session = session, rp_text = text, rp_chunks = chunks, rp_done = done, rp_exit = exit\<rparr>
     }"

definition interrupt_json :: "interrupt_body \<Rightarrow> json" where
  "interrupt_json b =
     struct_json [(''session'', Some (JString (int_session b)))]"

definition interrupt_from :: "json \<Rightarrow> interrupt_body option" where
  "interrupt_from j =
     do {
        kvs \<leftarrow> struct_members [''session''] j;
        session \<leftarrow> required ''session'' as_str kvs;
        Some \<lparr>int_session = session\<rparr>
     }"

definition answer_json :: "answer_body \<Rightarrow> json" where
  "answer_json b =
     struct_json [(''session'', Some (JString (ans_session b))),
       (''choice'', Some (JString (ans_choice b)))]"

definition answer_from :: "json \<Rightarrow> answer_body option" where
  "answer_from j =
     do {
        kvs \<leftarrow> struct_members [''session'', ''choice''] j;
        session \<leftarrow> required ''session'' as_str kvs;
        choice \<leftarrow> required ''choice'' as_str kvs;
        Some \<lparr>ans_session = session, ans_choice = choice\<rparr>
     }"

definition presence_json :: "presence_body \<Rightarrow> json" where
  "presence_json b =
     struct_json [(''sessions'', Some (JArray (pres_sessions b)))]"

definition presence_from :: "json \<Rightarrow> presence_body option" where
  "presence_from j =
     do {
        kvs \<leftarrow> struct_members [''sessions''] j;
        sessions \<leftarrow> required ''sessions'' (list_from Some) kvs;
        Some \<lparr>pres_sessions = sessions\<rparr>
     }"

definition session_blocked_json :: "session_blocked_body \<Rightarrow> json" where
  "session_blocked_json b =
     struct_json [(''session'', Some (JString (sb_session b))),
       (''blocked'', Some (JBool (sb_blocked b)))]"

definition session_blocked_from :: "json \<Rightarrow> session_blocked_body option" where
  "session_blocked_from j =
     do {
        kvs \<leftarrow> struct_members [''session'', ''blocked''] j;
        session \<leftarrow> required ''session'' as_str kvs;
        blocked \<leftarrow> required ''blocked'' as_bool kvs;
        Some \<lparr>sb_session = session, sb_blocked = blocked\<rparr>
     }"

definition ping_json :: "ping_body \<Rightarrow> json" where
  "ping_json b =
     struct_json [(''hostname'', map_option JString (ping_hostname b))]"

definition ping_from :: "json \<Rightarrow> ping_body option" where
  "ping_from j =
     do {
        kvs \<leftarrow> struct_members [''hostname''] j;
        hostname \<leftarrow> optional ''hostname'' as_str kvs;
        Some \<lparr>ping_hostname = hostname\<rparr>
     }"

definition pong_json :: "pong_body \<Rightarrow> json" where
  "pong_json b =
     struct_json [(''hostname'', map_option JString (pong_hostname b))]"

definition pong_from :: "json \<Rightarrow> pong_body option" where
  "pong_from j =
     do {
        kvs \<leftarrow> struct_members [''hostname''] j;
        hostname \<leftarrow> optional ''hostname'' as_str kvs;
        Some \<lparr>pong_hostname = hostname\<rparr>
     }"

definition ack_json :: "ack_body \<Rightarrow> json" where
  "ack_json b =
     struct_json [(''of'', map_option JString (ack_of b))]"

definition ack_from :: "json \<Rightarrow> ack_body option" where
  "ack_from j =
     do {
        kvs \<leftarrow> struct_members [''of''] j;
        target \<leftarrow> optional ''of'' as_str kvs;
        Some \<lparr>ack_of = target\<rparr>
     }"

definition error_json :: "error_body \<Rightarrow> json" where
  "error_json b =
     struct_json [(''code'', Some (JString (err_code b))),
       (''cmd'', map_option JString (err_cmd b)),
       (''message'', map_option JString (err_message b))]"

definition error_from :: "json \<Rightarrow> error_body option" where
  "error_from j =
     do {
        kvs \<leftarrow> struct_members [''code'', ''cmd'', ''message''] j;
        code \<leftarrow> required ''code'' as_str kvs;
        cmd \<leftarrow> optional ''cmd'' as_str kvs;
        message \<leftarrow> optional ''message'' as_str kvs;
        Some \<lparr>err_code = code, err_cmd = cmd, err_message = message\<rparr>
     }"

fun body_json :: "body \<Rightarrow> json option" where
  "body_json (BJoin b) = Some (join_json b)"
| "body_json (BJoinOk b) = Some (join_ok_json b)"
| "body_json (BAuth b) = Some (auth_json b)"
| "body_json (BHello b) = Some (hello_json b)"
| "body_json (BQuery b) = Some (query_json b)"
| "body_json (BQueryOk b) = query_ok_json b"
| "body_json (BPrompt b) = Some (prompt_json b)"
| "body_json (BReply b) = Some (reply_json b)"
| "body_json (BInterrupt b) = Some (interrupt_json b)"
| "body_json (BAnswer b) = Some (answer_json b)"
| "body_json (BPresence b) = Some (presence_json b)"
| "body_json (BSessionBlocked b) = Some (session_blocked_json b)"
| "body_json (BPing b) = Some (ping_json b)"
| "body_json (BPong b) = Some (pong_json b)"
| "body_json (BAck b) = Some (ack_json b)"
| "body_json (BError b) = Some (error_json b)"

fun body_from :: "message_type \<Rightarrow> json \<Rightarrow> body option" where
  "body_from TJoin j = map_option BJoin (join_from j)"
| "body_from TJoinOk j = map_option BJoinOk (join_ok_from j)"
| "body_from TAuth j = map_option BAuth (auth_from j)"
| "body_from THello j = map_option BHello (hello_from j)"
| "body_from TQuery j = map_option BQuery (query_from j)"
| "body_from TQueryOk j = map_option BQueryOk (query_ok_from j)"
| "body_from TPrompt j = map_option BPrompt (prompt_from j)"
| "body_from TReply j = map_option BReply (reply_from j)"
| "body_from TInterrupt j = map_option BInterrupt (interrupt_from j)"
| "body_from TAnswer j = map_option BAnswer (answer_from j)"
| "body_from TPresence j = map_option BPresence (presence_from j)"
| "body_from TSessionBlocked j = map_option BSessionBlocked (session_blocked_from j)"
| "body_from TPing j = map_option BPing (ping_from j)"
| "body_from TPong j = map_option BPong (pong_from j)"
| "body_from TAck j = map_option BAck (ack_from j)"
| "body_from TError j = map_option BError (error_from j)"

definition deserialize_value :: "json_lib \<Rightarrow> json \<Rightarrow> message_type \<Rightarrow> decode_error + body" where
  "deserialize_value lib body t =
     (case body_from t body of
        None \<Rightarrow> Inl (Malformed (jl_value_error lib (as_wire_str t) body))
      | Some b \<Rightarrow> Inr b)"

section \<open>Envelopes\<close>

record parsed_envelope =
  pe_v :: u32
  pe_msg_type :: message_type
  pe_id :: string
  pe_ts :: string
  pe_from :: string
  pe_body :: json

definition try_from :: "json_lib \<Rightarrow> parsed_envelope \<Rightarrow> decode_error + envelope" where
  "try_from lib p =
     (case deserialize_value lib (pe_body p) (pe_msg_type p) of
        Inl (Malformed msg) \<Rightarrow>
          Inl (Malformed (''            body for `type: '' @ as_wire_str (pe_msg_type p) @ ''`: '' @ msg))
      | Inl other \<Rightarrow> Inl other
      | Inr b \<Rightarrow>
          Inr \<lparr>env_v = pe_v p, env_msg_type = pe_msg_type p, env_id = pe_id p, env_ts = pe_ts p,
               env_from = pe_from p, env_body = b\<rparr>)"

definition parse_envelope :: "json_lib \<Rightarrow> string \<Rightarrow> decode_error + parsed_envelope" where
  "parse_envelope lib raw =
     (case jl_from_str lib raw of
        Inl msg \<Rightarrow> Inl (Malformed msg)
      | Inr (JObject kvs) \<Rightarrow>
          (case map_of kvs ''type'' of
             Some (JString type_str) \<Rightarrow>
               (case from_wire type_str of
                  None \<Rightarrow> Inl UnknownType
                | Some msg_type \<Rightarrow>
                    (case Option.bind (map_of kvs ''v'') as_u64 of
                       None \<Rightarrow> Inl (Malformed ''missing or non-numeric `v`'')
                     | Some v \<Rightarrow>
                         (case Option.bind (map_of kvs ''id'') as_str of
                            None \<Rightarrow> Inl (Malformed ''missing or non-string `id`'')
                          | Some i \<Rightarrow>
                              (case Option.bind (map_of kvs ''ts'') as_str of
                                 None \<Rightarrow> Inl (Malformed ''missing or non-string `ts`'')
                               | Some ts \<Rightarrow>
                                   (case Option.bind (map_of kvs ''from'') as_str of
                                      None \<Rightarrow> Inl (Malformed ''missing or non-string `from`'')
                                    | Some from \<Rightarrow>
                                        (case map_of kvs ''body'' of
                                           None \<Rightarrow> Inl (Malformed ''missing `body`'')
                                         | Some b \<Rightarrow>
                                             Inr \<lparr>pe_v = ucast v, pe_msg_type = msg_type, pe_id = i,
                                                  pe_ts = ts, pe_from = from, pe_body = b\<rparr>))))))
           | _ \<Rightarrow> Inl (Malformed ''missing or non-string `type`''))
      | Inr _ \<Rightarrow> Inl (Malformed ''envelope must be a JSON object''))"

definition decode :: "json_lib \<Rightarrow> string \<Rightarrow> decode_error + envelope" where
  "decode lib raw =
     (case parse_envelope lib raw of
        Inl e \<Rightarrow> Inl e
      | Inr p \<Rightarrow> if pe_v p \<noteq> 1 then Inl (UnsupportedVersion (pe_v p)) else try_from lib p)"

definition envelope_json :: "envelope \<Rightarrow> json option" where
  "envelope_json e =
     map_option
       (\<lambda>b. JObject [(''v'', u32_json (env_v e)), (''type'', JString (as_wire_str (env_msg_type e))),
                     (''id'', JString (env_id e)), (''ts'', JString (env_ts e)),
                     (''from'', JString (env_from e)), (''body'', b)])
       (body_json (env_body e))"

definition encode :: "json_lib \<Rightarrow> envelope \<Rightarrow> string option" where
  "encode lib e = map_option (jl_to_string lib) (envelope_json e)"

section \<open>Error envelopes\<close>

definition new_error_envelope ::
  "string \<Rightarrow> string option \<Rightarrow> string option \<Rightarrow> string \<Rightarrow> string \<Rightarrow> envelope" where
  "new_error_envelope code cmd message reply_id from =
     \<lparr>env_v = 1, env_msg_type = TError, env_id = reply_id, env_ts = ''1970-01-01T00:00:00Z'',
      env_from = from,
      env_body = BError \<lparr>err_code = code, err_cmd = cmd, err_message = message\<rparr>\<rparr>"

definition error_for_unknown_type :: "string \<Rightarrow> string \<Rightarrow> string \<Rightarrow> envelope" where
  "error_for_unknown_type unknown_type reply_id from =
     new_error_envelope CODE_UNKNOWN_TYPE None (Some (''unknown type: '' @ unknown_type)) reply_id from"

definition error_for :: "string \<Rightarrow> string \<Rightarrow> string \<Rightarrow> envelope" where
  "error_for code reply_id from = new_error_envelope code None None reply_id from"

definition error_with_message :: "string \<Rightarrow> string \<Rightarrow> string \<Rightarrow> string \<Rightarrow> envelope" where
  "error_with_message code message reply_id from =
     new_error_envelope code None (Some message) reply_id from"

definition error_for_unknown_cmd :: "string \<Rightarrow> string \<Rightarrow> string \<Rightarrow> envelope" where
  "error_for_unknown_cmd cmd reply_id from =
     new_error_envelope CODE_UNKNOWN_CMD (Some cmd) (Some (''unknown query cmd: '' @ cmd)) reply_id from"

section \<open>Lemmas\<close>

lemma from_wire_as_wire_str [simp]: "from_wire (as_wire_str t) = Some t"
  by (cases t) (simp_all add: from_wire_def)

lemma from_wire_SomeD: "from_wire s = Some t \<Longrightarrow> s = as_wire_str t"
  by (auto simp: from_wire_def split: if_splits)

lemma role_roundtrip: "role_from (canon (role_json r)) = Some r"
  by (cases r) (simp_all add: role_json_def role_from_def)

lemma i64_json_not_null: "canon (i64_json i) \<noteq> JNull"
  by (simp add: i64_json_def)

interpretation join_codec: json_codec join_json join_from "\<lambda>_. True"
  by unfold_locales (simp add: join_json_def join_from_def codec_simps)

interpretation join_ok_codec: json_codec join_ok_json join_ok_from "\<lambda>_. True"
  by unfold_locales (simp add: join_ok_json_def join_ok_from_def codec_simps)

interpretation auth_codec: json_codec auth_json auth_from "\<lambda>b. canon (auth_credential b) = auth_credential b"
  by unfold_locales (simp add: auth_json_def auth_from_def codec_simps)

interpretation hello_session_codec: json_codec hello_session_json hello_session_from "\<lambda>_. True"
  by unfold_locales (simp add: hello_session_json_def hello_session_from_def codec_simps)

interpretation hello_codec: json_codec hello_json hello_from "\<lambda>_. True"
  by unfold_locales (simp add: hello_json_def hello_from_def codec_simps role_roundtrip
      hello_session_codec.dec_list_member)

interpretation query_codec: json_codec query_json query_from "\<lambda>_. True"
  by unfold_locales (simp add: query_json_def query_from_def codec_simps)

interpretation prompt_codec: json_codec prompt_json prompt_from "\<lambda>b. pred_option (\<lambda>j. canon j = j \<and> j \<noteq> JNull) (pr_meta b)"
  by unfold_locales (simp add: prompt_json_def prompt_from_def codec_simps)

interpretation reply_codec: json_codec reply_json reply_from "\<lambda>b. pred_option in_i64 (rp_exit b)"
  by unfold_locales (simp add: reply_json_def reply_from_def codec_simps i64_json_not_null)

interpretation interrupt_codec: json_codec interrupt_json interrupt_from "\<lambda>_. True"
  by unfold_locales (simp add: interrupt_json_def interrupt_from_def codec_simps)

interpretation answer_codec: json_codec answer_json answer_from "\<lambda>_. True"
  by unfold_locales (simp add: answer_json_def answer_from_def codec_simps)

lemma canon_list_id: "list_all (\<lambda>j. canon j = j) js \<Longrightarrow> map canon js = js"
  by (induction js) simp_all

lemma those_Some: "those (map Some xs) = Some xs"
  by (induction xs) simp_all

interpretation presence_codec: json_codec presence_json presence_from "\<lambda>b. list_all (\<lambda>j. canon j = j) (pres_sessions b)"
  by unfold_locales (simp add: presence_json_def presence_from_def codec_simps canon_list_id those_Some)

interpretation session_blocked_codec: json_codec session_blocked_json session_blocked_from "\<lambda>_. True"
  by unfold_locales (simp add: session_blocked_json_def session_blocked_from_def codec_simps)

interpretation ping_codec: json_codec ping_json ping_from "\<lambda>_. True"
  by unfold_locales (simp add: ping_json_def ping_from_def codec_simps)

interpretation pong_codec: json_codec pong_json pong_from "\<lambda>_. True"
  by unfold_locales (simp add: pong_json_def pong_from_def codec_simps)

interpretation ack_codec: json_codec ack_json ack_from "\<lambda>_. True"
  by unfold_locales (simp add: ack_json_def ack_from_def codec_simps)

interpretation error_codec: json_codec error_json error_from "\<lambda>_. True"
  by unfold_locales (simp add: error_json_def error_from_def codec_simps)

lemmas body_codecs =
  join_codec.dec_enc join_ok_codec.dec_enc auth_codec.dec_enc hello_codec.dec_enc
  query_codec.dec_enc prompt_codec.dec_enc reply_codec.dec_enc interrupt_codec.dec_enc
  answer_codec.dec_enc presence_codec.dec_enc session_blocked_codec.dec_enc ping_codec.dec_enc
  pong_codec.dec_enc ack_codec.dec_enc error_codec.dec_enc

text \<open>A flattened \<open>query_ok\<close> reads back when \<open>rest\<close> is an object that does not itself say \<open>cmd\<close>.\<close>

definition query_ok_wf :: "query_ok_body \<Rightarrow> bool" where
  "query_ok_wf b =
     (case qok_rest b of
        JObject kvs \<Rightarrow> canon (JObject kvs) = JObject kvs \<and> ''cmd'' \<notin> fst ` set kvs
      | _ \<Rightarrow> False)"

lemma query_ok_roundtrip:
  assumes "query_ok_wf b"
  shows "\<exists>j. query_ok_json b = Some j \<and> query_ok_from (canon j) = Some b"
proof -
  obtain kvs where rest: "qok_rest b = JObject kvs" and c: "canon (JObject kvs) = JObject kvs"
    and fresh: "''cmd'' \<notin> fst ` set kvs"
    using assms by (auto simp: query_ok_wf_def split: json.splits)
  let ?f = "\<lambda>(k, v). (k, canon v)"
  have keys: "''cmd'' \<notin> fst ` set (map ?f kvs)"
    using fresh by force
  have obj: "obj_of (map ?f kvs) = kvs" using c by simp
  have none: "map_of (rev (map ?f kvs)) ''cmd'' = None"
    using keys by (simp add: map_of_eq_None_iff)
  have "map_of (obj_of ((''cmd'', JString (qok_cmd b)) # map ?f kvs)) ''cmd'' =
        Some (JString (qok_cmd b))"
    using none by (simp add: map_add_def)
  then have "query_ok_from (JObject (obj_of ((''cmd'', JString (qok_cmd b)) # map ?f kvs))) = Some b"
    using filter_obj_of_Cons [OF keys, of "JString (qok_cmd b)"] obj rest
    by (simp add: query_ok_from_def required_def del: map_of_obj_of)
  then show ?thesis using rest by (simp add: query_ok_json_def)
qed

fun body_type :: "body \<Rightarrow> message_type" where
  "body_type (BJoin _) = TJoin"
| "body_type (BJoinOk _) = TJoinOk"
| "body_type (BAuth _) = TAuth"
| "body_type (BHello _) = THello"
| "body_type (BQuery _) = TQuery"
| "body_type (BQueryOk _) = TQueryOk"
| "body_type (BPrompt _) = TPrompt"
| "body_type (BReply _) = TReply"
| "body_type (BInterrupt _) = TInterrupt"
| "body_type (BAnswer _) = TAnswer"
| "body_type (BPresence _) = TPresence"
| "body_type (BSessionBlocked _) = TSessionBlocked"
| "body_type (BPing _) = TPing"
| "body_type (BPong _) = TPong"
| "body_type (BAck _) = TAck"
| "body_type (BError _) = TError"

text \<open>
  The bodies that survive the trip: embedded JSON values are in the library's normal form, an
  optional value is not an explicit null, an exit code fits \<open>i64\<close>.
\<close>

fun body_wf :: "body \<Rightarrow> bool" where
  "body_wf (BAuth b) \<longleftrightarrow> canon (auth_credential b) = auth_credential b"
| "body_wf (BQueryOk b) \<longleftrightarrow> query_ok_wf b"
| "body_wf (BPrompt b) \<longleftrightarrow> pred_option (\<lambda>j. canon j = j \<and> j \<noteq> JNull) (pr_meta b)"
| "body_wf (BReply b) \<longleftrightarrow> pred_option in_i64 (rp_exit b)"
| "body_wf (BPresence b) \<longleftrightarrow> list_all (\<lambda>j. canon j = j) (pres_sessions b)"
| "body_wf _ \<longleftrightarrow> True"

lemma body_roundtrip:
  assumes "body_wf b"
  shows "\<exists>j. body_json b = Some j \<and> body_from (body_type b) (canon j) = Some b"
proof (cases b)
  case (BQueryOk q)
  with assms query_ok_roundtrip [of q] show ?thesis by auto
qed (use assms in \<open>simp_all add: body_codecs\<close>)

lemma body_from_type: "body_from t j = Some b \<Longrightarrow> body_type b = t"
  by (cases t) auto

definition envelope_wf :: "envelope \<Rightarrow> bool" where
  "envelope_wf e \<longleftrightarrow>
     env_v e = 1 \<and> env_msg_type e = body_type (env_body e) \<and> body_wf (env_body e)"


text \<open>The six required members of a frame, as the header of an accepted frame has them.\<close>

definition frame_header ::
  "(string \<times> json) list \<Rightarrow> message_type \<Rightarrow> u64 \<Rightarrow> string \<Rightarrow> string \<Rightarrow> string \<Rightarrow> json \<Rightarrow> bool" where
  "frame_header kvs t n i ts fr b \<longleftrightarrow>
     map_of kvs ''type'' = Some (JString (as_wire_str t)) \<and> map_of kvs ''v'' = Some (JPos n) \<and>
     map_of kvs ''id'' = Some (JString i) \<and> map_of kvs ''ts'' = Some (JString ts) \<and>
     map_of kvs ''from'' = Some (JString fr) \<and> map_of kvs ''body'' = Some b"

lemma as_str_Some [simp]: "as_str j = Some s \<longleftrightarrow> j = JString s"
  by (cases j) auto

lemma as_u64_Some [simp]: "as_u64 j = Some n \<longleftrightarrow> j = JPos n"
  by (cases j) auto

lemma as_bool_Some [simp]: "as_bool j = Some b \<longleftrightarrow> j = JBool b"
  by (cases j) auto

lemma parse_envelope_Inr:
  "parse_envelope lib raw = Inr p \<longleftrightarrow>
     (\<exists>kvs n. jl_from_str lib raw = Inr (JObject kvs) \<and> pe_v p = ucast n \<and>
        frame_header kvs (pe_msg_type p) n (pe_id p) (pe_ts p) (pe_from p) (pe_body p))"
  (is "?l = ?r")
proof
  assume ?l
  then show ?r
    by (auto simp: parse_envelope_def frame_header_def bind_eq_Some_conv
          split: sum.splits json.splits option.splits dest: from_wire_SomeD)
next
  assume ?r
  then obtain kvs n where "jl_from_str lib raw = Inr (JObject kvs)" "pe_v p = ucast n"
    "frame_header kvs (pe_msg_type p) n (pe_id p) (pe_ts p) (pe_from p) (pe_body p)" by blast
  then show ?l by (simp add: parse_envelope_def frame_header_def)
qed

lemma parse_envelope_UnknownType:
  "parse_envelope lib raw = Inl UnknownType \<longleftrightarrow>
     (\<exists>kvs s. jl_from_str lib raw = Inr (JObject kvs) \<and>
        map_of kvs ''type'' = Some (JString s) \<and> s \<notin> range as_wire_str)"
proof -
  have none: "from_wire s = None \<longleftrightarrow> s \<notin> range as_wire_str" for s
    using from_wire_SomeD by (cases "from_wire s") auto
  show ?thesis
    by (auto simp: parse_envelope_def none [symmetric] split: sum.splits json.splits option.splits)
qed

lemma parse_envelope_no_version: "parse_envelope lib raw \<noteq> Inl (UnsupportedVersion v)"
  by (auto simp: parse_envelope_def split: sum.splits json.splits option.splits)

lemma try_from_Inr:
  "try_from lib p = Inr e \<longleftrightarrow>
     (\<exists>b. body_from (pe_msg_type p) (pe_body p) = Some b \<and>
        e = \<lparr>env_v = pe_v p, env_msg_type = pe_msg_type p, env_id = pe_id p, env_ts = pe_ts p,
             env_from = pe_from p, env_body = b\<rparr>)"
  by (auto simp: try_from_def deserialize_value_def split: option.splits)

lemma try_from_Inl: "try_from lib p = Inl e \<Longrightarrow> \<exists>msg. e = Malformed msg"
  by (auto simp: try_from_def deserialize_value_def split: option.splits)

lemma parse_envelope_header:
  "jl_from_str lib raw = Inr (JObject kvs) \<Longrightarrow> frame_header kvs t n i ts fr b \<Longrightarrow>
   parse_envelope lib raw =
     Inr \<lparr>pe_v = ucast n, pe_msg_type = t, pe_id = i, pe_ts = ts, pe_from = fr, pe_body = b\<rparr>"
  by (auto simp: parse_envelope_Inr)

lemma decode_header:
  "jl_from_str lib raw = Inr (JObject kvs) \<Longrightarrow> frame_header kvs t n i ts fr b \<Longrightarrow>
   (ucast n :: u32) = 1 \<Longrightarrow> body_from t b = Some bd \<Longrightarrow>
   decode lib raw =
     Inr \<lparr>env_v = 1, env_msg_type = t, env_id = i, env_ts = ts, env_from = fr, env_body = bd\<rparr>"
  by (simp add: decode_def parse_envelope_header try_from_Inr)

lemma decode_Inr:
  "decode lib raw = Inr e \<longleftrightarrow>
     (\<exists>kvs n b. jl_from_str lib raw = Inr (JObject kvs) \<and>
        frame_header kvs (env_msg_type e) n (env_id e) (env_ts e) (env_from e) b \<and>
        env_v e = 1 \<and> (ucast n :: u32) = 1 \<and> body_from (env_msg_type e) b = Some (env_body e))"
  (is "?l \<longleftrightarrow> ?r")
proof
  assume ?l
  then obtain p where "parse_envelope lib raw = Inr p" "pe_v p = 1" "try_from lib p = Inr e"
    by (auto simp: decode_def split: sum.splits if_splits)
  then show ?r by (fastforce simp: parse_envelope_Inr try_from_Inr)
next
  assume ?r
  then show ?l by (auto simp: decode_header)
qed

lemma decode_UnknownType:
  "decode lib raw = Inl UnknownType \<longleftrightarrow>
     (\<exists>kvs s. jl_from_str lib raw = Inr (JObject kvs) \<and>
        map_of kvs ''type'' = Some (JString s) \<and> s \<notin> range as_wire_str)"
  unfolding parse_envelope_UnknownType [symmetric]
  by (auto simp: decode_def split: sum.splits if_splits dest: try_from_Inl)

lemma decode_UnsupportedVersion:
  "decode lib raw = Inl (UnsupportedVersion v) \<longleftrightarrow>
     (\<exists>kvs t n i ts fr b. jl_from_str lib raw = Inr (JObject kvs) \<and>
        frame_header kvs t n i ts fr b \<and> v = ucast n \<and> v \<noteq> 1)" (is "?l \<longleftrightarrow> ?r")
proof
  assume ?l
  then obtain p where "parse_envelope lib raw = Inr p" "v = pe_v p" "v \<noteq> 1"
    by (auto simp: decode_def parse_envelope_no_version split: sum.splits if_splits
          dest: try_from_Inl)
  then show ?r unfolding parse_envelope_Inr by blast
next
  assume ?r
  then show ?l by (auto simp: decode_def parse_envelope_header)
qed

text \<open>What the library has read decodes to well-formed bodies only.\<close>

lemma auth_from_wf:
  assumes "json_read j" and "auth_from j = Some b"
  shows "canon (auth_credential b) = auth_credential b"
proof -
  from assms(2) obtain kvs where "struct_members [''credential''] j = Some kvs"
      "map_of kvs ''credential'' = Some (auth_credential b)"
    by (auto simp: auth_from_def required_def bind_eq_Some_conv)
  then have "json_read (auth_credential b)" using json_read_struct_member [OF assms(1)] by blast
  then show ?thesis by (simp add: json_read_def)
qed

lemma optional_Some_read:
  "json_read j \<Longrightarrow> struct_members names j = Some kvs \<Longrightarrow> optional k f kvs = Some (Some x) \<Longrightarrow>
   \<exists>v. json_read v \<and> v \<noteq> JNull \<and> f v = Some x"
  by (auto simp: optional_def defaulted_def option_from_def split: option.splits if_splits
        dest: json_read_struct_member)

lemma prompt_from_wf:
  assumes "json_read j" and "prompt_from j = Some b"
  shows "pred_option (\<lambda>j. canon j = j \<and> j \<noteq> JNull) (pr_meta b)"
proof (cases "pr_meta b")
  case (Some m)
  with assms(2) obtain kvs where "struct_members [''session'', ''text'', ''meta''] j = Some kvs"
      "optional ''meta'' Some kvs = Some (Some m)"
    by (auto simp: prompt_from_def bind_eq_Some_conv)
  with optional_Some_read [OF assms(1)] Some show ?thesis by (fastforce simp: json_read_def)
qed simp

lemma reply_from_wf:
  assumes "json_read j" and "reply_from j = Some b"
  shows "pred_option in_i64 (rp_exit b)"
proof (cases "rp_exit b")
  case (Some i)
  with assms(2) obtain kvs where
      "struct_members [''session'', ''text'', ''chunks'', ''done'', ''exit''] j = Some kvs"
      "optional ''exit'' i64_from kvs = Some (Some i)"
    by (auto simp: reply_from_def bind_eq_Some_conv)
  with optional_Some_read [OF assms(1)] Some show ?thesis by (fastforce dest: i64_from_read)
qed simp

lemma list_from_Some: "list_from Some j = Some js \<longleftrightarrow> j = JArray js"
  by (cases j) (auto simp: those_Some)

lemma presence_from_wf:
  assumes "json_read j" and "presence_from j = Some b"
  shows "list_all (\<lambda>j. canon j = j) (pres_sessions b)"
proof -
  from assms(2) obtain kvs where "struct_members [''sessions''] j = Some kvs"
      "map_of kvs ''sessions'' = Some (JArray (pres_sessions b))"
    by (auto simp: presence_from_def required_def bind_eq_Some_conv list_from_Some)
  then have "json_read (JArray (pres_sessions b))"
    using json_read_struct_member [OF assms(1)] by blast
  then have "\<forall>v \<in> set (pres_sessions b). json_read v" by (blast intro: json_read_element)
  then show ?thesis by (simp add: json_read_def list_all_iff)
qed

lemma query_ok_from_wf: "json_read j \<Longrightarrow> query_ok_from j = Some b \<Longrightarrow> query_ok_wf b"
  unfolding json_read_def query_ok_wf_def
  by (cases j)
     (auto simp: query_ok_from_def bind_eq_Some_conv simp del: canon.simps intro: canon_object_filter)

lemma body_from_wf: "json_read j \<Longrightarrow> body_from t j = Some b \<Longrightarrow> body_wf b"
  by (cases t)
     (auto intro: auth_from_wf prompt_from_wf reply_from_wf presence_from_wf query_ok_from_wf)

lemma encode_decode:
  assumes "envelope_wf e"
    and "\<And>j. envelope_json e = Some j \<Longrightarrow> jl_from_str lib (jl_to_string lib j) = Inr (canon j)"
  shows "\<exists>raw. encode lib e = Some raw \<and> decode lib raw = Inr e"
proof -
  obtain b where b: "body_json (env_body e) = Some b"
      "body_from (body_type (env_body e)) (canon b) = Some (env_body e)"
    using body_roundtrip assms(1) by (auto simp: envelope_wf_def)
  define ms where "ms = [(''v'', Some (u32_json (env_v e))),
      (''type'', Some (JString (as_wire_str (env_msg_type e)))), (''id'', Some (JString (env_id e))),
      (''ts'', Some (JString (env_ts e))), (''from'', Some (JString (env_from e))), (''body'', Some b)]"
  have js: "envelope_json e = Some (struct_json ms)"
    using b(1) by (simp add: envelope_json_def struct_json_def ms_def)
  have read: "jl_from_str lib (jl_to_string lib (struct_json ms)) = Inr (JObject (canon_members ms))"
    using assms(2) [OF js] by (simp add: canon_struct_json)
  have d: "distinct (map fst ms)" by (simp add: ms_def)
  have "frame_header (canon_members ms) (env_msg_type e) 1 (env_id e) (env_ts e) (env_from e) (canon b)"
    using assms(1)
    by (simp add: frame_header_def map_of_canon_members_struct [OF d] u32_json_def envelope_wf_def)
       (simp add: ms_def u32_json_def)
  from decode_header [OF read this] have "decode lib (jl_to_string lib (struct_json ms)) = Inr e"
    using assms(1) b(2) by (simp add: envelope_wf_def)
  then show ?thesis using js by (simp add: encode_def)
qed

section \<open>Properties\<close>

text \<open>
  C6: no frame is lost or altered in transit.  Every well-formed envelope (version 1, the body
  its type names, embedded JSON in normal form) is encodable, and decoding the printed frame
  gives back exactly that envelope, provided the JSON library reads back the tree it printed.
\<close>

theorem proto_roundtrip:
  assumes "envelope_wf e"
    and "\<And>j. envelope_json e = Some j \<Longrightarrow> jl_from_str lib (jl_to_string lib j) = Inr (canon j)"
  shows "\<exists>raw. encode lib e = Some raw \<and> decode lib raw = Inr e"
  using encode_decode [OF assms] .

definition demo_prompt :: envelope where
  "demo_prompt =
     \<lparr>env_v = 1, env_msg_type = TPrompt, env_id = ''01J'', env_ts = ''2026-01-01T00:00:00Z'',
      env_from = ''server'',
      env_body = BPrompt \<lparr>pr_session = ''alpha'', pr_text = ''hi'', pr_meta = None\<rparr>\<rparr>"

text \<open>A library that knows one frame, for evaluating theorems at a concrete input.\<close>

definition demo_lib :: "json \<Rightarrow> json_lib" where
  "demo_lib j =
     \<lparr>jl_from_str = (\<lambda>s. if s = ''frame'' then Inr (canon j) else Inl ''eof''),
      jl_to_string = (\<lambda>_. ''frame''), jl_value_error = (\<lambda>_ _. ''bad body'')\<rparr>"

theorem proto_roundtrip_witness:
  "envelope_wf demo_prompt \<and>
   (\<exists>raw. encode (demo_lib (the (envelope_json demo_prompt))) demo_prompt = Some raw \<and>
          decode (demo_lib (the (envelope_json demo_prompt))) raw = Inr demo_prompt)"
proof -
  have wf: "envelope_wf demo_prompt" by (simp add: envelope_wf_def demo_prompt_def)
  with proto_roundtrip [OF wf, of "demo_lib (the (envelope_json demo_prompt))"]
  show ?thesis by (simp add: demo_lib_def)
qed

text \<open>
  C7: which frames are accepted and how the others are refused.  A frame decodes to an envelope
  exactly when it is an object with all six members of the right types, a known type, a version
  that is 1 after the cast to \<open>u32\<close>, and a body that fits the type; it is an unknown type exactly when
  \<open>type\<close> is a string outside the vocabulary, whatever else is wrong with it; a version error exactly
  when all six members are there, the type is known and the version is not 1 after the cast, whatever
  the body is.  Everything else is malformed.  In two places this is not what section 2 of
  \<open>docs/protocol/v1.md\<close> asks for: there a frame without \<open>v\<close> is a version error, here it is malformed
  (\<open>missing_version_is_malformed\<close>), and there a \<open>v\<close> other than 1 is one, here a \<open>v\<close> that is 1 modulo
  \<open>2 ^ 32\<close> is accepted.
\<close>

theorem decode_outcomes:
  "(decode lib raw = Inr e \<longleftrightarrow>
     (\<exists>kvs n b. jl_from_str lib raw = Inr (JObject kvs) \<and>
        frame_header kvs (env_msg_type e) n (env_id e) (env_ts e) (env_from e) b \<and>
        env_v e = 1 \<and> (ucast n :: u32) = 1 \<and> body_from (env_msg_type e) b = Some (env_body e))) \<and>
   (decode lib raw = Inl UnknownType \<longleftrightarrow>
     (\<exists>kvs s. jl_from_str lib raw = Inr (JObject kvs) \<and>
        map_of kvs ''type'' = Some (JString s) \<and> s \<notin> range as_wire_str)) \<and>
   (decode lib raw = Inl (UnsupportedVersion v) \<longleftrightarrow>
     (\<exists>kvs t n i ts fr b. jl_from_str lib raw = Inr (JObject kvs) \<and>
        frame_header kvs t n i ts fr b \<and> v = ucast n \<and> v \<noteq> 1))"
  by (intro conjI decode_Inr decode_UnknownType decode_UnsupportedVersion)

lemma missing_version_is_malformed:
  assumes "jl_from_str lib raw = Inr (JObject kvs)" and "map_of kvs ''v'' = None"
    and "map_of kvs ''type'' = Some (JString (as_wire_str t))"
  shows "decode lib raw = Inl (Malformed ''missing or non-numeric `v`'')"
  using assms by (simp add: decode_def parse_envelope_def)

text \<open>
  C27: decoding establishes the envelope invariant.  Whatever the peer sent, an envelope that
  comes out of \<open>decode\<close> has version 1, a body of the variant its type names (so the handlers'
  matches on the pair cannot disagree) and only normal-form values, which is what printing it
  again needs.
\<close>

theorem decode_establishes_wf:
  assumes "decode lib raw = Inr e" and "jl_from_str lib raw = Inr j" and "json_read j"
  shows "envelope_wf e"
proof -
  obtain p where p: "parse_envelope lib raw = Inr p" "pe_v p = 1" "try_from lib p = Inr e"
    using assms(1) by (auto simp: decode_def split: sum.splits if_splits)
  then obtain kvs n where kvs: "j = JObject kvs"
      "frame_header kvs (pe_msg_type p) n (pe_id p) (pe_ts p) (pe_from p) (pe_body p)"
    using assms(2) by (auto simp: parse_envelope_Inr)
  then have "json_read (pe_body p)" using assms(3) json_read_member by (auto simp: frame_header_def)
  with p show ?thesis
    by (auto simp: try_from_Inr envelope_wf_def body_from_type body_from_wf)
qed

definition demo_ping_members :: "(string \<times> json) list" where
  "demo_ping_members =
     [(''body'', JObject []), (''from'', JString ''tok_1''), (''id'', JString ''1''),
      (''ts'', JString ''t''), (''type'', JString ''ping''), (''v'', JPos 4294967297)]"

definition demo_ping :: envelope where
  "demo_ping =
     \<lparr>env_v = 1, env_msg_type = TPing, env_id = ''1'', env_ts = ''t'', env_from = ''tok_1'',
      env_body = BPing \<lparr>ping_hostname = None\<rparr>\<rparr>"

lemma demo_ping_canon: "canon (JObject demo_ping_members) = JObject demo_ping_members"
  by (simp add: demo_ping_members_def obj_of_def)

lemma demo_ping_header:
  "frame_header demo_ping_members TPing 4294967297 ''1'' ''t'' ''tok_1'' (JObject [])"
  by (simp add: frame_header_def demo_ping_members_def)

lemma demo_ping_decodes: "decode (demo_lib (JObject demo_ping_members)) ''frame'' = Inr demo_ping"
  by (simp add: decode_def parse_envelope_def demo_lib_def demo_ping_canon del: canon.simps)
     (simp add: demo_ping_members_def demo_ping_def from_wire_def try_from_def deserialize_value_def
        ping_from_def optional_def defaulted_def)

theorem decode_establishes_wf_witness: "envelope_wf demo_ping"
proof (rule decode_establishes_wf [OF demo_ping_decodes])
  show "jl_from_str (demo_lib (JObject demo_ping_members)) ''frame'' = Inr (JObject demo_ping_members)"
    by (simp add: demo_lib_def demo_ping_canon del: canon.simps)
  show "json_read (JObject demo_ping_members)"
    unfolding json_read_def using demo_ping_canon by (simp add: demo_ping_members_def)
qed

text \<open>
  The version gate is a gate modulo \<open>2 ^ 32\<close>.  \<open>v\<close> is read as a 64-bit number and cut to
  32 bits before the comparison, so a frame that declares, say, version \<open>4294967297\<close> is accepted
  as version 1 with everything else as sent.
\<close>

lemma version_check_truncates:
  assumes "jl_from_str lib raw = Inr (JObject kvs)" and "frame_header kvs t n i ts fr b"
    and "unat n mod 2 ^ 32 = 1" and "body_from t b = Some bd"
  shows "decode lib raw =
    Inr \<lparr>env_v = 1, env_msg_type = t, env_id = i, env_ts = ts, env_from = fr, env_body = bd\<rparr>"
proof -
  have "unat (ucast n :: u32) = unat n mod 2 ^ 32"
    by (simp add: unsigned_ucast_eq take_bit_eq_mod)
  then have "(ucast n :: u32) = 1" using assms(3) by (simp add: word_unat_eq_iff)
  with decode_header [OF assms(1,2) _ assms(4)] show ?thesis .
qed

lemma version_check_truncates_at_work:
  "map_of demo_ping_members ''v'' = Some (JPos 4294967297) \<and>
   decode (demo_lib (JObject demo_ping_members)) ''frame'' = Inr demo_ping"
proof -
  have "jl_from_str (demo_lib (JObject demo_ping_members)) ''frame'' = Inr (JObject demo_ping_members)"
    by (simp add: demo_lib_def demo_ping_canon del: canon.simps)
  from version_check_truncates [OF this demo_ping_header, of "BPing \<lparr>ping_hostname = None\<rparr>"]
  have "decode (demo_lib (JObject demo_ping_members)) ''frame'' = Inr demo_ping"
    by (simp add: demo_ping_def ping_from_def optional_def defaulted_def)
  then show ?thesis by (simp add: demo_ping_members_def)
qed

end
