(* ===== verification/Hello.thy ===== *)
theory Hello
  imports Proto Token
begin

text \<open>
  The envelope builders of \<open>src/src/wire/hello.rs\<close>.  The clock reading and the random bytes a
  builder draws are arguments: \<open>ts\<close> is what \<open>now_ts\<close> returned, \<open>i\<close> what \<open>new_id\<close> did.
\<close>

definition PROTOCOL_VERSION :: u32 where
  "PROTOCOL_VERSION = 1"

definition SERVER_FEATURES :: "string list" where
  "SERVER_FEATURES =
     [''query'', ''ping'', ''token'', ''presence'', ''roster'', ''interrupt'', ''answer'']"

definition PROTOCOL_FEATURES :: "string list" where
  "PROTOCOL_FEATURES =
     [''interrupt'', ''answer'', ''presence'', ''ping'', ''query'', ''roster'', ''token'', ''wait'']"

definition HARNESSES_KNOWN :: "string list" where
  "HARNESSES_KNOWN =
     [''opencode'', ''claude'', ''codex'', ''grok'', ''hermes'', ''pi'', ''cursor'', ''copilot'',
      ''droid'', ''kimi'', ''qwen'', ''kilo'', ''goose'']"

definition now_ts :: "string + string \<Rightarrow> string" where
  "now_ts formatted = (case formatted of Inl _ \<Rightarrow> ''1970-01-01T00:00:00Z'' | Inr s \<Rightarrow> s)"

definition new_id :: "string + bytes \<Rightarrow> int \<Rightarrow> string" where
  "new_id random unix_nanos =
     (case random of Inl _ \<Rightarrow> ''id-'' @ show_int unix_nanos | Inr buf \<Rightarrow> to_hex buf)"

definition server_hello :: "string \<Rightarrow> string \<Rightarrow> string \<Rightarrow> envelope" where
  "server_hello i ts hostname =
     \<lparr>env_v = 1, env_msg_type = THello, env_id = i, env_ts = ts, env_from = ''server'',
      env_body = BHello
        \<lparr>hb_protocol = PROTOCOL_VERSION, hb_protocol_min = PROTOCOL_VERSION,
         hb_protocol_max = PROTOCOL_VERSION, hb_role = Server, hb_hostname = hostname,
         hb_token_id = None, hb_client_id = None, hb_harnesses = [],
         hb_harnesses_known = HARNESSES_KNOWN, hb_harnesses_confirmed = [],
         hb_features = SERVER_FEATURES, hb_sessions = []\<rparr>\<rparr>"

definition new_ping_envelope :: "string \<Rightarrow> string \<Rightarrow> string \<Rightarrow> envelope" where
  "new_ping_envelope ts i server_hostname =
     \<lparr>env_v = 1, env_msg_type = TPing, env_id = i, env_ts = ts, env_from = ''server'',
      env_body = BPing \<lparr>ping_hostname = Some server_hostname\<rparr>\<rparr>"

definition new_query_envelope :: "string \<Rightarrow> string \<Rightarrow> string \<Rightarrow> string list \<Rightarrow> envelope" where
  "new_query_envelope ts i cmd args =
     \<lparr>env_v = 1, env_msg_type = TQuery, env_id = i, env_ts = ts, env_from = ''server'',
      env_body = BQuery \<lparr>qb_cmd = cmd, qb_args = args\<rparr>\<rparr>"

definition new_prompt_envelope ::
  "string \<Rightarrow> string \<Rightarrow> string \<Rightarrow> string \<Rightarrow> json option \<Rightarrow> envelope" where
  "new_prompt_envelope ts i session text meta =
     \<lparr>env_v = 1, env_msg_type = TPrompt, env_id = i, env_ts = ts, env_from = ''server'',
      env_body = BPrompt \<lparr>pr_session = session, pr_text = text, pr_meta = meta\<rparr>\<rparr>"

definition new_interrupt_envelope :: "string \<Rightarrow> string \<Rightarrow> string \<Rightarrow> envelope" where
  "new_interrupt_envelope ts i session =
     \<lparr>env_v = 1, env_msg_type = TInterrupt, env_id = i, env_ts = ts, env_from = ''server'',
      env_body = BInterrupt \<lparr>int_session = session\<rparr>\<rparr>"

definition new_answer_envelope :: "string \<Rightarrow> string \<Rightarrow> string \<Rightarrow> string \<Rightarrow> envelope" where
  "new_answer_envelope ts i session choice =
     \<lparr>env_v = 1, env_msg_type = TAnswer, env_id = i, env_ts = ts, env_from = ''server'',
      env_body = BAnswer \<lparr>ans_session = session, ans_choice = choice\<rparr>\<rparr>"

definition new_pong_envelope :: "string \<Rightarrow> string \<Rightarrow> string \<Rightarrow> envelope" where
  "new_pong_envelope ts reply_id server_hostname =
     \<lparr>env_v = 1, env_msg_type = TPong, env_id = reply_id, env_ts = ts, env_from = ''server'',
      env_body = BPong \<lparr>pong_hostname = Some server_hostname\<rparr>\<rparr>"

lemmas hello_builders =
  server_hello_def new_ping_envelope_def new_query_envelope_def new_prompt_envelope_def
  new_interrupt_envelope_def new_answer_envelope_def new_pong_envelope_def

lemma hello_builders_wf:
  "envelope_wf (server_hello i ts h)" "envelope_wf (new_ping_envelope ts i h)"
  "envelope_wf (new_query_envelope ts i cmd args)" "envelope_wf (new_interrupt_envelope ts i s)"
  "envelope_wf (new_answer_envelope ts i s ch)" "envelope_wf (new_pong_envelope ts i h)"
  by (simp_all add: hello_builders envelope_wf_def)

lemma error_envelope_wf: "envelope_wf (new_error_envelope code cmd msg i from)"
  by (simp add: new_error_envelope_def envelope_wf_def)

end
