(* ===== verification/Query.thy ===== *)
theory Query
  imports Hello
begin

text \<open>
  The query dispatcher of \<open>src/src/wire/query.rs\<close>: the \<open>status\<close>, \<open>caps\<close>, \<open>support\<close> and
  \<open>protocol\<close> answers as JSON documents.  The \<open>json!\<close> macro builds a sorted map, so its objects
  are \<open>obj_of\<close> lists; counts are \<open>usize\<close>, 64 bits.  The quoted form of a string in one error
  message (\<open>{:?}\<close>) is the argument \<open>quoted\<close>.
\<close>

record harness_confirmation =
  hc_id :: string
  hc_clients :: "string list"

definition json_object :: "(string \<times> json) list \<Rightarrow> json" where
  "json_object kvs = JObject (obj_of kvs)"

definition json_strings :: "string list \<Rightarrow> json" where
  "json_strings ss = JArray (map JString ss)"

text \<open>\<open>value[key] = v\<close> on an object.\<close>

fun json_set :: "string \<Rightarrow> json \<Rightarrow> json \<Rightarrow> json" where
  "json_set k v (JObject kvs) = JObject (obj_insert k v kvs)"
| "json_set k v j = j"

definition harness_confirmation_json :: "harness_confirmation \<Rightarrow> json" where
  "harness_confirmation_json c =
     json_object [(''id'', JString (hc_id c)), (''clients'', json_strings (hc_clients c))]"

definition error_body_of :: "string \<Rightarrow> string option \<Rightarrow> string \<Rightarrow> error_body" where
  "error_body_of code cmd message =
     \<lparr>err_code = code, err_cmd = cmd, err_message = Some message\<rparr>"

definition confirmed_hosts :: "harness_confirmation list \<Rightarrow> string \<Rightarrow> string list option" where
  "confirmed_hosts confirmed i = map_option hc_clients (find (\<lambda>c. hc_id c = i) confirmed)"

definition status_rest ::
  "string \<Rightarrow> string list \<Rightarrow> u64 \<Rightarrow> u64 \<Rightarrow> harness_confirmation list \<Rightarrow> json" where
  "status_rest hostname listening clients sessions confirmed =
     json_object
       [(''role'', JString ''server''),
        (''protocol'', u32_json PROTOCOL_VERSION),
        (''protocol_min'', u32_json PROTOCOL_VERSION),
        (''protocol_max'', u32_json PROTOCOL_VERSION),
        (''hostname'', JString hostname),
        (''listening'', json_strings listening),
        (''features'', json_strings SERVER_FEATURES),
        (''harnesses_known'', json_strings HARNESSES_KNOWN),
        (''harnesses_confirmed'', JArray (map harness_confirmation_json confirmed)),
        (''clients'', JPos clients),
        (''sessions'', JPos sessions)]"

definition status_body ::
  "string \<Rightarrow> string list \<Rightarrow> u64 \<Rightarrow> u64 \<Rightarrow> harness_confirmation list \<Rightarrow> query_ok_body" where
  "status_body hostname listening clients sessions confirmed =
     \<lparr>qok_cmd = ''status'', qok_rest = status_rest hostname listening clients sessions confirmed\<rparr>"

definition feature_entry :: "string \<Rightarrow> json" where
  "feature_entry feature =
     (let ok = feature \<in> set SERVER_FEATURES;
          entry = json_object [(''ok'', JBool ok), (''kind'', JString ''feature'')]
      in if \<not> ok then json_set ''reason'' (JString ''not implemented by this server process'') entry
         else entry)"

definition harness_entry :: "harness_confirmation list \<Rightarrow> string \<Rightarrow> json" where
  "harness_entry confirmed harness =
     (let hosts = unwrap_or (confirmed_hosts confirmed harness) [];
          ok = hosts \<noteq> [];
          entry = json_object [(''ok'', JBool ok), (''kind'', JString ''harness'')]
      in if ok then json_set ''clients'' (json_strings hosts) entry
         else json_set ''reason'' (JString ''not confirmed by any live client'') entry)"

definition caps_body ::
  "string \<Rightarrow> string list \<Rightarrow> u64 \<Rightarrow> u64 \<Rightarrow> harness_confirmation list \<Rightarrow> query_ok_body" where
  "caps_body hostname listening clients sessions confirmed =
     (let rest = status_rest hostname listening clients sessions confirmed;
          capabilities =
            foldl (\<lambda>m h. obj_insert h (harness_entry confirmed h) m)
              (foldl (\<lambda>m f. obj_insert f (feature_entry f) m) [] PROTOCOL_FEATURES)
              HARNESSES_KNOWN
      in \<lparr>qok_cmd = ''caps'', qok_rest = json_set ''capabilities'' (JObject capabilities) rest\<rparr>)"

definition support_body ::
  "string list \<Rightarrow> harness_confirmation list \<Rightarrow> error_body + query_ok_body" where
  "support_body args confirmed =
     (case args of
        [] \<Rightarrow> Inl (error_body_of CODE_UNKNOWN_FEATURE (Some ''support'')
                   ''support requires a feature or harness id'')
      | feature # _ \<Rightarrow>
          if feature \<in> set SERVER_FEATURES then
            Inr \<lparr>qok_cmd = ''support'', qok_rest = json_object
              [(''args'', json_strings [feature]), (''ok'', JBool True),
               (''feature'', JString feature), (''kind'', JString ''feature''),
               (''how'', JString ''implemented by this server process'')]\<rparr>
          else if feature \<in> set PROTOCOL_FEATURES then
            Inr \<lparr>qok_cmd = ''support'', qok_rest = json_object
              [(''args'', json_strings [feature]), (''ok'', JBool False),
               (''feature'', JString feature), (''kind'', JString ''feature''),
               (''reason'', JString ''not implemented by this server process'')]\<rparr>
          else if feature \<in> set HARNESSES_KNOWN then
            let hosts = unwrap_or (confirmed_hosts confirmed feature) [];
                ok = hosts \<noteq> [];
                rest = json_object
                  [(''args'', json_strings [feature]), (''ok'', JBool ok),
                   (''feature'', JString feature), (''kind'', JString ''harness'')]
            in Inr \<lparr>qok_cmd = ''support'', qok_rest =
                 (if ok then json_set ''clients'' (json_strings hosts)
                               (json_set ''how'' (JString ''confirmed by a live client'') rest)
                  else json_set ''reason'' (JString ''not confirmed by any live client'') rest)\<rparr>
          else Inl (error_body_of CODE_UNKNOWN_FEATURE (Some ''support'')
                      (''unknown feature or harness id: '' @ feature)))"

definition protocol_body :: "(string \<Rightarrow> string) \<Rightarrow> string list \<Rightarrow> error_body + query_ok_body" where
  "protocol_body quoted args =
     (case args of
        [] \<Rightarrow>
          Inr \<lparr>qok_cmd = ''protocol'', qok_rest = json_object
            [(''session'', u32_json PROTOCOL_VERSION), (''min'', u32_json PROTOCOL_VERSION),
             (''max'', u32_json PROTOCOL_VERSION)]\<rparr>
      | raw # _ \<Rightarrow>
          (case parse_unsigned 32 raw of
             Some n \<Rightarrow>
               if 1 \<le> n then
                 let asked = of_nat n :: u32;
                     ok = PROTOCOL_VERSION \<le> asked \<and> asked \<le> PROTOCOL_VERSION
                 in Inr \<lparr>qok_cmd = ''protocol'', qok_rest = json_object
                      [(''args'', json_strings [raw]), (''ok'', JBool ok), (''asked'', u32_json asked),
                       (''session'', u32_json PROTOCOL_VERSION), (''min'', u32_json PROTOCOL_VERSION),
                       (''max'', u32_json PROTOCOL_VERSION)]\<rparr>
               else Inl (error_body_of CODE_UNKNOWN_FEATURE (Some ''protocol'')
                           (''protocol version must be a positive integer, got '' @ quoted raw))
           | None \<Rightarrow>
               Inl (error_body_of CODE_UNKNOWN_FEATURE (Some ''protocol'')
                      (''protocol version must be a positive integer, got '' @ quoted raw))))"

definition dispatch ::
  "(string \<Rightarrow> string) \<Rightarrow> string \<Rightarrow> string list \<Rightarrow> string \<Rightarrow> string list \<Rightarrow> u64 \<Rightarrow> u64
   \<Rightarrow> harness_confirmation list \<Rightarrow> error_body + query_ok_body" where
  "dispatch quoted cmd args hostname listening clients sessions confirmed =
     (if cmd = ''status'' then Inr (status_body hostname listening clients sessions confirmed)
      else if cmd = ''caps'' then Inr (caps_body hostname listening clients sessions confirmed)
      else if cmd = ''support'' then support_body args confirmed
      else if cmd = ''protocol'' then protocol_body quoted args
      else Inl (error_body_of CODE_UNKNOWN_CMD (Some cmd) (''unknown query cmd: '' @ cmd)))"

section \<open>Lemmas\<close>

text \<open>Documents built by the macro are already in the library's normal form.\<close>

definition tidy :: "json \<Rightarrow> bool" where
  "tidy j \<longleftrightarrow> canon j = j"

lemma tidy_simps [simp]:
  "tidy JNull" "tidy (JBool b)" "tidy (JPos n)" "tidy (JString s)" "tidy (u32_json v)"
  "tidy (json_strings ss)"
  by (simp_all add: tidy_def u32_json_def json_strings_def)

lemma tidy_array [simp]: "tidy (JArray js) \<longleftrightarrow> list_all tidy js"
  by (induction js) (auto simp: tidy_def)

lemma tidy_sorted_object:
  "sorted_wrt (<) (map fst kvs) \<Longrightarrow> list_all (tidy \<circ> snd) kvs \<Longrightarrow> tidy (JObject kvs)"
proof -
  assume "list_all (tidy \<circ> snd) kvs"
  then have "map (\<lambda>(k, v). (k, canon v)) kvs = kvs"
    by (induction kvs) (auto simp: tidy_def)
  moreover assume "sorted_wrt (<) (map fst kvs)"
  ultimately show ?thesis by (simp add: tidy_def obj_of_sorted)
qed

lemma set_obj_insert: "set (obj_insert k v m) \<subseteq> insert (k, v) (set m)"
  by (induction k v m rule: obj_insert.induct) auto

lemma values_obj_insert: "P v \<Longrightarrow> list_all (P \<circ> snd) m \<Longrightarrow> list_all (P \<circ> snd) (obj_insert k v m)"
  using set_obj_insert [of k v m] by (fastforce simp: list_all_iff)

lemma values_obj_of: "list_all (P \<circ> snd) kvs \<Longrightarrow> list_all (P \<circ> snd) (obj_of kvs)"
proof -
  have "list_all (P \<circ> snd) m \<Longrightarrow> list_all (P \<circ> snd) kvs \<Longrightarrow>
        list_all (P \<circ> snd) (foldl (\<lambda>m (k, v). obj_insert k v m) m kvs)" for m
    by (induction kvs arbitrary: m) (auto simp: values_obj_insert)
  then show "list_all (P \<circ> snd) kvs \<Longrightarrow> ?thesis" by (simp add: obj_of_def)
qed

lemma tidy_json_object [simp]: "list_all (tidy \<circ> snd) kvs \<Longrightarrow> tidy (json_object kvs)"
  unfolding json_object_def by (intro tidy_sorted_object sorted_obj_of values_obj_of)

lemma tidy_members: "tidy (JObject kvs) \<Longrightarrow> list_all (tidy \<circ> snd) kvs"
proof -
  assume t: "tidy (JObject kvs)"
  then have "distinct (map fst kvs)"
    by (intro sorted_keys_distinct canon_object_sorted) (simp add: tidy_def)
  with t show ?thesis
    by (auto simp: tidy_def list_all_iff intro!: canon_object_member [of kvs] simp del: canon.simps)
qed

lemma tidy_json_set [simp]: "tidy v \<Longrightarrow> tidy j \<Longrightarrow> tidy (json_set k v j)"
proof (cases j)
  case (JObject kvs)
  assume "tidy v" "tidy j"
  then show ?thesis
    using JObject tidy_members [of kvs] canon_object_sorted [of kvs]
    by (auto simp: tidy_def [of "JObject kvs"] simp del: canon.simps
          intro!: tidy_sorted_object sorted_obj_insert values_obj_insert)
qed auto

lemma json_get_object: "distinct (map fst kvs) \<Longrightarrow> json_get (json_object kvs) k = map_of kvs k"
  by (simp add: json_object_def map_of_rev_distinct)

fun is_object :: "json \<Rightarrow> bool" where
  "is_object (JObject _) = True"
| "is_object _ = False"

lemma is_object_simps [simp]:
  "is_object (json_object kvs)" "is_object (json_set k v j) = is_object j"
  by (simp add: json_object_def, cases j) simp_all

lemma query_ok_wf_intro:
  "tidy (qok_rest b) \<Longrightarrow> is_object (qok_rest b) \<Longrightarrow> json_get (qok_rest b) ''cmd'' = None \<Longrightarrow> query_ok_wf b"
  by (cases "qok_rest b") (auto simp: query_ok_wf_def tidy_def map_of_eq_None_iff simp del: canon.simps)

lemma json_get_set_object: "is_object j \<Longrightarrow>
  json_get (json_set k v j) k' = (if k' = k then Some v else json_get j k')"
  by (cases j) auto

lemma tidy_confirmation [simp]: "tidy (harness_confirmation_json c)"
  by (simp add: harness_confirmation_json_def)

lemma status_rest_doc [simp]:
  "tidy (status_rest h ls n m cf)" "is_object (status_rest h ls n m cf)"
  "json_get (status_rest h ls n m cf) ''cmd'' = None"
  by (simp_all add: status_rest_def json_get_object list_all_iff)

lemma feature_entry_doc [simp]: "tidy (feature_entry f)"
  by (simp add: feature_entry_def Let_def)

lemma harness_entry_doc [simp]: "tidy (harness_entry cf h)"
  by (simp add: harness_entry_def Let_def)

text \<open>The capability map, as one list of entries.\<close>

definition capability_entries :: "harness_confirmation list \<Rightarrow> (string \<times> json) list" where
  "capability_entries confirmed =
     map (\<lambda>f. (f, feature_entry f)) PROTOCOL_FEATURES @
     map (\<lambda>h. (h, harness_entry confirmed h)) HARNESSES_KNOWN"

lemma foldl_obj_insert_map:
  "foldl (\<lambda>m x. obj_insert x (f x) m) m xs =
   foldl (\<lambda>m (k, v). obj_insert k v m) m (map (\<lambda>x. (x, f x)) xs)"
  by (induction xs arbitrary: m) simp_all

lemma caps_body_rest:
  "qok_rest (caps_body h ls n m cf) =
     json_set ''capabilities'' (json_object (capability_entries cf)) (status_rest h ls n m cf)"
  by (simp add: caps_body_def Let_def json_object_def obj_of_def capability_entries_def
        foldl_obj_insert_map)

lemma vocabulary_distinct: "distinct (PROTOCOL_FEATURES @ HARNESSES_KNOWN)"
  by (simp add: PROTOCOL_FEATURES_def HARNESSES_KNOWN_def)

lemma server_features_subset: "set SERVER_FEATURES \<subseteq> set PROTOCOL_FEATURES"
  by (simp add: SERVER_FEATURES_def PROTOCOL_FEATURES_def)

lemma map_of_mapped: "map_of (map (\<lambda>x. (x, f x)) xs) k = (if k \<in> set xs then Some (f k) else None)"
  by (induction xs) auto

lemma capability_lookup:
  "json_get (json_object (capability_entries cf)) f =
     (if f \<in> set PROTOCOL_FEATURES then Some (feature_entry f)
      else if f \<in> set HARNESSES_KNOWN then Some (harness_entry cf f) else None)"
proof -
  have keys: "map fst (capability_entries cf) = PROTOCOL_FEATURES @ HARNESSES_KNOWN"
    by (simp add: capability_entries_def comp_def)
  have "f \<notin> set HARNESSES_KNOWN" if "f \<in> set PROTOCOL_FEATURES"
    using vocabulary_distinct that by auto
  then show ?thesis
    by (subst json_get_object, simp only: keys vocabulary_distinct)
       (auto simp: capability_entries_def map_of_mapped map_add_def)
qed

lemma tidy_capabilities [simp]: "tidy (json_object (capability_entries cf))"
  by (rule tidy_json_object) (auto simp: capability_entries_def list_all_iff)

lemma status_body_sendable: "query_ok_wf (status_body h ls n m cf)"
  by (intro query_ok_wf_intro) (simp_all add: status_body_def)

lemma caps_body_sendable: "query_ok_wf (caps_body h ls n m cf)"
  by (intro query_ok_wf_intro) (simp_all add: caps_body_rest json_get_set_object)

lemma support_body_outcome:
  "case support_body args confirmed of
     Inr b \<Rightarrow> qok_cmd b = ''support'' \<and> query_ok_wf b
   | Inl e \<Rightarrow> err_cmd e = Some ''support'' \<and> err_code e = CODE_UNKNOWN_FEATURE \<and>
       (case args of [] \<Rightarrow> True | f # _ \<Rightarrow> f \<notin> set PROTOCOL_FEATURES \<union> set HARNESSES_KNOWN)"
  by (cases args)
     (auto simp: support_body_def error_body_of_def Let_def json_get_object json_get_set_object
        intro!: query_ok_wf_intro)

lemma protocol_body_outcome:
  "case protocol_body quoted args of
     Inr b \<Rightarrow> qok_cmd b = ''protocol'' \<and> query_ok_wf b
   | Inl e \<Rightarrow> err_cmd e = Some ''protocol'' \<and> err_code e = CODE_UNKNOWN_FEATURE \<and>
       (case args of [] \<Rightarrow> False | raw # _ \<Rightarrow>
          (case parse_unsigned 32 raw of None \<Rightarrow> True | Some n \<Rightarrow> n = 0))"
  by (cases args)
     (auto simp: protocol_body_def error_body_of_def Let_def json_get_object
        intro!: query_ok_wf_intro split: option.splits)

lemma body_cmd:
  "qok_cmd (status_body h ls n m cf) = ''status''" "qok_cmd (caps_body h ls n m cf) = ''caps''"
  by (simp_all add: status_body_def caps_body_def Let_def)

lemma query_ok_wf_encodes: "query_ok_wf b \<Longrightarrow> \<exists>j. query_ok_json b = Some j"
  using query_ok_roundtrip by fastforce

lemma dispatch_wf: "dispatch quoted cmd args h ls n m cf = Inr b \<Longrightarrow> query_ok_wf b"
  using status_body_sendable caps_body_sendable
    support_body_outcome [of args cf] protocol_body_outcome [of args quoted]
  by (auto simp: dispatch_def split: if_splits)

section \<open>Properties\<close>

text \<open>
  Every answer can be sent.  Whatever is asked, a successful answer names the command it
  answers, is an object with no second \<open>cmd\<close>, and is in normal form: so encoding the \<open>query_ok\<close>
  cannot fail (which the callers rely on with \<open>expect\<close>) and the peer reads exactly this document.
  The only commands that fail are unknown ones, unknown or missing support ids, and malformed
  protocol versions, each with the documented code.
\<close>

lemma query_dispatch_sendable:
  "case dispatch quoted cmd args hostname listening clients sessions confirmed of
     Inr b \<Rightarrow> qok_cmd b = cmd \<and> query_ok_wf b \<and> query_ok_json b \<noteq> None
   | Inl e \<Rightarrow> err_cmd e = Some cmd \<and>
       (if cmd \<in> {''status'', ''caps''} then False
        else if cmd = ''support'' then err_code e = CODE_UNKNOWN_FEATURE \<and>
          (case args of [] \<Rightarrow> True | f # _ \<Rightarrow> f \<notin> set PROTOCOL_FEATURES \<union> set HARNESSES_KNOWN)
        else if cmd = ''protocol'' then err_code e = CODE_UNKNOWN_FEATURE \<and>
          (case args of [] \<Rightarrow> False | raw # _ \<Rightarrow>
             (case parse_unsigned 32 raw of None \<Rightarrow> True | Some n \<Rightarrow> n = 0))
        else err_code e = CODE_UNKNOWN_CMD)"
  using status_body_sendable caps_body_sendable
    support_body_outcome [of args confirmed] protocol_body_outcome [of args quoted]
  by (auto simp: dispatch_def query_ok_wf_encodes error_body_of_def body_cmd split: sum.splits)

text \<open>
  C36: \<open>caps\<close> and \<open>support\<close> never disagree, and neither over-promises.  For every id of the v1
  vocabulary the capability map has the same verdict as asking \<open>support\<close> for it; a protocol
  feature is supported exactly when this server implements it, a harness exactly when a live
  client confirmed it.  Ids outside the vocabulary are in neither.
\<close>

theorem query_caps_agrees_with_support:
  "(case support_body [f] confirmed of
      Inl e \<Rightarrow> json_get (the (json_get (qok_rest (caps_body h ls n m confirmed)) ''capabilities'')) f = None
    | Inr b \<Rightarrow> (\<exists>entry. json_get (the (json_get (qok_rest (caps_body h ls n m confirmed)) ''capabilities'')) f
                  = Some entry \<and>
         json_get entry ''ok'' = json_get (qok_rest b) ''ok'' \<and>
         json_get entry ''kind'' = json_get (qok_rest b) ''kind'' \<and>
         json_get (qok_rest b) ''ok'' = Some (JBool
           (f \<in> set SERVER_FEATURES \<or>
            f \<in> set HARNESSES_KNOWN \<and> unwrap_or (confirmed_hosts confirmed f) [] \<noteq> []))))"
proof -
  have caps: "the (json_get (qok_rest (caps_body h ls n m confirmed)) ''capabilities'') =
      json_object (capability_entries confirmed)"
    by (simp add: caps_body_rest json_get_set_object)
  have disj: "f \<in> set PROTOCOL_FEATURES \<Longrightarrow> f \<notin> set HARNESSES_KNOWN"
    using vocabulary_distinct by auto
  show ?thesis
    unfolding caps capability_lookup using disj server_features_subset
    by (auto simp: support_body_def feature_entry_def harness_entry_def Let_def json_get_object
          json_get_set_object)
qed

text \<open>
  \<open>protocol <n>\<close> answers \<open>ok\<close> exactly for version 1, for every positive 32-bit number it is
  asked about, and echoes the number asked.
\<close>

lemma query_protocol_range:
  assumes "0 < n" and "n < 2 ^ 32"
  shows "\<exists>b. protocol_body quoted [show_nat n] = Inr b \<and>
           json_get (qok_rest b) ''ok'' = Some (JBool (n = 1)) \<and>
           json_get (qok_rest b) ''asked'' = Some (JPos (of_nat n))"
proof -
  have p: "parse_unsigned 32 (show_nat n) = Some n" using assms by (intro parse_unsigned_show_nat) simp
  have u: "unat (of_nat n :: u32) = n" using assms(2) by (simp add: unat_of_nat)
  then have "(1 \<le> (of_nat n :: u32) \<and> (of_nat n :: u32) \<le> 1) = (n = 1)"
    by (auto simp: word_le_nat_alt)
  moreover have "(ucast (of_nat n :: u32) :: u64) = of_nat n"
    using u by (metis of_nat_unat)
  ultimately show ?thesis
    using p assms by (simp add: protocol_body_def PROTOCOL_VERSION_def Let_def json_get_object u32_json_def)
qed

theorem query_protocol_range_witness:
  "\<exists>b. protocol_body (\<lambda>s. s) [show_nat 2] = Inr b \<and>
     json_get (qok_rest b) ''ok'' = Some (JBool False) \<and>
     json_get (qok_rest b) ''asked'' = Some (JPos 2)"
  using query_protocol_range [of 2 "\<lambda>s. s"] by simp

end
