(* ===== verification/Registry.thy ===== *)
theory Registry
  imports Query
begin

text \<open>
  The live-connection registry of \<open>src/src/wire/registry.rs\<close>.

  \<^item> The two mutex-protected tables are the record \<open>registry\<close>.  Every lock section of the source
    is one function from the old to the new table.
  \<^item> Channels are names: \<open>en_out\<close> names a connection's outbound channel, a pending request holds
    the name of the waiter its answer wakes.  What a lock section does to channels is its list of
    effects, in order: a frame pushed to an outbound channel, that channel's sender dropped, a
    waiter signalled, a waiter's sender dropped.  Overwriting or removing a table entry drops the
    senders in it, as in Rust.
  \<^item> An async method is cut at its await point.  What other tasks do to the table between its two
    first lock sections, while it waits and before its last lock section are the arguments
    \<open>other1\<close>, \<open>other2\<close> and \<open>other3\<close>; whether the
    send succeeded and what the wait returned are arguments too.  The debug log lines are not
    modelled.
\<close>

section \<open>Constants and outcomes\<close>

definition PING_TIMEOUT :: duration where
  "PING_TIMEOUT = from_secs 3"

definition QUERY_TIMEOUT :: duration where
  "QUERY_TIMEOUT = PING_TIMEOUT"

definition PROMPT_TIMEOUT :: duration where
  "PROMPT_TIMEOUT = from_secs 120"

definition INTERRUPT_ACK_TIMEOUT :: duration where
  "INTERRUPT_ACK_TIMEOUT = from_secs 3"

definition ANSWER_ACK_TIMEOUT :: duration where
  "ANSWER_ACK_TIMEOUT = INTERRUPT_ACK_TIMEOUT"

datatype query_outcome = QueryOk query_ok_body | QueryErr error_body | QueryDisconnected

datatype prompt_outcome =
    PromptDone string "int option"
  | PromptErr error_body
  | PromptDisconnected
  | PromptCancelled

datatype prompt_event = EvReply reply_body | EvErr error_body | EvCancelled

datatype interrupt_outcome = InterruptAcked | InterruptTimedOut | InterruptDisconnected

datatype answer_outcome =
    AnswerAcked
  | AnswerErr error_body
  | AnswerTimedOut
  | AnswerDisconnected

datatype pending_query_reply = ReplyOk query_ok_body | ReplyErr error_body

datatype pending_answer_reply = AnsAcked | AnsErr error_body

text \<open>What a bounded wait on a receiver returned: a value, a closed channel, or the timeout.\<close>

datatype 'a wait_result = Got 'a | Closed | TimedOut

type_synonym channel = nat
type_synonym waiter = nat

datatype signal =
    SigRtt duration
  | SigQuery pending_query_reply
  | SigPrompt prompt_event
  | SigAck
  | SigAnswer pending_answer_reply

datatype effect =
    SendOut channel envelope
  | CloseOut channel
  | Signal waiter signal
  | DropWaiter waiter

section \<open>State\<close>

record entry =
  en_hostname :: string
  en_client_id :: string
  en_out :: channel
  en_pending :: "(string, instant \<times> waiter) hashmap"
  en_queries :: "(string, waiter) hashmap"
  en_prompts :: "(string, string \<times> waiter) hashmap"
  en_interrupts :: "(string, waiter) hashmap"
  en_answers :: "(string, waiter) hashmap"

record registry =
  rg_entries :: "(string, entry) hashmap"
  rg_confirmed :: "(string, string list) hashmap"

definition registry_new :: registry where
  "registry_new = \<lparr>rg_entries = [], rg_confirmed = []\<rparr>"

text \<open>Dropping an entry drops its outbound sender and every pending waiter's sender.\<close>

definition entry_waiters :: "entry \<Rightarrow> waiter list" where
  "entry_waiters e =
     map (snd \<circ> snd) (en_pending e) @ map snd (en_queries e) @ map (snd \<circ> snd) (en_prompts e) @
     map snd (en_interrupts e) @ map snd (en_answers e)"

definition drop_entry :: "entry \<Rightarrow> effect list" where
  "drop_entry e = CloseOut (en_out e) # map DropWaiter (entry_waiters e)"

definition drop_old :: "waiter option \<Rightarrow> effect list" where
  "drop_old old = (case old of None \<Rightarrow> [] | Some w \<Rightarrow> [DropWaiter w])"

definition put_entry :: "string \<Rightarrow> entry \<Rightarrow> registry \<Rightarrow> registry" where
  "put_entry token e r = r\<lparr>rg_entries := hm_insert token e (rg_entries r)\<rparr>"

section \<open>Connections\<close>

definition registry_insert ::
  "string \<Rightarrow> string \<Rightarrow> string \<Rightarrow> channel \<Rightarrow> registry \<Rightarrow> registry \<times> effect list" where
  "registry_insert token client_id hostname out r =
     (let e = \<lparr>en_hostname = hostname, en_client_id = client_id, en_out = out, en_pending = [],
               en_queries = [], en_prompts = [], en_interrupts = [], en_answers = []\<rparr>;
          notice = error_with_message CODE_SESSION_SUPERSEDED
                     ''a new connection authenticated for this token; closing'' [] ''server''
      in (put_entry token e r,
          case hm_get (rg_entries r) token of
            None \<Rightarrow> []
          | Some previous \<Rightarrow> SendOut (en_out previous) notice # drop_entry previous))"

definition set_hostname :: "string \<Rightarrow> string \<Rightarrow> registry \<Rightarrow> registry" where
  "set_hostname token hostname r =
     (case hm_get (rg_entries r) token of
        None \<Rightarrow> r
      | Some e \<Rightarrow> put_entry token (e\<lparr>en_hostname := hostname\<rparr>) r)"

definition registry_remove :: "string \<Rightarrow> registry \<Rightarrow> bool \<times> registry \<times> effect list" where
  "registry_remove token r =
     (case hm_get (rg_entries r) token of
        None \<Rightarrow> (False, r, [])
      | Some e \<Rightarrow> (True, r\<lparr>rg_entries := hm_remove token (rg_entries r)\<rparr>, drop_entry e))"

definition registry_len :: "registry \<Rightarrow> nat" where
  "registry_len r = length (rg_entries r)"

definition registry_is_empty :: "registry \<Rightarrow> bool" where
  "registry_is_empty r \<longleftrightarrow> registry_len r = 0"

definition registry_snapshot :: "registry \<Rightarrow> (string \<times> string \<times> string) list" where
  "registry_snapshot r = map (\<lambda>(t, e). (t, en_hostname e, en_client_id e)) (rg_entries r)"

definition resolve_target :: "string \<Rightarrow> registry \<Rightarrow> string option" where
  "resolve_target i r =
     (if hm_get (rg_entries r) i \<noteq> None then Some i
      else map_option fst (find (\<lambda>(t, e). en_hostname e = i \<or> en_client_id e = i) (rg_entries r)))"

definition hostname_of :: "string \<Rightarrow> registry \<Rightarrow> string option" where
  "hostname_of token r = map_option en_hostname (hm_get (rg_entries r) token)"

definition record_harness_confirmed :: "string \<Rightarrow> string \<Rightarrow> registry \<Rightarrow> registry" where
  "record_harness_confirmed harness hostname r =
     r\<lparr>rg_confirmed := hm_insert harness
         (List.insert hostname (unwrap_or (hm_get (rg_confirmed r) harness) [])) (rg_confirmed r)\<rparr>"

definition confirmed_harnesses_snapshot :: "registry \<Rightarrow> harness_confirmation list" where
  "confirmed_harnesses_snapshot r =
     sort_key hc_id (map (\<lambda>(i, hosts). \<lparr>hc_id = i, hc_clients = sort hosts\<rparr>) (rg_confirmed r))"

section \<open>Pending requests\<close>

subsection \<open>Ping\<close>

definition register_ping ::
  "instant \<Rightarrow> string \<Rightarrow> string \<Rightarrow> waiter \<Rightarrow> registry \<Rightarrow> (registry \<times> effect list) option" where
  "register_ping now token i w r =
     (case hm_get (rg_entries r) token of
        None \<Rightarrow> None
      | Some e \<Rightarrow>
          Some (put_entry token (e\<lparr>en_pending := hm_insert i (now, w) (en_pending e)\<rparr>) r,
                drop_old (map_option snd (hm_get (en_pending e) i))))"

definition resolve_pong :: "instant \<Rightarrow> string \<Rightarrow> string \<Rightarrow> registry \<Rightarrow> registry \<times> effect list" where
  "resolve_pong now token reply_to r =
     (case hm_get (rg_entries r) token of
        None \<Rightarrow> (r, [])
      | Some e \<Rightarrow>
          (case hm_get (en_pending e) reply_to of
             None \<Rightarrow> (r, [])
           | Some (sent_at, w) \<Rightarrow>
               (put_entry token (e\<lparr>en_pending := hm_remove reply_to (en_pending e)\<rparr>) r,
                [Signal w (SigRtt (now - sent_at))])))"

definition forget_pending :: "string \<Rightarrow> string \<Rightarrow> registry \<Rightarrow> registry \<times> effect list" where
  "forget_pending token i r =
     (case hm_get (rg_entries r) token of
        None \<Rightarrow> (r, [])
      | Some e \<Rightarrow>
          (put_entry token (e\<lparr>en_pending := hm_remove i (en_pending e)\<rparr>) r,
           drop_old (map_option snd (hm_get (en_pending e) i))))"

definition ping ::
  "string \<Rightarrow> instant \<Rightarrow> waiter \<Rightarrow> (registry \<Rightarrow> registry) \<Rightarrow> bool \<Rightarrow> (registry \<Rightarrow> registry)
   \<Rightarrow> duration wait_result \<Rightarrow> string \<Rightarrow> string \<Rightarrow> string \<Rightarrow> registry
   \<Rightarrow> connection_status \<times> registry \<times> effect list" where
  "ping ts now w other1 send_ok other2 waited token ping_id server_hostname r =
     (case hm_get (rg_entries r) token of
        None \<Rightarrow> (StatusDisconnected, r, [])
      | Some e \<Rightarrow>
          (case register_ping now token ping_id w (other1 r) of
             None \<Rightarrow> (StatusDisconnected, other1 r, [])
           | Some (r2, drops) \<Rightarrow>
               if \<not> send_ok then
                 (case forget_pending token ping_id r2 of (r3, fx) \<Rightarrow>
                    (StatusDisconnected, r3, drops @ fx))
               else
                 let sent = drops @ [SendOut (en_out e) (new_ping_envelope ts ping_id server_hostname)]
                 in (case waited of
                       Got rtt \<Rightarrow>
                         (StatusConnected (en_hostname e) (of_nat (as_millis rtt)), other2 r2, sent)
                     | _ \<Rightarrow>
                         (case forget_pending token ping_id (other2 r2) of (r3, fx) \<Rightarrow>
                            (StatusDisconnected, r3, sent @ fx)))))"

subsection \<open>Query\<close>

definition register_query ::
  "string \<Rightarrow> string \<Rightarrow> waiter \<Rightarrow> registry \<Rightarrow> (registry \<times> effect list) option" where
  "register_query token i w r =
     (case hm_get (rg_entries r) token of
        None \<Rightarrow> None
      | Some e \<Rightarrow>
          Some (put_entry token (e\<lparr>en_queries := hm_insert i w (en_queries e)\<rparr>) r,
                drop_old (hm_get (en_queries e) i)))"

definition resolve_query ::
  "pending_query_reply \<Rightarrow> string \<Rightarrow> string \<Rightarrow> registry \<Rightarrow> registry \<times> effect list" where
  "resolve_query reply token reply_to r =
     (case hm_get (rg_entries r) token of
        None \<Rightarrow> (r, [])
      | Some e \<Rightarrow>
          (case hm_get (en_queries e) reply_to of
             None \<Rightarrow> (r, [])
           | Some w \<Rightarrow>
               (put_entry token (e\<lparr>en_queries := hm_remove reply_to (en_queries e)\<rparr>) r,
                [Signal w (SigQuery reply)])))"

definition resolve_query_ok ::
  "string \<Rightarrow> string \<Rightarrow> query_ok_body \<Rightarrow> registry \<Rightarrow> registry \<times> effect list" where
  "resolve_query_ok token reply_to b r = resolve_query (ReplyOk b) token reply_to r"

definition resolve_query_err ::
  "string \<Rightarrow> string \<Rightarrow> error_body \<Rightarrow> registry \<Rightarrow> registry \<times> effect list" where
  "resolve_query_err token reply_to b r = resolve_query (ReplyErr b) token reply_to r"

definition forget_pending_query :: "string \<Rightarrow> string \<Rightarrow> registry \<Rightarrow> registry \<times> effect list" where
  "forget_pending_query token i r =
     (case hm_get (rg_entries r) token of
        None \<Rightarrow> (r, [])
      | Some e \<Rightarrow>
          (put_entry token (e\<lparr>en_queries := hm_remove i (en_queries e)\<rparr>) r,
           drop_old (hm_get (en_queries e) i)))"

definition registry_query ::
  "string \<Rightarrow> waiter \<Rightarrow> (registry \<Rightarrow> registry) \<Rightarrow> bool \<Rightarrow> (registry \<Rightarrow> registry)
   \<Rightarrow> pending_query_reply wait_result \<Rightarrow> string \<Rightarrow> string \<Rightarrow> string list \<Rightarrow> string \<Rightarrow> registry
   \<Rightarrow> query_outcome \<times> registry \<times> effect list" where
  "registry_query ts w other1 send_ok other2 waited token cmd args query_id r =
     (case hm_get (rg_entries r) token of
        None \<Rightarrow> (QueryDisconnected, r, [])
      | Some e \<Rightarrow>
          (case register_query token query_id w (other1 r) of
             None \<Rightarrow> (QueryDisconnected, other1 r, [])
           | Some (r2, drops) \<Rightarrow>
               if \<not> send_ok then
                 (case forget_pending_query token query_id r2 of (r3, fx) \<Rightarrow>
                    (QueryDisconnected, r3, drops @ fx))
               else
                 let sent = drops @ [SendOut (en_out e) (new_query_envelope ts query_id cmd args)]
                 in (case waited of
                       Got (ReplyOk b) \<Rightarrow> (QueryOk b, other2 r2, sent)
                     | Got (ReplyErr b) \<Rightarrow> (QueryErr b, other2 r2, sent)
                     | _ \<Rightarrow>
                         (case forget_pending_query token query_id (other2 r2) of (r3, fx) \<Rightarrow>
                            (QueryDisconnected, r3, sent @ fx)))))"

subsection \<open>Prompt\<close>

definition register_prompt ::
  "string \<Rightarrow> string \<Rightarrow> string \<Rightarrow> waiter \<Rightarrow> registry \<Rightarrow> (registry \<times> effect list) option" where
  "register_prompt token i session w r =
     (case hm_get (rg_entries r) token of
        None \<Rightarrow> None
      | Some e \<Rightarrow>
          Some (put_entry token (e\<lparr>en_prompts := hm_insert i (session, w) (en_prompts e)\<rparr>) r,
                drop_old (map_option snd (hm_get (en_prompts e) i))))"

definition forget_pending_prompt :: "string \<Rightarrow> string \<Rightarrow> registry \<Rightarrow> registry \<times> effect list" where
  "forget_pending_prompt token i r =
     (case hm_get (rg_entries r) token of
        None \<Rightarrow> (r, [])
      | Some e \<Rightarrow>
          (put_entry token (e\<lparr>en_prompts := hm_remove i (en_prompts e)\<rparr>) r,
           drop_old (map_option snd (hm_get (en_prompts e) i))))"

text \<open>\<open>resolve_reply\<close> and \<open>resolve_prompt_err\<close> look the prompt up without removing it.\<close>

definition resolve_prompt ::
  "prompt_event \<Rightarrow> string \<Rightarrow> string \<Rightarrow> registry \<Rightarrow> registry \<times> effect list" where
  "resolve_prompt ev token reply_to r =
     (r, case hm_get (rg_entries r) token of
           None \<Rightarrow> []
         | Some e \<Rightarrow>
             (case hm_get (en_prompts e) reply_to of
                None \<Rightarrow> []
              | Some (session, w) \<Rightarrow> [Signal w (SigPrompt ev)]))"

definition resolve_reply ::
  "string \<Rightarrow> string \<Rightarrow> reply_body \<Rightarrow> registry \<Rightarrow> registry \<times> effect list" where
  "resolve_reply token reply_to b r = resolve_prompt (EvReply b) token reply_to r"

definition resolve_prompt_err ::
  "string \<Rightarrow> string \<Rightarrow> error_body \<Rightarrow> registry \<Rightarrow> registry \<times> effect list" where
  "resolve_prompt_err token reply_to b r = resolve_prompt (EvErr b) token reply_to r"

definition reply_pieces :: "reply_body \<Rightarrow> string list" where
  "reply_pieces b = (case rp_text b of None \<Rightarrow> [] | Some t \<Rightarrow> [t]) @ rp_chunks b"

text \<open>
  The receive loop, over what each bounded \<open>recv\<close> returned.  The list ends because every call
  returns within \<open>PROMPT_TIMEOUT\<close> and only a partial reply goes round again; an exhausted list
  stands for the timeout that must follow.
\<close>

fun prompt_loop :: "string list \<Rightarrow> prompt_event wait_result list \<Rightarrow> prompt_outcome" where
  "prompt_loop pieces [] = PromptDisconnected"
| "prompt_loop pieces (Got (EvReply b) # evs) =
     (if rp_done b then PromptDone (concat (pieces @ reply_pieces b)) (rp_exit b)
      else prompt_loop (pieces @ reply_pieces b) evs)"
| "prompt_loop pieces (Got (EvErr b) # evs) = PromptErr b"
| "prompt_loop pieces (Got EvCancelled # evs) = PromptCancelled"
| "prompt_loop pieces (_ # evs) = PromptDisconnected"

definition registry_prompt ::
  "string \<Rightarrow> waiter \<Rightarrow> (registry \<Rightarrow> registry) \<Rightarrow> bool \<Rightarrow> (registry \<Rightarrow> registry)
   \<Rightarrow> prompt_event wait_result list \<Rightarrow> string \<Rightarrow> string \<Rightarrow> string \<Rightarrow> string \<Rightarrow> json option \<Rightarrow> registry
   \<Rightarrow> prompt_outcome \<times> registry \<times> effect list" where
  "registry_prompt ts w other1 send_ok other2 received token prompt_id session text meta r =
     (case hm_get (rg_entries r) token of
        None \<Rightarrow> (PromptDisconnected, r, [])
      | Some e \<Rightarrow>
          (case register_prompt token prompt_id session w (other1 r) of
             None \<Rightarrow> (PromptDisconnected, other1 r, [])
           | Some (r2, drops) \<Rightarrow>
               if \<not> send_ok then
                 (case forget_pending_prompt token prompt_id r2 of (r3, fx) \<Rightarrow>
                    (PromptDisconnected, r3, drops @ fx))
               else
                 (case forget_pending_prompt token prompt_id (other2 r2) of (r3, fx) \<Rightarrow>
                    (prompt_loop [] received, r3,
                     drops @ [SendOut (en_out e) (new_prompt_envelope ts prompt_id session text meta)]
                       @ fx))))"

subsection \<open>Interrupt\<close>

definition register_interrupt ::
  "string \<Rightarrow> string \<Rightarrow> waiter \<Rightarrow> registry \<Rightarrow> (registry \<times> effect list) option" where
  "register_interrupt token i w r =
     (case hm_get (rg_entries r) token of
        None \<Rightarrow> None
      | Some e \<Rightarrow>
          Some (put_entry token (e\<lparr>en_interrupts := hm_insert i w (en_interrupts e)\<rparr>) r,
                drop_old (hm_get (en_interrupts e) i)))"

definition forget_pending_interrupt :: "string \<Rightarrow> string \<Rightarrow> registry \<Rightarrow> registry \<times> effect list" where
  "forget_pending_interrupt token i r =
     (case hm_get (rg_entries r) token of
        None \<Rightarrow> (r, [])
      | Some e \<Rightarrow>
          (put_entry token (e\<lparr>en_interrupts := hm_remove i (en_interrupts e)\<rparr>) r,
           drop_old (hm_get (en_interrupts e) i)))"

definition resolve_interrupt_ack :: "string \<Rightarrow> string \<Rightarrow> registry \<Rightarrow> registry \<times> effect list" where
  "resolve_interrupt_ack token of_id r =
     (case hm_get (rg_entries r) token of
        None \<Rightarrow> (r, [])
      | Some e \<Rightarrow>
          (case hm_get (en_interrupts e) of_id of
             None \<Rightarrow> (r, [])
           | Some w \<Rightarrow>
               (put_entry token (e\<lparr>en_interrupts := hm_remove of_id (en_interrupts e)\<rparr>) r,
                [Signal w SigAck])))"

definition cancel_pending_prompts_for_session ::
  "string \<Rightarrow> string \<Rightarrow> registry \<Rightarrow> effect list" where
  "cancel_pending_prompts_for_session token session r =
     (case hm_get (rg_entries r) token of
        None \<Rightarrow> []
      | Some e \<Rightarrow>
          map (\<lambda>(prompt_session, w). Signal w (SigPrompt EvCancelled))
            (filter (\<lambda>(prompt_session, w). prompt_session = session) (map snd (en_prompts e))))"

definition registry_interrupt ::
  "string \<Rightarrow> waiter \<Rightarrow> (registry \<Rightarrow> registry) \<Rightarrow> bool \<Rightarrow> (registry \<Rightarrow> registry)
   \<Rightarrow> (registry \<Rightarrow> registry) \<Rightarrow> unit wait_result \<Rightarrow> string \<Rightarrow> string \<Rightarrow> string \<Rightarrow> registry
   \<Rightarrow> interrupt_outcome \<times> registry \<times> effect list" where
  "registry_interrupt ts w other1 send_ok other2 other3 waited token interrupt_id session r =
     (case hm_get (rg_entries r) token of
        None \<Rightarrow> (InterruptDisconnected, r, [])
      | Some e \<Rightarrow>
          (case register_interrupt token interrupt_id w (other1 r) of
             None \<Rightarrow> (InterruptDisconnected, other1 r, [])
           | Some (r2, drops) \<Rightarrow>
               if \<not> send_ok then
                 (case forget_pending_interrupt token interrupt_id r2 of (r3, fx) \<Rightarrow>
                    (InterruptDisconnected, r3, drops @ fx))
               else
                 let sent = drops @ [SendOut (en_out e) (new_interrupt_envelope ts interrupt_id session)]
                 in (case waited of
                       Got _ \<Rightarrow>
                         (InterruptAcked, other2 r2,
                          sent @ cancel_pending_prompts_for_session token session (other2 r2))
                     | Closed \<Rightarrow> (InterruptDisconnected, other2 r2, sent)
                     | TimedOut \<Rightarrow>
                         (case forget_pending_interrupt token interrupt_id (other2 r2) of (r3, fx) \<Rightarrow>
                            (if hm_get (rg_entries (other3 r3)) token \<noteq> None then InterruptTimedOut
                             else InterruptDisconnected, other3 r3, sent @ fx)))))"

subsection \<open>Answer\<close>

definition register_answer ::
  "string \<Rightarrow> string \<Rightarrow> waiter \<Rightarrow> registry \<Rightarrow> (registry \<times> effect list) option" where
  "register_answer token i w r =
     (case hm_get (rg_entries r) token of
        None \<Rightarrow> None
      | Some e \<Rightarrow>
          Some (put_entry token (e\<lparr>en_answers := hm_insert i w (en_answers e)\<rparr>) r,
                drop_old (hm_get (en_answers e) i)))"

definition forget_pending_answer :: "string \<Rightarrow> string \<Rightarrow> registry \<Rightarrow> registry \<times> effect list" where
  "forget_pending_answer token i r =
     (case hm_get (rg_entries r) token of
        None \<Rightarrow> (r, [])
      | Some e \<Rightarrow>
          (put_entry token (e\<lparr>en_answers := hm_remove i (en_answers e)\<rparr>) r,
           drop_old (hm_get (en_answers e) i)))"

definition resolve_answer ::
  "pending_answer_reply \<Rightarrow> string \<Rightarrow> string \<Rightarrow> registry \<Rightarrow> registry \<times> effect list" where
  "resolve_answer reply token reply_to r =
     (case hm_get (rg_entries r) token of
        None \<Rightarrow> (r, [])
      | Some e \<Rightarrow>
          (case hm_get (en_answers e) reply_to of
             None \<Rightarrow> (r, [])
           | Some w \<Rightarrow>
               (put_entry token (e\<lparr>en_answers := hm_remove reply_to (en_answers e)\<rparr>) r,
                [Signal w (SigAnswer reply)])))"

definition resolve_answer_ack :: "string \<Rightarrow> string \<Rightarrow> registry \<Rightarrow> registry \<times> effect list" where
  "resolve_answer_ack token of_id r = resolve_answer AnsAcked token of_id r"

definition resolve_answer_err ::
  "string \<Rightarrow> string \<Rightarrow> error_body \<Rightarrow> registry \<Rightarrow> registry \<times> effect list" where
  "resolve_answer_err token reply_to b r = resolve_answer (AnsErr b) token reply_to r"

definition registry_answer ::
  "string \<Rightarrow> waiter \<Rightarrow> (registry \<Rightarrow> registry) \<Rightarrow> bool \<Rightarrow> (registry \<Rightarrow> registry)
   \<Rightarrow> (registry \<Rightarrow> registry) \<Rightarrow> pending_answer_reply wait_result \<Rightarrow> string \<Rightarrow> string \<Rightarrow> string \<Rightarrow> string \<Rightarrow> registry
   \<Rightarrow> answer_outcome \<times> registry \<times> effect list" where
  "registry_answer ts w other1 send_ok other2 other3 waited token answer_id session choice r =
     (case hm_get (rg_entries r) token of
        None \<Rightarrow> (AnswerDisconnected, r, [])
      | Some e \<Rightarrow>
          (case register_answer token answer_id w (other1 r) of
             None \<Rightarrow> (AnswerDisconnected, other1 r, [])
           | Some (r2, drops) \<Rightarrow>
               if \<not> send_ok then
                 (case forget_pending_answer token answer_id r2 of (r3, fx) \<Rightarrow>
                    (AnswerDisconnected, r3, drops @ fx))
               else
                 let sent = drops @ [SendOut (en_out e) (new_answer_envelope ts answer_id session choice)]
                 in (case waited of
                       Got AnsAcked \<Rightarrow> (AnswerAcked, other2 r2, sent)
                     | Got (AnsErr b) \<Rightarrow> (AnswerErr b, other2 r2, sent)
                     | Closed \<Rightarrow> (AnswerDisconnected, other2 r2, sent)
                     | TimedOut \<Rightarrow>
                         (case forget_pending_answer token answer_id (other2 r2) of (r3, fx) \<Rightarrow>
                            (if hm_get (rg_entries (other3 r3)) token \<noteq> None then AnswerTimedOut
                             else AnswerDisconnected, other3 r3, sent @ fx)))))"

section \<open>Histories\<close>

text \<open>Every lock section of the registry as data, so that interleavings are lists of them.\<close>

datatype request_kind = KPing | KQuery | KPrompt | KInterrupt | KAnswer

datatype reg_op =
    RegInsert string string string channel
  | RegSetHostname string string
  | RegRemove string
  | RegConfirm string string
  | RegRegister request_kind instant string string string waiter
  | RegForget request_kind string string
  | RegPong instant string string
  | RegQueryOk string string query_ok_body
  | RegQueryErr string string error_body
  | RegReply string string reply_body
  | RegPromptErr string string error_body
  | RegInterruptAck string string
  | RegAnswerAck string string
  | RegAnswerErr string string error_body
  | RegCancel string string

fun register_request ::
  "request_kind \<Rightarrow> instant \<Rightarrow> string \<Rightarrow> string \<Rightarrow> string \<Rightarrow> waiter \<Rightarrow> registry
   \<Rightarrow> (registry \<times> effect list) option" where
  "register_request KPing now t i s w r = register_ping now t i w r"
| "register_request KQuery now t i s w r = register_query t i w r"
| "register_request KPrompt now t i s w r = register_prompt t i s w r"
| "register_request KInterrupt now t i s w r = register_interrupt t i w r"
| "register_request KAnswer now t i s w r = register_answer t i w r"

fun forget_request :: "request_kind \<Rightarrow> string \<Rightarrow> string \<Rightarrow> registry \<Rightarrow> registry \<times> effect list" where
  "forget_request KPing t i r = forget_pending t i r"
| "forget_request KQuery t i r = forget_pending_query t i r"
| "forget_request KPrompt t i r = forget_pending_prompt t i r"
| "forget_request KInterrupt t i r = forget_pending_interrupt t i r"
| "forget_request KAnswer t i r = forget_pending_answer t i r"

fun reg_step :: "reg_op \<Rightarrow> registry \<Rightarrow> registry \<times> effect list" where
  "reg_step (RegInsert t c h out) r = registry_insert t c h out r"
| "reg_step (RegSetHostname t h) r = (set_hostname t h r, [])"
| "reg_step (RegRemove t) r = snd (registry_remove t r)"
| "reg_step (RegConfirm harness h) r = (record_harness_confirmed harness h r, [])"
| "reg_step (RegRegister k now t i s w) r =
     (case register_request k now t i s w r of None \<Rightarrow> (r, []) | Some x \<Rightarrow> x)"
| "reg_step (RegForget k t i) r = forget_request k t i r"
| "reg_step (RegPong now t i) r = resolve_pong now t i r"
| "reg_step (RegQueryOk t i b) r = resolve_query_ok t i b r"
| "reg_step (RegQueryErr t i b) r = resolve_query_err t i b r"
| "reg_step (RegReply t i b) r = resolve_reply t i b r"
| "reg_step (RegPromptErr t i b) r = resolve_prompt_err t i b r"
| "reg_step (RegInterruptAck t i) r = resolve_interrupt_ack t i r"
| "reg_step (RegAnswerAck t i) r = resolve_answer_ack t i r"
| "reg_step (RegAnswerErr t i b) r = resolve_answer_err t i b r"
| "reg_step (RegCancel t s) r = (r, cancel_pending_prompts_for_session t s r)"

fun reg_run :: "reg_op list \<Rightarrow> registry \<Rightarrow> registry \<times> effect list" where
  "reg_run [] r = (r, [])"
| "reg_run (op # ops) r =
     (case reg_step op r of (r1, fx1) \<Rightarrow> (case reg_run ops r1 of (r2, fx2) \<Rightarrow> (r2, fx1 @ fx2)))"

text \<open>The requests a connection has outstanding: kind, id, session (of a prompt), waiter.\<close>

fun requests :: "request_kind \<Rightarrow> entry \<Rightarrow> (string \<times> string \<times> waiter) set" where
  "requests KPing e = {(i, s, w). \<exists>at. (i, at, w) \<in> set (en_pending e)}"
| "requests KQuery e = {(i, s, w). (i, w) \<in> set (en_queries e)}"
| "requests KPrompt e = {(i, s, w). (i, s, w) \<in> set (en_prompts e)}"
| "requests KInterrupt e = {(i, s, w). (i, w) \<in> set (en_interrupts e)}"
| "requests KAnswer e = {(i, s, w). (i, w) \<in> set (en_answers e)}"

definition outstanding ::
  "registry \<Rightarrow> request_kind \<Rightarrow> string \<Rightarrow> string \<Rightarrow> string \<Rightarrow> waiter \<Rightarrow> bool" where
  "outstanding r k t i s w \<longleftrightarrow>
     (\<exists>e. hm_get (rg_entries r) t = Some e \<and> (i, s, w) \<in> requests k e)"

text \<open>
  Which incoming event answers a request of kind \<open>k\<close> on connection \<open>t\<close> with id \<open>i\<close> (for session
  \<open>s\<close>), and with what.
\<close>

fun answers :: "reg_op \<Rightarrow> request_kind \<Rightarrow> string \<Rightarrow> string \<Rightarrow> string \<Rightarrow> signal \<Rightarrow> bool" where
  "answers (RegPong now t' i') k t i s g \<longleftrightarrow> k = KPing \<and> t' = t \<and> i' = i \<and> (\<exists>d. g = SigRtt d)"
| "answers (RegQueryOk t' i' b) k t i s g \<longleftrightarrow> k = KQuery \<and> t' = t \<and> i' = i \<and> g = SigQuery (ReplyOk b)"
| "answers (RegQueryErr t' i' b) k t i s g \<longleftrightarrow> k = KQuery \<and> t' = t \<and> i' = i \<and> g = SigQuery (ReplyErr b)"
| "answers (RegReply t' i' b) k t i s g \<longleftrightarrow> k = KPrompt \<and> t' = t \<and> i' = i \<and> g = SigPrompt (EvReply b)"
| "answers (RegPromptErr t' i' b) k t i s g \<longleftrightarrow> k = KPrompt \<and> t' = t \<and> i' = i \<and> g = SigPrompt (EvErr b)"
| "answers (RegInterruptAck t' i') k t i s g \<longleftrightarrow> k = KInterrupt \<and> t' = t \<and> i' = i \<and> g = SigAck"
| "answers (RegAnswerAck t' i') k t i s g \<longleftrightarrow> k = KAnswer \<and> t' = t \<and> i' = i \<and> g = SigAnswer AnsAcked"
| "answers (RegAnswerErr t' i' b) k t i s g \<longleftrightarrow> k = KAnswer \<and> t' = t \<and> i' = i \<and> g = SigAnswer (AnsErr b)"
| "answers (RegCancel t' s') k t i s g \<longleftrightarrow> k = KPrompt \<and> t' = t \<and> s' = s \<and> g = SigPrompt EvCancelled"
| "answers _ k t i s g \<longleftrightarrow> False"

section \<open>Lemmas\<close>

lemmas reg_defs =
  registry_insert_def set_hostname_def registry_remove_def record_harness_confirmed_def
  register_ping_def resolve_pong_def forget_pending_def
  register_query_def resolve_query_def resolve_query_ok_def resolve_query_err_def
  forget_pending_query_def register_prompt_def forget_pending_prompt_def resolve_prompt_def
  resolve_reply_def resolve_prompt_err_def register_interrupt_def forget_pending_interrupt_def
  resolve_interrupt_ack_def register_answer_def forget_pending_answer_def resolve_answer_def
  resolve_answer_ack_def resolve_answer_err_def put_entry_def

lemma hm_get_put_entry [simp]:
  "hm_get (rg_entries (put_entry t e r)) t' = (if t' = t then Some e else hm_get (rg_entries r) t')"
  by (simp add: put_entry_def hm_simps)

lemma set_hm_insert_le: "set (hm_insert k v m) \<subseteq> insert (k, v) (set m)"
  unfolding hm_insert_def by (induction m) auto

lemma set_hm_remove_le: "set (hm_remove k m) \<subseteq> set m"
  unfolding hm_remove_def by (induction m) auto

lemmas set_hm_insertD = subsetD [OF set_hm_insert_le]
lemmas set_hm_removeD = subsetD [OF set_hm_remove_le]

lemma outstanding_step:
  assumes "outstanding (fst (reg_step op r)) k t i s w"
  shows "outstanding r k t i s w \<or> (\<exists>now s'. op = RegRegister k now t i s' w \<and> (k = KPrompt \<longrightarrow> s' = s))"
proof (cases op)
  case (RegRegister k' now t' i' s' w')
  then show ?thesis using assms
    by (cases k'; cases k;
        auto simp: outstanding_def reg_defs hm_simps split: option.splits if_splits
          dest!: set_hm_insertD; blast)
next
  case (RegForget k' t' i')
  then show ?thesis using assms
    by (cases k'; cases k;
        auto simp: outstanding_def reg_defs hm_simps split: option.splits if_splits
          dest!: set_hm_removeD; blast)
qed (use assms in \<open>(cases k;
       auto simp: outstanding_def reg_defs hm_simps Let_def
         split: option.splits if_splits dest!: set_hm_removeD; blast)\<close>)+

lemma outstanding_lookup:
  "hm_get (rg_entries r) t = Some e \<Longrightarrow> hm_get (en_pending e) i = Some (at, w) \<Longrightarrow> outstanding r KPing t i s w"
  "hm_get (rg_entries r) t = Some e \<Longrightarrow> hm_get (en_queries e) i = Some w \<Longrightarrow> outstanding r KQuery t i s w"
  "hm_get (rg_entries r) t = Some e \<Longrightarrow> hm_get (en_prompts e) i = Some (s, w) \<Longrightarrow> outstanding r KPrompt t i s w"
  "hm_get (rg_entries r) t = Some e \<Longrightarrow> hm_get (en_interrupts e) i = Some w \<Longrightarrow> outstanding r KInterrupt t i s w"
  "hm_get (rg_entries r) t = Some e \<Longrightarrow> hm_get (en_answers e) i = Some w \<Longrightarrow> outstanding r KAnswer t i s w"
  by (auto simp: outstanding_def dest: hm_get_SomeD)

lemma no_signal_drops [simp]:
  "Signal w g \<notin> set (drop_old x)" "Signal w g \<notin> set (drop_entry e)"
  by (auto simp: drop_old_def drop_entry_def split: option.splits)

lemma resolve_signal:
  "Signal w g \<in> set (snd (resolve_pong now t i r)) \<Longrightarrow> (\<exists>d. g = SigRtt d) \<and> outstanding r KPing t i [] w"
  "Signal w g \<in> set (snd (resolve_query q t i r)) \<Longrightarrow> g = SigQuery q \<and> outstanding r KQuery t i [] w"
  "Signal w g \<in> set (snd (resolve_prompt p t i r)) \<Longrightarrow> g = SigPrompt p \<and> (\<exists>s. outstanding r KPrompt t i s w)"
  "Signal w g \<in> set (snd (resolve_interrupt_ack t i r)) \<Longrightarrow> g = SigAck \<and> outstanding r KInterrupt t i [] w"
  "Signal w g \<in> set (snd (resolve_answer a t i r)) \<Longrightarrow> g = SigAnswer a \<and> outstanding r KAnswer t i [] w"
  by (auto simp: resolve_pong_def resolve_query_def resolve_prompt_def resolve_interrupt_ack_def
      resolve_answer_def split: option.splits dest!: sym [of "Some _"] intro: outstanding_lookup)

lemma signal_step:
  assumes "Signal w g \<in> set (snd (reg_step op r))"
  shows "\<exists>k t i s. outstanding r k t i s w \<and> answers op k t i s g"
proof (cases op)
  case (RegRegister k now t i s w')
  then show ?thesis using assms by (cases k) (auto simp: reg_defs split: option.splits)
next
  case (RegForget k t i)
  then show ?thesis using assms by (cases k) (auto simp: reg_defs split: option.splits)
next
  case (RegCancel t s)
  then obtain e i where "hm_get (rg_entries r) t = Some e" "(i, s, w) \<in> set (en_prompts e)"
      "g = SigPrompt EvCancelled"
    using assms
    by (cases "hm_get (rg_entries r) t") (auto simp: cancel_pending_prompts_for_session_def)
  then have "outstanding r KPrompt t i s w \<and> answers op KPrompt t i s g"
    using RegCancel by (simp add: outstanding_def)
  then show ?thesis by blast
qed (use assms in \<open>(auto simp: registry_insert_def registry_remove_def Let_def resolve_query_ok_def
       resolve_query_err_def resolve_reply_def resolve_prompt_err_def resolve_answer_ack_def
       resolve_answer_err_def split: option.splits dest!: resolve_signal)\<close>)+

lemma reg_run_Cons [simp]:
  "fst (reg_run (op # ops) r) = fst (reg_run ops (fst (reg_step op r)))"
  "snd (reg_run (op # ops) r) = snd (reg_step op r) @ snd (reg_run ops (fst (reg_step op r)))"
  by (simp_all split: prod.splits)

declare reg_run.simps(2) [simp del]

text \<open>Everything outstanding was registered under the same kind, connection, id and session.\<close>

definition registered :: "reg_op list \<Rightarrow> registry \<Rightarrow> bool" where
  "registered ops r \<longleftrightarrow>
     (\<forall>k t i s w. outstanding r k t i s w \<longrightarrow>
        (\<exists>now s'. RegRegister k now t i s' w \<in> set ops \<and> (k = KPrompt \<longrightarrow> s' = s)))"

lemma registered_step: "registered ops r \<Longrightarrow> registered (ops @ [op]) (fst (reg_step op r))"
  unfolding registered_def using outstanding_step by fastforce

lemma signal_run:
  assumes "registered past r" and "Signal w g \<in> set (snd (reg_run ops r))"
  shows "\<exists>k t i s now s' op. RegRegister k now t i s' w \<in> set (past @ ops) \<and>
           (k = KPrompt \<longrightarrow> s' = s) \<and> op \<in> set ops \<and> answers op k t i s g"
  using assms
proof (induction ops arbitrary: past r)
  case (Cons op ops)
  show ?case
  proof (cases "Signal w g \<in> set (snd (reg_step op r))")
    case True
    then obtain k t i s where "outstanding r k t i s w" "answers op k t i s g"
      using signal_step by blast
    with Cons.prems(1) show ?thesis unfolding registered_def by fastforce
  next
    case False
    with Cons.prems Cons.IH [OF registered_step [OF Cons.prems(1)]] show ?thesis by fastforce
  qed
qed simp

text \<open>
  The contract the five request tables share: a request is found under exactly the connection and
  id it was added with, until it is taken out, and tables of other requests do not interfere.
\<close>

locale pending_requests =
  fixes found :: "registry \<Rightarrow> string \<Rightarrow> string \<Rightarrow> 'p option"
    and add :: "string \<Rightarrow> string \<Rightarrow> 'p \<Rightarrow> registry \<Rightarrow> registry"
    and take_out :: "string \<Rightarrow> string \<Rightarrow> registry \<Rightarrow> registry"
  assumes found_add:
      "hm_get (rg_entries r) t \<noteq> None \<Longrightarrow>
       found (add t i p r) t' i' = (if t' = t \<and> i' = i then Some p else found r t' i')"
    and found_take_out:
      "found (take_out t i r) t' i' = (if t' = t \<and> i' = i then None else found r t' i')"
    and found_connected: "found r t i = Some p \<Longrightarrow> hm_get (rg_entries r) t \<noteq> None"
begin

lemma answered_once: "found (take_out t i (add t i p r)) t i = None"
  by (simp add: found_take_out)

lemma unrelated_answer:
  "(t', i') \<noteq> (t, i) \<Longrightarrow> found (take_out t' i' r) t i = found r t i"
  by (auto simp: found_take_out)

lemma concurrent_requests:
  "hm_get (rg_entries r) t \<noteq> None \<Longrightarrow> hm_get (rg_entries (add t i p r)) t \<noteq> None \<Longrightarrow> i \<noteq> i' \<Longrightarrow>
   found (add t i' q (add t i p r)) t i = Some p"
  by (simp add: found_add)

end

definition found_in ::
  "(entry \<Rightarrow> (string, 'p) hashmap) \<Rightarrow> registry \<Rightarrow> string \<Rightarrow> string \<Rightarrow> 'p option" where
  "found_in table r t i = Option.bind (hm_get (rg_entries r) t) (\<lambda>e. hm_get (table e) i)"

definition registered_table :: "(registry \<times> effect list) option \<Rightarrow> registry \<Rightarrow> registry" where
  "registered_table x r = (case x of None \<Rightarrow> r | Some (r', fx) \<Rightarrow> r')"

lemmas table_defs = found_in_def registered_table_def

interpretation pings: pending_requests "found_in en_pending"
  "\<lambda>t i (now, w) r. registered_table (register_ping now t i w r) r"
  "\<lambda>t i r. fst (forget_pending t i r)"
  by unfold_locales (auto simp: table_defs register_ping_def forget_pending_def hm_simps
      split: option.splits bind_splits)

interpretation queries: pending_requests "found_in en_queries"
  "\<lambda>t i w r. registered_table (register_query t i w r) r"
  "\<lambda>t i r. fst (forget_pending_query t i r)"
  by unfold_locales (auto simp: table_defs register_query_def forget_pending_query_def hm_simps
      split: option.splits bind_splits)

interpretation prompts: pending_requests "found_in en_prompts"
  "\<lambda>t i (s, w) r. registered_table (register_prompt t i s w r) r"
  "\<lambda>t i r. fst (forget_pending_prompt t i r)"
  by unfold_locales (auto simp: table_defs register_prompt_def forget_pending_prompt_def hm_simps
      split: option.splits bind_splits)

interpretation interrupts: pending_requests "found_in en_interrupts"
  "\<lambda>t i w r. registered_table (register_interrupt t i w r) r"
  "\<lambda>t i r. fst (forget_pending_interrupt t i r)"
  by unfold_locales (auto simp: table_defs register_interrupt_def forget_pending_interrupt_def hm_simps
      split: option.splits bind_splits)

interpretation answers_table: pending_requests "found_in en_answers"
  "\<lambda>t i w r. registered_table (register_answer t i w r) r"
  "\<lambda>t i r. fst (forget_pending_answer t i r)"
  by unfold_locales (auto simp: table_defs register_answer_def forget_pending_answer_def hm_simps
      split: option.splits bind_splits)

lemma requests_waiters: "(i, s, w) \<in> requests k e \<Longrightarrow> w \<in> set (entry_waiters e)"
  by (cases k) (auto simp: entry_waiters_def intro: rev_image_eqI)

section \<open>Properties\<close>

text \<open>
  C4: replies reach the request they answer and no other.  In any interleaving of the registry's
  lock sections (connections coming and going, requests of all five kinds being made, answered,
  timed out and cancelled), a waiter is signalled only if it was registered for some kind of
  request on some connection under some id, and the signal is the content of a frame that arrived
  on that same connection, of the type that answers that kind, carrying that same id; or, for a
  prompt, the cancellation of the very session it was sent to.
\<close>

theorem registry_correlates_replies:
  assumes "Signal w g \<in> set (snd (reg_run ops registry_new))"
  shows "\<exists>k t i s now s' op. RegRegister k now t i s' w \<in> set ops \<and> (k = KPrompt \<longrightarrow> s' = s) \<and>
           op \<in> set ops \<and> answers op k t i s g"
proof -
  have "registered [] registry_new"
    by (simp add: registered_def outstanding_def registry_new_def)
  from signal_run [OF this assms] show ?thesis by simp
qed

theorem registry_correlates_replies_witness:
  "Signal 7 (SigQuery (ReplyErr \<lparr>err_code = ''x'', err_cmd = None, err_message = None\<rparr>)) \<in>
     set (snd (reg_run [RegInsert ''tok_1'' ''cli_1'' ''box'' 0, RegRegister KQuery 0 ''tok_1'' ''q1'' [] 7,
                        RegQueryErr ''tok_1'' ''q1'' \<lparr>err_code = ''x'', err_cmd = None, err_message = None\<rparr>]
                registry_new)) \<and>
   (\<exists>k t i now s'. RegRegister k now t i s' 7 \<in>
      set [RegInsert ''tok_1'' ''cli_1'' ''box'' 0, RegRegister KQuery 0 ''tok_1'' ''q1'' [] 7,
           RegQueryErr ''tok_1'' ''q1'' \<lparr>err_code = ''x'', err_cmd = None, err_message = None\<rparr>])"
proof -
  let ?b = "\<lparr>err_code = ''x'', err_cmd = None, err_message = None\<rparr>"
  let ?ops = "[RegInsert ''tok_1'' ''cli_1'' ''box'' 0, RegRegister KQuery 0 ''tok_1'' ''q1'' [] 7,
               RegQueryErr ''tok_1'' ''q1'' ?b]"
  have s: "Signal 7 (SigQuery (ReplyErr ?b)) \<in> set (snd (reg_run ?ops registry_new))"
    by (simp add: reg_defs registry_new_def hm_simps hm_get_def hm_insert_def)
  from s registry_correlates_replies [OF s] show ?thesis by blast
qed

text \<open>
  C28: closing a connection leaves nobody hanging.  Removing a connection, or replacing it by a new
  one for the same token, drops its outbound sender (after the superseded notice, when replaced)
  and the sender of every request outstanding on it, signals nobody, and touches no other
  connection; a replaced connection starts with nothing outstanding.
\<close>

theorem registry_close_releases:
  assumes "hm_get (rg_entries r) t = Some e"
    and "op = RegRemove t \<or> op = RegInsert t c h out" and "reg_step op r = (r', fx)"
  shows "CloseOut (en_out e) \<in> set fx \<and>
         (\<forall>k i s w. outstanding r k t i s w \<longrightarrow> DropWaiter w \<in> set fx) \<and>
         (\<forall>w g. Signal w g \<notin> set fx) \<and>
         (\<forall>k i s w. \<not> outstanding r' k t i s w) \<and>
         (\<forall>t'. t' \<noteq> t \<longrightarrow> hm_get (rg_entries r') t' = hm_get (rg_entries r) t')"
proof -
  have drop: "\<And>k i s w. outstanding r k t i s w \<Longrightarrow> DropWaiter w \<in> set (drop_entry e)"
    using assms(1) requests_waiters by (fastforce simp: outstanding_def drop_entry_def)
  have close: "CloseOut (en_out e) \<in> set (drop_entry e)" by (simp add: drop_entry_def)
  have fresh: "(i, s, w) \<notin> requests k \<lparr>en_hostname = h, en_client_id = c, en_out = out, en_pending = [],
      en_queries = [], en_prompts = [], en_interrupts = [], en_answers = []\<rparr>" for i s w k
    by (cases k) simp_all
  from assms(2) show ?thesis
  proof
    assume "op = RegRemove t"
    with assms(1,3) drop close show ?thesis
      by (auto simp: registry_remove_def outstanding_def hm_simps)
  next
    assume "op = RegInsert t c h out"
    with assms(1,3) drop close fresh show ?thesis
      by (auto simp: registry_insert_def outstanding_def Let_def)
  qed
qed

theorem registry_close_releases_witness:
  "case reg_step (RegRemove ''tok_1'')
          (fst (reg_run [RegInsert ''tok_1'' ''cli_1'' ''box'' 0, RegRegister KAnswer 0 ''tok_1'' ''a1'' [] 7]
                  registry_new)) of
     (r', fx) \<Rightarrow> CloseOut 0 \<in> set fx \<and> DropWaiter 7 \<in> set fx \<and> (\<forall>w g. Signal w g \<notin> set fx)"
proof -
  let ?r = "fst (reg_run [RegInsert ''tok_1'' ''cli_1'' ''box'' 0,
                          RegRegister KAnswer 0 ''tok_1'' ''a1'' [] 7] registry_new)"
  obtain r' fx where step: "reg_step (RegRemove ''tok_1'') ?r = (r', fx)" by (cases "reg_step (RegRemove ''tok_1'') ?r")
  have e: "\<exists>e. hm_get (rg_entries ?r) ''tok_1'' = Some e \<and> en_out e = 0 \<and> (''a1'', [], 7) \<in> requests KAnswer e"
    by (simp add: reg_defs registry_new_def hm_simps hm_get_def hm_insert_def)
  then obtain e where e: "hm_get (rg_entries ?r) ''tok_1'' = Some e" "en_out e = 0"
      "(''a1'', [], 7) \<in> requests KAnswer e" by blast
  then have "outstanding ?r KAnswer ''tok_1'' ''a1'' [] 7" unfolding outstanding_def by blast
  with registry_close_releases [OF e(1) _ step] e(2) step show ?thesis by auto
qed

text \<open>
  \<open>say\<close> gets the whole answer.  On a live connection, a prompt whose client delivers any number
  of partial replies and then a final one ends with exactly the concatenation of all their texts
  and chunks in arrival order and the final reply's exit code; an error or a cancellation instead
  of a further reply ends it with that outcome, a closed channel or silence with \<open>Disconnected\<close>.
  Whatever ended it, its pending entry is gone.
\<close>

lemma prompt_collects_replies:
  assumes "hm_get (rg_entries r) t \<noteq> None" and "hm_get (rg_entries (other1 r)) t \<noteq> None"
    and "list_all (\<lambda>b. \<not> rp_done b) partial" and "rp_done final"
  shows "let run = (\<lambda>ev. registry_prompt ts w other1 True other2
                           (map (Got \<circ> EvReply) partial @ ev # rest) t i s txt meta r)
         in fst (run (Got (EvReply final))) =
              PromptDone (concat (concat (map reply_pieces (partial @ [final])))) (rp_exit final) \<and>
            fst (run (Got (EvErr eb))) = PromptErr eb \<and>
            fst (run (Got EvCancelled)) = PromptCancelled \<and>
            fst (run Closed) = PromptDisconnected \<and>
            fst (run TimedOut) = PromptDisconnected \<and>
            (\<forall>ev. found_in en_prompts (fst (snd (run ev))) t i = None)"
proof -
  have step: "prompt_loop ps (map (Got \<circ> EvReply) partial @ evs) =
      prompt_loop (ps @ concat (map reply_pieces partial)) evs" for ps evs
    using assms(3) by (induction partial arbitrary: ps) simp_all
  obtain e e1 where e: "hm_get (rg_entries r) t = Some e" "hm_get (rg_entries (other1 r)) t = Some e1"
    using assms(1,2) by auto
  have "found_in en_prompts (fst (forget_pending_prompt t i r')) t i = None" for r'
    by (simp add: prompts.found_take_out)
  with e step assms(4) show ?thesis
    by (simp add: registry_prompt_def register_prompt_def case_prod_beta)
qed

definition demo_registry :: registry where
  "demo_registry = fst (reg_run [RegInsert ''tok_1'' ''cli_1'' ''box'' 0,
                                 RegRegister KPrompt 0 ''tok_1'' ''p1'' ''main'' 7] registry_new)"

lemmas demo_registry_eval =
  demo_registry_def reg_defs registry_new_def hm_simps hm_get_def hm_insert_def Let_def

lemma demo_registry_connected: "hm_get (rg_entries demo_registry) ''tok_1'' \<noteq> None"
  by (simp add: demo_registry_eval)

definition demo_partial :: reply_body where
  "demo_partial = \<lparr>rp_session = ''main'', rp_text = Some ''one '', rp_chunks = [], rp_done = False, rp_exit = None\<rparr>"

definition demo_final :: reply_body where
  "demo_final = \<lparr>rp_session = ''main'', rp_text = None, rp_chunks = [''two''], rp_done = True, rp_exit = Some 0\<rparr>"

lemma prompt_collects_replies_at_work:
  "fst (registry_prompt ''now'' 8 id True id (map (Got \<circ> EvReply) [demo_partial] @ [Got (EvReply demo_final)])
          ''tok_1'' ''p2'' ''main'' ''hi'' None demo_registry) = PromptDone ''one two'' (Some 0)"
  using prompt_collects_replies [of demo_registry "''tok_1''" id "[demo_partial]" demo_final
      "''now''" 8 id "[]" "''p2''" "''main''" "''hi''" None undefined] demo_registry_connected
  by (simp add: Let_def demo_partial_def demo_final_def reply_pieces_def)

text \<open>
  An interrupt says what happened.  On a live connection whose channel took the frame, it
  reports \<open>Acked\<close> exactly when the ack came, \<open>TimedOut\<close> exactly when the deadline passed with the
  connection still registered, and \<open>Disconnected\<close> otherwise; and it wakes, as cancelled, exactly
  the prompts outstanding for that session on that connection, and only after an ack.
\<close>

lemma registry_interrupt_outcome:
  assumes "hm_get (rg_entries r) t \<noteq> None" and "hm_get (rg_entries (other1 r)) t \<noteq> None"
    and "registry_interrupt ts w other1 True other2 other3 waited t i s r = (oc, r', fx)"
  shows "(oc = InterruptAcked \<longleftrightarrow> waited = Got ()) \<and>
         (oc = InterruptTimedOut \<longleftrightarrow> waited = TimedOut \<and> hm_get (rg_entries r') t \<noteq> None) \<and>
         (\<forall>w' g. Signal w' g \<in> set fx \<longleftrightarrow>
            waited = Got () \<and> g = SigPrompt EvCancelled \<and> (\<exists>i'. outstanding r' KPrompt t i' s w'))"
proof -
  obtain e e1 where e: "hm_get (rg_entries r) t = Some e" "hm_get (rg_entries (other1 r)) t = Some e1"
    using assms(1,2) by auto
  have cancel: "Signal w' g \<in> set (cancel_pending_prompts_for_session t s q) \<longleftrightarrow>
      g = SigPrompt EvCancelled \<and> (\<exists>i'. outstanding q KPrompt t i' s w')" for w' g q
    by (force simp: cancel_pending_prompts_for_session_def outstanding_def split: option.splits)
  have quiet: "Signal w' g \<notin> set (snd (forget_pending_interrupt t i q))" for w' g q
    by (simp add: forget_pending_interrupt_def split: option.splits)
  show ?thesis
    using assms(3) e cancel quiet
    by (cases waited)
       (auto simp: registry_interrupt_def register_interrupt_def Let_def case_prod_beta split: if_splits)
qed

lemma registry_interrupt_outcome_at_work:
  "case registry_interrupt ''now'' 8 id True id id (Got ()) ''tok_1'' ''i1'' ''main'' demo_registry of
     (oc, r', fx) \<Rightarrow> oc = InterruptAcked \<and> Signal 7 (SigPrompt EvCancelled) \<in> set fx"
proof -
  obtain oc r' fx where run: "registry_interrupt ''now'' 8 id True id id (Got ()) ''tok_1'' ''i1'' ''main''
      demo_registry = (oc, r', fx)" using prod_cases3 by blast
  have "outstanding r' KPrompt ''tok_1'' ''p1'' ''main'' 7"
    using run by (auto simp: registry_interrupt_def demo_registry_eval outstanding_def)
  with registry_interrupt_outcome [OF demo_registry_connected _ run] demo_registry_connected run
  show ?thesis by auto
qed

text \<open>Confirmed harnesses: the recorded hosts of an id, and what the operations do to them.\<close>

definition hosts_of :: "registry \<Rightarrow> string \<Rightarrow> string set" where
  "hosts_of r h = set (unwrap_or (hm_get (rg_confirmed r) h) [])"

lemma confirmed_step:
  "rg_confirmed (fst (reg_step op r)) =
     (case op of RegConfirm h host \<Rightarrow> rg_confirmed (record_harness_confirmed h host r) | _ \<Rightarrow> rg_confirmed r)"
proof (cases op)
  case (RegRegister k now t i s w)
  then show ?thesis by (cases k) (auto simp: reg_defs split: option.splits)
next
  case (RegForget k t i)
  then show ?thesis by (cases k) (auto simp: reg_defs split: option.splits)
qed (auto simp: reg_defs Let_def split: option.splits if_splits)

lemma hosts_step:
  "hosts_of (fst (reg_step op r)) h = hosts_of r h \<union> {host. op = RegConfirm h host}"
  unfolding hosts_of_def confirmed_step
  by (cases op) (auto simp: record_harness_confirmed_def hm_simps)

lemma hosts_run: "hosts_of (fst (reg_run ops r)) h = hosts_of r h \<union> {host. RegConfirm h host \<in> set ops}"
  by (induction ops arbitrary: r) (auto simp: hosts_step)

lemma confirmed_wf_run: "hm_wf (rg_confirmed r) \<Longrightarrow> hm_wf (rg_confirmed (fst (reg_run ops r)))"
proof (induction ops arbitrary: r)
  case (Cons op ops)
  have "hm_wf (rg_confirmed (fst (reg_step op r)))"
    unfolding confirmed_step using Cons.prems
    by (cases op) (simp_all add: record_harness_confirmed_def hm_wf_intros)
  with Cons.IH show ?case by simp
qed simp

lemma snapshot_hosts:
  assumes "hm_wf (rg_confirmed r)"
  shows "confirmed_hosts (confirmed_harnesses_snapshot r) h = map_option sort (hm_get (rg_confirmed r) h)"
proof -
  define cs where "cs = confirmed_harnesses_snapshot r"
  have mem: "c \<in> set cs \<longleftrightarrow> (\<exists>hosts. hm_get (rg_confirmed r) (hc_id c) = Some hosts \<and> hc_clients c = sort hosts)" for c
    using assms by (auto simp: cs_def confirmed_harnesses_snapshot_def hm_get_iff_mem image_iff
        intro!: bexI [where x = "(hc_id c, _)"])
  show ?thesis
  proof (cases "find (\<lambda>c. hc_id c = h) cs")
    case None
    then have "hm_get (rg_confirmed r) h = None"
      using mem [of "\<lparr>hc_id = h, hc_clients = sort (the (hm_get (rg_confirmed r) h))\<rparr>"]
      by (cases "hm_get (rg_confirmed r) h") (auto simp: find_None_iff)
    with None show ?thesis by (simp add: confirmed_hosts_def flip: cs_def)
  next
    case (Some c)
    then have "c \<in> set cs" "hc_id c = h" by (auto simp: find_Some_iff)
    with mem [of c] Some show ?thesis by (auto simp: confirmed_hosts_def simp flip: cs_def)
  qed
qed

text \<open>
  A harness is confirmed for a host exactly when a confirmation was recorded, whatever else
  happened to the registry: no hello, hostname change or reply confirms one, and no disconnection
  withdraws one.  The hosts reported by \<open>status\<close>, \<open>caps\<close> and \<open>support\<close> are those ever recorded, not
  those connected now.
\<close>

lemma confirmations_exactly_recorded:
  "set (unwrap_or (confirmed_hosts (confirmed_harnesses_snapshot (fst (reg_run ops registry_new))) h) []) =
     {host. RegConfirm h host \<in> set ops}"
proof -
  let ?r = "fst (reg_run ops registry_new)"
  have "confirmed_hosts (confirmed_harnesses_snapshot ?r) h = map_option sort (hm_get (rg_confirmed ?r) h)"
    by (rule snapshot_hosts) (simp add: confirmed_wf_run registry_new_def)
  then have "set (unwrap_or (confirmed_hosts (confirmed_harnesses_snapshot ?r) h) []) = hosts_of ?r h"
    by (cases "hm_get (rg_confirmed ?r) h") (simp_all add: hosts_of_def)
  then show ?thesis by (simp add: hosts_run) (simp add: hosts_of_def registry_new_def)
qed

end
