(* ===== verification/Roster.thy ===== *)
theory Roster
  imports Prelude
begin

text \<open>
  The session roster of \<open>src/src/wire/roster.rs\<close>: session name to owning connection, with the
  tri-state derived from the last heartbeat on every read.  The table behind the mutex is a
  record; every method takes the instant its \<open>Instant::now()\<close> returned and gives back the
  new table (or, for the readers, their answer).
\<close>

section \<open>State\<close>

datatype roster_state = Connected | Reconnecting | Gone

definition roster_state_display :: "roster_state \<Rightarrow> string" where
  "roster_state_display s =
     (case s of Connected \<Rightarrow> ''connected'' | Reconnecting \<Rightarrow> ''reconnecting'' | Gone \<Rightarrow> ''gone'')"

record roster_config =
  reconnect_after :: duration
  gone_after :: duration
  prune_after :: duration
  sweep_interval :: duration

definition roster_config_default :: roster_config where
  "roster_config_default =
     (let gone = from_secs 180
      in \<lparr>reconnect_after = from_secs 45, gone_after = gone, prune_after = gone * 2,
          sweep_interval = from_secs 30\<rparr>)"

definition env_duration_ms :: "(string \<Rightarrow> string option) \<Rightarrow> string \<Rightarrow> duration option" where
  "env_duration_ms env key =
     map_option from_millis (Option.bind (env key) (\<lambda>v. parse_unsigned 64 (trim v)))"

definition roster_config_from_env :: "(string \<Rightarrow> string option) \<Rightarrow> roster_config" where
  "roster_config_from_env env =
     (let dflt = roster_config_default;
          reconnect = unwrap_or (env_duration_ms env ''HOLLER_ROSTER_RECONNECT_MS'')
                        (reconnect_after dflt);
          gone = unwrap_or (env_duration_ms env ''HOLLER_ROSTER_GONE_MS'') (gone_after dflt);
          prune = unwrap_or (env_duration_ms env ''HOLLER_ROSTER_PRUNE_MS'') (gone * 2);
          sweep = unwrap_or (env_duration_ms env ''HOLLER_ROSTER_SWEEP_MS'') (sweep_interval dflt)
      in \<lparr>reconnect_after = reconnect, gone_after = gone, prune_after = prune,
          sweep_interval = sweep\<rparr>)"

record roster_entry =
  re_harness :: string
  re_token_id :: string
  re_client_id :: string
  re_last_seen :: instant
  re_gone_now :: bool
  re_mode :: "string option"
  re_harness_session_id :: "string option"
  re_blocked :: bool

definition state_at :: "instant \<Rightarrow> roster_config \<Rightarrow> roster_entry \<Rightarrow> roster_state" where
  "state_at now cfg e =
     (if re_gone_now e then Gone
      else let elapsed = now - re_last_seen e
           in if elapsed \<ge> gone_after cfg then Gone
              else if elapsed \<ge> reconnect_after cfg then Reconnecting
              else Connected)"

record roster_row =
  row_name :: string
  row_harness :: string
  row_client_id :: string
  row_state :: roster_state
  row_last_seen_ms_ago :: nat
  row_mode :: "string option"
  row_harness_session_id :: "string option"
  row_blocked :: bool

record roster_conflict =
  cf_session :: string
  cf_held_by_client_id :: string

definition roster_conflict_display :: "(string \<Rightarrow> string) \<Rightarrow> roster_conflict \<Rightarrow> string" where
  "roster_conflict_display quoted c =
     ''session '' @ quoted (cf_session c) @ '' is already advertised by client '' @ cf_held_by_client_id c"

record roster =
  ro_entries :: "(string, roster_entry) hashmap"
  ro_config :: roster_config

section \<open>Operations\<close>

definition roster_new :: "roster_config \<Rightarrow> roster" where
  "roster_new cfg = \<lparr>ro_entries = [], ro_config = cfg\<rparr>"

definition advertise_with_mode ::
  "instant \<Rightarrow> string \<Rightarrow> string \<Rightarrow> string \<Rightarrow> string \<Rightarrow> string option \<Rightarrow> string option \<Rightarrow> roster
   \<Rightarrow> roster_conflict + roster" where
  "advertise_with_mode now name harness token client mode hsid r =
     (let put = Inr (r\<lparr>ro_entries := hm_insert name
                   \<lparr>re_harness = harness, re_token_id = token, re_client_id = client,
                    re_last_seen = now, re_gone_now = False, re_mode = mode,
                    re_harness_session_id = hsid, re_blocked = False\<rparr> (ro_entries r)\<rparr>)
      in case hm_get (ro_entries r) name of
           Some existing \<Rightarrow>
             if re_token_id existing \<noteq> token \<and> state_at now (ro_config r) existing \<noteq> Gone
             then Inl \<lparr>cf_session = name, cf_held_by_client_id = re_client_id existing\<rparr>
             else put
         | None \<Rightarrow> put)"

definition advertise ::
  "instant \<Rightarrow> string \<Rightarrow> string \<Rightarrow> string \<Rightarrow> string \<Rightarrow> roster \<Rightarrow> roster_conflict + roster" where
  "advertise now name harness token client r =
     advertise_with_mode now name harness token client None None r"

definition touch_client :: "instant \<Rightarrow> string \<Rightarrow> roster \<Rightarrow> roster" where
  "touch_client now token r =
     r\<lparr>ro_entries := hm_map_values
         (\<lambda>e. if re_token_id e = token then e\<lparr>re_last_seen := now\<rparr> else e) (ro_entries r)\<rparr>"

definition set_blocked :: "string \<Rightarrow> bool \<Rightarrow> roster \<Rightarrow> roster" where
  "set_blocked name blocked r =
     (case hm_get (ro_entries r) name of
        None \<Rightarrow> r
      | Some e \<Rightarrow> r\<lparr>ro_entries := hm_insert name (e\<lparr>re_blocked := blocked\<rparr>) (ro_entries r)\<rparr>)"

definition mark_gone :: "string \<Rightarrow> roster \<Rightarrow> roster" where
  "mark_gone token r =
     r\<lparr>ro_entries := hm_map_values
         (\<lambda>e. if re_token_id e = token then e\<lparr>re_gone_now := True\<rparr> else e) (ro_entries r)\<rparr>"

definition resolve_session :: "instant \<Rightarrow> string \<Rightarrow> roster \<Rightarrow> string option" where
  "resolve_session now name r =
     Option.bind (hm_get (ro_entries r) name)
       (\<lambda>e. if state_at now (ro_config r) e = Gone then None else Some (re_token_id e))"

definition live_count :: "instant \<Rightarrow> roster \<Rightarrow> nat" where
  "live_count now r =
     length (filter (\<lambda>e. state_at now (ro_config r) e \<noteq> Gone) (map snd (ro_entries r)))"

definition roster_row_of :: "instant \<Rightarrow> roster_config \<Rightarrow> string \<times> roster_entry \<Rightarrow> roster_row" where
  "roster_row_of now cfg p =
     (case p of (name, e) \<Rightarrow>
        \<lparr>row_name = name, row_harness = re_harness e, row_client_id = re_client_id e,
         row_state = state_at now cfg e,
         row_last_seen_ms_ago = as_millis (now - re_last_seen e),
         row_mode = re_mode e, row_harness_session_id = re_harness_session_id e,
         row_blocked = re_blocked e\<rparr>)"

definition roster_snapshot :: "instant \<Rightarrow> roster \<Rightarrow> roster_row list" where
  "roster_snapshot now r =
     sort_key row_name (map (roster_row_of now (ro_config r)) (ro_entries r))"

definition prune :: "instant \<Rightarrow> roster \<Rightarrow> roster" where
  "prune now r =
     r\<lparr>ro_entries := hm_retain (\<lambda>e. now - re_last_seen e < prune_after (ro_config r))
                       (ro_entries r)\<rparr>"

section \<open>Runs\<close>

datatype roster_op =
    Advertise string string string string "string option" "string option"
  | Touch string
  | SetBlocked string bool
  | MarkGone string
  | Prune

fun roster_step :: "instant \<Rightarrow> roster_op \<Rightarrow> roster \<Rightarrow> roster" where
  "roster_step now (Advertise name h tok cl mode hsid) r =
     (case advertise_with_mode now name h tok cl mode hsid r of Inl _ \<Rightarrow> r | Inr r' \<Rightarrow> r')"
| "roster_step now (Touch tok) r = touch_client now tok r"
| "roster_step now (SetBlocked name b) r = set_blocked name b r"
| "roster_step now (MarkGone tok) r = mark_gone tok r"
| "roster_step now Prune r = prune now r"

fun roster_run :: "(instant \<times> roster_op) list \<Rightarrow> roster \<Rightarrow> roster" where
  "roster_run [] r = r"
| "roster_run ((now, op) # ops) r = roster_run ops (roster_step now op r)"

definition roster_inv :: "instant \<Rightarrow> roster \<Rightarrow> bool" where
  "roster_inv now r \<longleftrightarrow>
     hm_wf (ro_entries r) \<and>
     (\<forall>name e. hm_get (ro_entries r) name = Some e \<longrightarrow> re_last_seen e \<le> now)"

section \<open>Lemmas\<close>

lemma state_at_mono:
  "now \<le> later \<Longrightarrow> state_at now cfg e = Gone \<Longrightarrow> state_at later cfg e = Gone"
  by (auto simp: state_at_def Let_def split: if_splits)

lemma not_Gone_earlier:
  "now \<le> later \<Longrightarrow> state_at later cfg e \<noteq> Gone \<Longrightarrow> state_at now cfg e \<noteq> Gone"
  using state_at_mono by blast

lemma not_Gone_iff:
  "state_at now cfg e \<noteq> Gone \<longleftrightarrow> \<not> re_gone_now e \<and> now - re_last_seen e < gone_after cfg"
  by (auto simp: state_at_def Let_def)

lemma resolve_session_Some:
  "resolve_session now name r = Some tok \<longleftrightarrow>
     (\<exists>e. hm_get (ro_entries r) name = Some e \<and> re_token_id e = tok \<and>
          state_at now (ro_config r) e \<noteq> Gone)"
  by (auto simp: resolve_session_def bind_eq_Some_conv)

lemma config_step [simp]: "ro_config (roster_step now op r) = ro_config r"
  by (cases op)
     (auto simp: advertise_with_mode_def touch_client_def set_blocked_def mark_gone_def prune_def
        Let_def split: option.splits sum.splits)

lemma config_ops [simp]:
  "ro_config (touch_client now tok r) = ro_config r" "ro_config (mark_gone tok r) = ro_config r"
  "ro_config (prune now r) = ro_config r" "ro_config (set_blocked name b r) = ro_config r"
  by (auto simp: touch_client_def mark_gone_def prune_def set_blocked_def split: option.splits)

lemma config_run [simp]: "ro_config (roster_run ops r) = ro_config r"
  by (induction ops r rule: roster_run.induct) simp_all

lemma roster_inv_mono: "roster_inv now r \<Longrightarrow> now \<le> later \<Longrightarrow> roster_inv later r"
  by (auto simp: roster_inv_def intro: le_trans)

lemma roster_inv_new: "roster_inv now (roster_new cfg)"
  by (simp add: roster_inv_def roster_new_def)

lemma roster_step_inv:
  assumes "roster_inv now r"
  shows "roster_inv now (roster_step now op r)"
proof (cases op)
  case (Advertise name h tok cl mode hsid)
  with assms show ?thesis
    by (auto simp: roster_inv_def advertise_with_mode_def Let_def hm_simps hm_wf_intros
          split: option.splits sum.splits if_splits)
next
  case (SetBlocked name b)
  with assms show ?thesis
    by (auto simp: roster_inv_def set_blocked_def hm_simps hm_wf_intros
          split: option.splits if_splits)
next
  case Prune
  with assms show ?thesis
    by (auto simp: roster_inv_def prune_def hm_simps hm_wf_intros split: option.splits if_splits)
next
  case (Touch tok)
  with assms show ?thesis by (auto simp: roster_inv_def touch_client_def hm_simps)
next
  case (MarkGone tok)
  with assms show ?thesis by (auto simp: roster_inv_def mark_gone_def hm_simps)
qed

text \<open>One step of anybody leaves a route that is still alive at a later instant in place.\<close>

lemma resolve_session_step:
  assumes live: "resolve_session later name r = Some tok"
    and le: "now \<le> later" and inv: "roster_inv now r"
    and keep: "op \<noteq> MarkGone tok" and cfg: "gone_after (ro_config r) \<le> prune_after (ro_config r)"
  shows "resolve_session later name (roster_step now op r) = Some tok"
proof -
  obtain e where e: "hm_get (ro_entries r) name = Some e" "re_token_id e = tok"
    and st: "state_at later (ro_config r) e \<noteq> Gone"
    using live by (auto simp: resolve_session_Some)
  have now_st: "state_at now (ro_config r) e \<noteq> Gone"
    using not_Gone_earlier [OF le st] .
  have seen: "re_last_seen e \<le> now" using inv e by (auto simp: roster_inv_def)
  have ng: "\<not> re_gone_now e" "later - re_last_seen e < gone_after (ro_config r)"
    using st by (simp_all add: not_Gone_iff)
  have fresh: "later - now < gone_after (ro_config r)"
    using ng seen by linarith
  show ?thesis
  proof (cases op)
    case (Advertise name' h tok' cl mode hsid)
    show ?thesis
    proof (cases "name' = name")
      case True
      with Advertise e now_st ng fresh show ?thesis
        by (cases "tok' = tok")
           (auto simp: advertise_with_mode_def Let_def resolve_session_Some not_Gone_iff hm_simps)
    next
      case False
      with Advertise live show ?thesis
        by (auto simp: advertise_with_mode_def Let_def resolve_session_Some hm_simps
              split: option.splits)
    qed
  next
    case (Touch tok')
    with e ng fresh show ?thesis
      by (auto simp: touch_client_def resolve_session_Some not_Gone_iff hm_simps)
  next
    case (SetBlocked name' b)
    with e ng show ?thesis
      by (auto simp: set_blocked_def resolve_session_Some not_Gone_iff hm_simps
            split: option.splits)
  next
    case (MarkGone tok')
    with e ng keep show ?thesis
      by (auto simp: mark_gone_def resolve_session_Some not_Gone_iff hm_simps)
  next
    case Prune
    have "now - re_last_seen e < prune_after (ro_config r)"
      using ng le cfg by linarith
    with Prune e ng inv show ?thesis
      by (auto simp: prune_def resolve_session_Some not_Gone_iff hm_simps roster_inv_def)
  qed
qed

text \<open>A run of steps at non-decreasing instants, starting no earlier than \<open>now\<close> and ending by \<open>later\<close>.\<close>

fun timed_from :: "instant \<Rightarrow> (instant \<times> roster_op) list \<Rightarrow> instant \<Rightarrow> bool" where
  "timed_from now [] later \<longleftrightarrow> now \<le> later"
| "timed_from now ((t, op) # ops) later \<longleftrightarrow> now \<le> t \<and> timed_from t ops later"

lemma timed_from_le: "timed_from now ops later \<Longrightarrow> now \<le> later"
  by (induction now ops later rule: timed_from.induct) auto

lemma roster_run_inv:
  "roster_inv now r \<Longrightarrow> timed_from now ops later \<Longrightarrow> roster_inv later (roster_run ops r)"
proof (induction now ops later arbitrary: r rule: timed_from.induct)
  case (1 now later)
  then show ?case by (auto intro: roster_inv_mono)
next
  case (2 now t op ops later)
  then show ?case by (auto intro: roster_step_inv roster_inv_mono)
qed

text \<open>
  A row owned by \<open>tok\<close>, not declared gone, whose last sign of life is not older than \<open>since\<close>.
\<close>

definition alive_row :: "string \<Rightarrow> string \<Rightarrow> instant \<Rightarrow> roster \<Rightarrow> bool" where
  "alive_row name tok since r \<longleftrightarrow>
     (\<exists>e. hm_get (ro_entries r) name = Some e \<and> re_token_id e = tok \<and> \<not> re_gone_now e \<and>
          since \<le> re_last_seen e)"

lemma alive_row_step:
  assumes row: "alive_row name tok since r" and inv: "roster_inv now r"
    and young: "now - since < gone_after (ro_config r)" and keep: "op \<noteq> MarkGone tok"
    and cfg: "gone_after (ro_config r) \<le> prune_after (ro_config r)"
  shows "alive_row name tok since (roster_step now op r)"
proof -
  obtain e where e: "hm_get (ro_entries r) name = Some e" "re_token_id e = tok"
      "\<not> re_gone_now e" "since \<le> re_last_seen e"
    using row by (auto simp: alive_row_def)
  have seen: "re_last_seen e \<le> now" using inv e by (auto simp: roster_inv_def)
  have young_e: "now - re_last_seen e < gone_after (ro_config r)"
    using e(4) young by linarith
  show ?thesis
  proof (cases op)
    case (Advertise name' h tok' cl mode hsid)
    with e seen young_e show ?thesis
      by (cases "name' = name")
         (auto simp: alive_row_def advertise_with_mode_def Let_def hm_simps not_Gone_iff
            split: option.splits sum.splits)
  next
    case (Touch tok')
    with e seen show ?thesis by (auto simp: alive_row_def touch_client_def hm_simps)
  next
    case (SetBlocked name' b)
    with e show ?thesis
      by (auto simp: alive_row_def set_blocked_def hm_simps split: option.splits)
  next
    case (MarkGone tok')
    with e keep show ?thesis by (auto simp: alive_row_def mark_gone_def hm_simps)
  next
    case Prune
    have "now - re_last_seen e < prune_after (ro_config r)"
      using young_e cfg by linarith
    with Prune e inv show ?thesis
      by (auto simp: alive_row_def prune_def hm_simps roster_inv_def)
  qed
qed

lemma alive_row_touch:
  "alive_row name tok since r \<Longrightarrow> alive_row name tok now (touch_client now tok r)"
  by (auto simp: alive_row_def touch_client_def hm_simps)

text \<open>Heartbeats of one client: every pause before the next one is shorter than \<open>period\<close>.\<close>

fun beating :: "duration \<Rightarrow> string \<Rightarrow> instant \<Rightarrow> (instant \<times> roster_op) list \<Rightarrow> instant \<Rightarrow> bool" where
  "beating period tok beat [] later \<longleftrightarrow> later - beat < period"
| "beating period tok beat ((t, op) # ops) later \<longleftrightarrow>
     (if op = Touch tok then t - beat < period \<and> beating period tok t ops later
      else beating period tok beat ops later)"

lemma beating_young:
  "beating period tok beat ops later \<Longrightarrow> timed_from now ops later \<Longrightarrow> now - beat < period"
  by (induction period tok beat ops later arbitrary: now rule: beating.induct)
     (auto split: if_splits, (meson diff_le_mono le_less_trans)+)

lemma alive_row_beating:
  assumes "alive_row name tok beat r" and "roster_inv now r"
    and "timed_from now ops later" and "beating period tok beat ops later"
    and "period \<le> gone_after (ro_config r)"
    and "gone_after (ro_config r) \<le> prune_after (ro_config r)"
    and "\<forall>(t, op) \<in> set ops. op \<noteq> MarkGone tok"
  shows "\<exists>since. alive_row name tok since (roster_run ops r) \<and> later - since < period"
  using assms
proof (induction ops arbitrary: r beat now)
  case Nil
  then show ?case by auto
next
  case (Cons p ops)
  obtain t op where p: "p = (t, op)" by (cases p)
  have inv_t: "roster_inv t r" using Cons.prems(2,3) p by (auto intro: roster_inv_mono)
  have young: "t - beat < gone_after (ro_config r)"
    using beating_young [OF Cons.prems(4), of t] Cons.prems(3,5) p by auto
  have next_inv: "roster_inv t (roster_step t op r)" using roster_step_inv [OF inv_t] .
  have kept: "alive_row name tok beat (roster_step t op r)"
    using Cons.prems p young by (intro alive_row_step inv_t) auto
  show ?case
  proof (cases "op = Touch tok")
    case True
    have "alive_row name tok t (roster_step t op r)"
      using True alive_row_touch [OF Cons.prems(1)] by simp
    from Cons.IH [OF this next_inv] Cons.prems p True show ?thesis by auto
  next
    case False
    from Cons.IH [OF kept next_inv] Cons.prems p False show ?thesis by auto
  qed
qed

text \<open>Every row of \<open>tok\<close> has been declared gone.\<close>

definition dead_rows :: "string \<Rightarrow> roster \<Rightarrow> bool" where
  "dead_rows tok r \<longleftrightarrow>
     (\<forall>(name, e) \<in> set (ro_entries r). re_token_id e = tok \<longrightarrow> re_gone_now e)"

lemma set_hm_insert: "set (hm_insert k v m) \<subseteq> insert (k, v) (set m)"
  unfolding hm_insert_def by (induction m) auto

lemma dead_rows_insert:
  "dead_rows tok r \<Longrightarrow> re_token_id e = tok \<longrightarrow> re_gone_now e \<Longrightarrow>
   dead_rows tok (r\<lparr>ro_entries := hm_insert name e (ro_entries r)\<rparr>)"
  using set_hm_insert [of name e "ro_entries r"] by (auto simp: dead_rows_def)

lemma dead_rows_mark_gone: "dead_rows tok (mark_gone tok r)"
  by (auto simp: dead_rows_def mark_gone_def hm_map_values_def)

lemma dead_rows_step:
  assumes dead: "dead_rows tok r" and no: "\<forall>name h cl m s. op \<noteq> Advertise name h tok cl m s"
  shows "dead_rows tok (roster_step now op r)"
proof (cases op)
  case (Advertise name h tok' cl m s)
  with no have "tok' \<noteq> tok" by blast
  with Advertise dead show ?thesis
    by (auto simp: advertise_with_mode_def Let_def intro!: dead_rows_insert
          split: option.splits sum.splits if_splits)
next
  case (SetBlocked name b)
  have "re_token_id e = tok \<longrightarrow> re_gone_now e" if "hm_get (ro_entries r) name = Some e" for e
    using dead hm_get_SomeD [OF that] by (auto simp: dead_rows_def)
  with SetBlocked dead show ?thesis
    by (auto simp: set_blocked_def intro!: dead_rows_insert split: option.splits)
qed (use dead in \<open>auto simp: dead_rows_def touch_client_def mark_gone_def prune_def
       hm_map_values_def hm_retain_def split: if_splits\<close>)

lemma dead_rows_run:
  "dead_rows tok r \<Longrightarrow>
   \<forall>(t, op) \<in> set ops. \<forall>name h cl m s. op \<noteq> Advertise name h tok cl m s \<Longrightarrow>
   dead_rows tok (roster_run ops r)"
proof (induction ops r rule: roster_run.induct)
  case (1 r)
  then show ?case by simp
next
  case (2 now op ops r)
  then have "dead_rows tok (roster_step now op r)" by (intro dead_rows_step) auto
  with 2 show ?case by simp
qed

lemma dead_rows_unresolved: "dead_rows tok r \<Longrightarrow> resolve_session now name r \<noteq> Some tok"
  by (auto simp: dead_rows_def resolve_session_Some not_Gone_iff dest!: hm_get_SomeD)

lemma mark_gone_others:
  assumes "resolve_session now name r \<noteq> Some tok"
  shows "resolve_session now name (mark_gone tok r) = resolve_session now name r"
proof (cases "hm_get (ro_entries r) name")
  case None
  then show ?thesis by (simp add: resolve_session_def mark_gone_def hm_simps)
next
  case (Some e)
  with assms show ?thesis
    by (cases "re_token_id e = tok")
       (auto simp: resolve_session_def mark_gone_def hm_simps state_at_def split: if_splits)
qed

lemma mark_gone_resolves:
  "resolve_session now name (mark_gone tok r) =
     (if resolve_session now name r = Some tok then None else resolve_session now name r)"
proof (cases "resolve_session now name r = Some tok")
  case True
  then obtain e where "hm_get (ro_entries r) name = Some e" "re_token_id e = tok"
    by (auto simp: resolve_session_Some)
  with True show ?thesis by (simp add: resolve_session_def mark_gone_def hm_simps state_at_def)
qed (simp add: mark_gone_others)

lemma resolve_session_alive:
  "resolve_session now name r = Some tok \<Longrightarrow>
   \<exists>since. alive_row name tok since r \<and> now - since < gone_after (ro_config r)"
  by (auto simp: resolve_session_Some alive_row_def not_Gone_iff)

section \<open>Properties\<close>

text \<open>
  C3: a live route cannot be taken away.  If a session still resolves to the connection \<open>tok\<close>
  at a later instant, then no interleaving of advertisements (of anybody, for this or any other
  name), heartbeats, blocked-status pushes, prunes and closures of other connections up to that
  instant changes what the name resolves to.
\<close>

theorem roster_route_not_hijacked:
  assumes "resolve_session later name r = Some tok"
    and "roster_inv now r" and "timed_from now ops later"
    and "\<forall>(t, op) \<in> set ops. op \<noteq> MarkGone tok"
    and "gone_after (ro_config r) \<le> prune_after (ro_config r)"
  shows "resolve_session later name (roster_run ops r) = Some tok"
  using assms
proof (induction ops arbitrary: r now)
  case Nil
  then show ?case by simp
next
  case (Cons p ops)
  obtain t op where p: "p = (t, op)" by (cases p)
  have inv: "roster_inv t r" using Cons.prems(2,3) p by (auto intro: roster_inv_mono)
  have le: "t \<le> later" using Cons.prems(3) p by (auto dest: timed_from_le)
  have "resolve_session later name (roster_step t op r) = Some tok"
    using resolve_session_step [OF Cons.prems(1) le inv] Cons.prems(4,5) p by auto
  with Cons.IH [OF this roster_step_inv [OF inv]] Cons.prems p show ?case by auto
qed

definition demo_config :: roster_config where
  "demo_config = \<lparr>reconnect_after = 45, gone_after = 180, prune_after = 360, sweep_interval = 30\<rparr>"

definition demo_entry :: "string \<Rightarrow> instant \<Rightarrow> roster_entry" where
  "demo_entry tok seen =
     \<lparr>re_harness = ''opencode'', re_token_id = tok, re_client_id = ''cli_1'', re_last_seen = seen,
      re_gone_now = False, re_mode = None, re_harness_session_id = None, re_blocked = False\<rparr>"

definition demo_roster :: roster where
  "demo_roster = \<lparr>ro_entries = [(''alpha'', demo_entry ''tok_1'' 10)], ro_config = demo_config\<rparr>"

lemmas demo_simps = demo_roster_def demo_config_def demo_entry_def

lemma demo_roster_inv: "10 \<le> now \<Longrightarrow> roster_inv now demo_roster"
  by (auto simp: roster_inv_def demo_simps hm_wf_def hm_get_def split: if_splits)

lemma demo_roster_resolves: "resolve_session 100 ''alpha'' demo_roster = Some ''tok_1''"
  by (simp add: resolve_session_def demo_simps hm_get_def state_at_def)

theorem roster_route_not_hijacked_witness:
  "resolve_session 100 ''alpha''
     (roster_run [(20, Advertise ''alpha'' ''claude'' ''tok_2'' ''cli_2'' None None),
                  (30, MarkGone ''tok_2''), (40, Prune)] demo_roster) = Some ''tok_1''"
  by (rule roster_route_not_hijacked [OF demo_roster_resolves demo_roster_inv [of 10]])
     (simp_all add: demo_simps)

text \<open>
  C33: heartbeats keep a session \<open>connected\<close>.  A row owned by \<open>tok\<close> with a sign of life at
  \<open>beat\<close> is still reported \<open>Connected\<close> at \<open>later\<close> if the client's pings arrive with every pause
  shorter than \<open>reconnect_after\<close>, whatever other clients and the prune sweep do in between.
\<close>

theorem roster_heartbeats_keep_connected:
  assumes "alive_row name tok beat r" and "roster_inv now r" and "timed_from now ops later"
    and "beating (reconnect_after (ro_config r)) tok beat ops later"
    and "reconnect_after (ro_config r) \<le> gone_after (ro_config r)"
    and "gone_after (ro_config r) \<le> prune_after (ro_config r)"
    and "\<forall>(t, op) \<in> set ops. op \<noteq> MarkGone tok"
  shows "\<exists>e. hm_get (ro_entries (roster_run ops r)) name = Some e \<and> re_token_id e = tok \<and>
             state_at later (ro_config r) e = Connected"
proof -
  obtain since where row: "alive_row name tok since (roster_run ops r)"
    and young: "later - since < reconnect_after (ro_config r)"
    using alive_row_beating [OF assms(1,2,3,4,5,6,7)] by blast
  then obtain e where e: "hm_get (ro_entries (roster_run ops r)) name = Some e" "re_token_id e = tok"
      "\<not> re_gone_now e" "since \<le> re_last_seen e"
    by (auto simp: alive_row_def)
  then have "later - re_last_seen e < reconnect_after (ro_config r)" using young by linarith
  with e assms(5) show ?thesis by (auto simp: state_at_def Let_def)
qed

theorem roster_heartbeats_keep_connected_witness:
  "\<exists>e. hm_get (ro_entries (roster_run [(40, Touch ''tok_1''), (80, Touch ''tok_1''), (90, Prune)]
             demo_roster)) ''alpha'' = Some e \<and> re_token_id e = ''tok_1'' \<and>
       state_at 120 (ro_config demo_roster) e = Connected"
proof (rule roster_heartbeats_keep_connected)
  show "alive_row ''alpha'' ''tok_1'' 10 demo_roster"
    by (simp add: alive_row_def demo_simps hm_get_def)
  show "roster_inv 10 demo_roster" by (rule demo_roster_inv) simp
qed (simp_all add: demo_simps)

text \<open>
  A certain closure is final.  After \<open>mark_gone\<close> no session resolves to that connection at
  any instant, however many heartbeats, prunes, blocked-status pushes and advertisements of
  other connections follow, until the connection itself advertises again; and the routes of
  every other connection are exactly what they were.
\<close>

lemma roster_mark_gone_final:
  assumes "\<forall>(t, op) \<in> set ops. \<forall>name h cl m s. op \<noteq> Advertise name h tok cl m s"
  shows "resolve_session at name (roster_run ops (mark_gone tok r)) \<noteq> Some tok \<and>
         (resolve_session at name r \<noteq> Some tok \<longrightarrow>
          resolve_session at name (mark_gone tok r) = resolve_session at name r)"
  using dead_rows_unresolved [OF dead_rows_run [OF dead_rows_mark_gone assms]] mark_gone_others
  by blast

lemma roster_mark_gone_final_at_work:
  "resolve_session 100 ''alpha'' demo_roster = Some ''tok_1'' \<and>
   resolve_session 100 ''alpha'' (roster_run [(60, Touch ''tok_1'')] (mark_gone ''tok_1'' demo_roster))
     \<noteq> Some ''tok_1'' \<and>
   resolve_session 100 ''alpha'' (mark_gone ''tok_2'' demo_roster) =
     resolve_session 100 ''alpha'' demo_roster"
  using demo_roster_resolves
    roster_mark_gone_final [of "[(60, Touch ''tok_1'')]" "''tok_1''" 100 "''alpha''" demo_roster]
    roster_mark_gone_final [of "[]" "''tok_2''" 100 "''alpha''" demo_roster]
  by simp

text \<open>
  The two outcomes of an advertisement.  It is refused exactly when the name is held by a
  different connection that is not gone, the refusal names that holder, and nothing changes;
  otherwise the advertised row is stored unblocked, the name resolves to the advertiser from
  then on, and no other name is touched.
\<close>

lemma roster_advertise_outcome:
  assumes "0 < gone_after (ro_config r)"
  shows "case advertise_with_mode now name harness tok cl mode hsid r of
           Inl c \<Rightarrow> (\<exists>holder. hm_get (ro_entries r) name = Some holder \<and>
                      re_token_id holder \<noteq> tok \<and>
                      resolve_session now name r = Some (re_token_id holder) \<and>
                      cf_held_by_client_id c = re_client_id holder \<and> cf_session c = name)
         | Inr r' \<Rightarrow> (resolve_session now name r = None \<or> resolve_session now name r = Some tok) \<and>
                     resolve_session now name r' = Some tok \<and>
                     (\<exists>e. hm_get (ro_entries r') name = Some e \<and> \<not> re_blocked e \<and>
                          re_client_id e = cl \<and> re_mode e = mode) \<and>
                     (\<forall>other. other \<noteq> name \<longrightarrow>
                        hm_get (ro_entries r') other = hm_get (ro_entries r) other)"
  using assms
  by (auto simp: advertise_with_mode_def Let_def resolve_session_def hm_simps state_at_def
        split: option.splits)

lemma roster_advertise_outcome_at_work:
  "0 < gone_after (ro_config demo_roster) \<and>
   (case advertise_with_mode 20 ''beta'' ''opencode'' ''tok_2'' ''cli_2'' None None demo_roster of
      Inl c \<Rightarrow> False
    | Inr r' \<Rightarrow> resolve_session 20 ''beta'' r' = Some ''tok_2'')"
proof -
  have g: "0 < gone_after (ro_config demo_roster)" by (simp add: demo_simps)
  have "hm_get (ro_entries demo_roster) ''beta'' = None" by (simp add: demo_simps hm_get_def)
  then show ?thesis
    using g roster_advertise_outcome 
      [OF g, where now = 20 and name = "''beta''" and harness = "''opencode''" and
         tok = "''tok_2''" and cl = "''cli_2''" and mode = None and hsid = None]
    by (auto split: sum.splits)
qed

text \<open>
  \<open>roster\<close> and \<open>status\<close> agree.  The snapshot is strictly sorted by session name, holds one
  row per stored session, and the live count that \<open>status\<close> reports is the number of its rows
  not shown as \<open>gone\<close>.
\<close>

lemma roster_snapshot_sound:
  assumes "hm_wf (ro_entries r)"
  shows "sorted_wrt (<) (map row_name (roster_snapshot now r)) \<and>
         set (map row_name (roster_snapshot now r)) = fst ` set (ro_entries r) \<and>
         live_count now r =
           length (filter (\<lambda>row. row_state row \<noteq> Gone) (roster_snapshot now r))"
proof -
  let ?rows = "map (roster_row_of now (ro_config r)) (ro_entries r)"
  have names: "map row_name ?rows = map fst (ro_entries r)"
    by (simp add: roster_row_of_def case_prod_beta)
  have "distinct (map row_name ?rows)" using assms by (simp only: names hm_wf_def)
  then have d: "distinct (map row_name (roster_snapshot now r))"
    unfolding roster_snapshot_def by (simp only: distinct_map set_sort distinct_sort)
  have names_set: "set (map row_name (roster_snapshot now r)) = fst ` set (ro_entries r)"
    using arg_cong [OF names, of set] by (simp add: roster_snapshot_def image_image)
  have "length (filter (\<lambda>row. row_state row \<noteq> Gone) (sort_key row_name ?rows)) =
        length (filter (\<lambda>row. row_state row \<noteq> Gone) ?rows)"
    by (simp add: filter_sort)
  also have "\<dots> = live_count now r"
    by (simp add: live_count_def filter_map comp_def roster_row_of_def case_prod_beta)
  finally show ?thesis
    using d names_set
    by (simp add: roster_snapshot_def strict_sorted_iff)
qed

lemma roster_snapshot_sound_at_work:
  "hm_wf (ro_entries demo_roster) \<and>
   sorted_wrt (<) (map row_name (roster_snapshot 20 demo_roster)) \<and>
   set (map row_name (roster_snapshot 20 demo_roster)) = fst ` set (ro_entries demo_roster) \<and>
   live_count 20 demo_roster =
     length (filter (\<lambda>row. row_state row \<noteq> Gone) (roster_snapshot 20 demo_roster))"
proof -
  have "hm_wf (ro_entries demo_roster)" by (simp add: demo_simps hm_wf_def)
  with roster_snapshot_sound [OF this] show ?thesis by blast
qed

text \<open>
  Unless \<open>HOLLER_ROSTER_PRUNE_MS\<close> is set, every environment gives a configuration whose
  prune horizon is no shorter than its gone horizon (the condition the route theorems need);
  unset or unparseable values fall back to 45s, 180s, twice the gone horizon and 30s.
\<close>

lemma roster_config_default_horizons:
  assumes "env ''HOLLER_ROSTER_PRUNE_MS'' = None"
  shows "gone_after (roster_config_from_env env) \<le> prune_after (roster_config_from_env env) \<and>
         prune_after (roster_config_from_env env) = 2 * gone_after (roster_config_from_env env) \<and>
         ((\<forall>k. env k = None) \<longrightarrow> roster_config_from_env env = roster_config_default)"
  using assms
  by (simp add: roster_config_from_env_def Let_def env_duration_ms_def roster_config_default_def)

theorem roster_config_default_horizons_witness:
  "prune_after (roster_config_from_env (\<lambda>_. None)) =
     2 * gone_after (roster_config_from_env (\<lambda>_. None)) \<and>
   roster_config_from_env (\<lambda>_. None) = roster_config_default"
  using roster_config_default_horizons [of "\<lambda>_. None", OF refl] by blast

text \<open>
  Pruning is invisible to routing.  As long as the prune horizon is at least the gone
  horizon, a sweep changes neither what a session resolves to nor the live count, now or later.
\<close>

lemma roster_prune_preserves_routes:
  assumes wf: "hm_wf (ro_entries r)" and le: "now \<le> later"
    and cfg: "gone_after (ro_config r) \<le> prune_after (ro_config r)"
  shows "resolve_session later name (prune now r) = resolve_session later name r \<and>
         live_count later (prune now r) = live_count later r"
proof -
  have dropped: "state_at later (ro_config r) e = Gone"
    if "\<not> now - re_last_seen e < prune_after (ro_config r)" for e
    using that le cfg by (auto simp: state_at_def Let_def)
  have "resolve_session later name (prune now r) = resolve_session later name r"
    using wf dropped
    by (cases "hm_get (ro_entries r) name") (auto simp: resolve_session_def prune_def hm_simps)
  moreover have "live_count later (prune now r) = live_count later r"
    using dropped
    by (auto simp: live_count_def prune_def hm_retain_def filter_map comp_def case_prod_beta
          intro!: arg_cong [where f = length] filter_cong)
  ultimately show ?thesis by blast
qed

lemma roster_prune_preserves_routes_at_work:
  "resolve_session 100 ''alpha'' (prune 50 demo_roster) = resolve_session 100 ''alpha'' demo_roster \<and>
   live_count 100 (prune 50 demo_roster) = live_count 100 demo_roster"
  by (rule roster_prune_preserves_routes) (simp_all add: demo_simps hm_wf_def)

text \<open>
  Pruning looks only at the age of the last sign of life, not at whether the row is gone:
  with a prune horizon below the reconnect horizon (\<open>HOLLER_ROSTER_PRUNE_MS\<close> is read without
  any check) a sweep drops a session that is still \<open>connected\<close> and reachable.
\<close>

lemma roster_prune_can_drop_connected:
  "\<exists>now r e. hm_get (ro_entries r) ''alpha'' = Some e \<and> state_at now (ro_config r) e = Connected \<and>
     resolve_session now ''alpha'' r = Some (re_token_id e) \<and>
     resolve_session now ''alpha'' (prune now r) = None"
proof -
  let ?r = "demo_roster\<lparr>ro_config := demo_config\<lparr>prune_after := 5\<rparr>\<rparr>"
  let ?e = "demo_entry ''tok_1'' 10"
  have "hm_get (ro_entries ?r) ''alpha'' = Some ?e \<and> state_at 30 (ro_config ?r) ?e = Connected \<and>
     resolve_session 30 ''alpha'' ?r = Some (re_token_id ?e) \<and>
     resolve_session 30 ''alpha'' (prune 30 ?r) = None"
    by (simp add: demo_simps hm_get_def state_at_def resolve_session_def prune_def hm_retain_def)
  then show ?thesis by blast
qed

end
