(* ===== verification/Lockout.thy ===== *)
theory Lockout
  imports Prelude
begin

text \<open>
  The failed-authentication lockout of \<open>src/src/wire/lockout.rs\<close>: per source address, the
  failures still inside a sliding window and an optional lockout expiry.  The tracker behind
  the mutex is a record; the two methods take the current instant explicitly and return the
  answer with the new tracker.  Addresses are a type parameter (\<open>IpAddr\<close> is only ever compared
  for equality).
\<close>

section \<open>State and operations\<close>

definition MAX_FAILURES :: u32 where
  "MAX_FAILURES = 5"

definition FAILURE_WINDOW :: duration where
  "FAILURE_WINDOW = from_secs (10 * 60)"

definition LOCKOUT_DURATION :: duration where
  "LOCKOUT_DURATION = from_secs (10 * 60)"

record ip_state =
  failures :: "instant list"
  locked_until :: "instant option"

definition ip_state_default :: ip_state where
  "ip_state_default = \<lparr>failures = [], locked_until = None\<rparr>"

record 'ip lockout_tracker =
  by_ip :: "('ip, ip_state) hashmap"
  max_failures :: u32
  window :: duration
  lockout_duration :: duration

definition with_params :: "u32 \<Rightarrow> duration \<Rightarrow> duration \<Rightarrow> 'ip lockout_tracker" where
  "with_params mf w d =
     \<lparr>by_ip = [], max_failures = mf, window = w, lockout_duration = d\<rparr>"

definition lockout_new :: "'ip lockout_tracker" where
  "lockout_new = with_params MAX_FAILURES FAILURE_WINDOW LOCKOUT_DURATION"

definition is_locked_out ::
  "instant \<Rightarrow> 'ip \<Rightarrow> 'ip lockout_tracker \<Rightarrow> bool \<times> 'ip lockout_tracker" where
  "is_locked_out now ip t =
     (case Option.bind (hm_get (by_ip t) ip) locked_until of
        Some until \<Rightarrow>
          if until > now then (True, t)
          else (False, t\<lparr>by_ip := hm_remove ip (by_ip t)\<rparr>)
      | None \<Rightarrow> (False, t))"

definition record_failure ::
  "instant \<Rightarrow> 'ip \<Rightarrow> 'ip lockout_tracker \<Rightarrow> bool \<times> 'ip lockout_tracker" where
  "record_failure now ip t =
     (let state = (case hm_get (by_ip t) ip of None \<Rightarrow> ip_state_default | Some s \<Rightarrow> s)
      in if (case locked_until state of None \<Rightarrow> False | Some until \<Rightarrow> until > now)
         then (False, t\<lparr>by_ip := hm_insert ip state (by_ip t)\<rparr>)
         else
           let fs = filter (\<lambda>f. now - f < window t) (failures state) @ [now]
           in if (of_nat (length fs) :: u32) \<ge> max_failures t
              then (True, t\<lparr>by_ip := hm_insert ip
                      \<lparr>failures = [], locked_until = Some (now + lockout_duration t)\<rparr> (by_ip t)\<rparr>)
              else (False, t\<lparr>by_ip := hm_insert ip (state\<lparr>failures := fs\<rparr>) (by_ip t)\<rparr>))"

text \<open>What the accept path sees: the answer of \<open>is_locked_out\<close> without its housekeeping.\<close>

definition locked_at :: "instant \<Rightarrow> 'ip \<Rightarrow> 'ip lockout_tracker \<Rightarrow> bool" where
  "locked_at now ip t = fst (is_locked_out now ip t)"

section \<open>Runs of the tracker\<close>

datatype 'ip lk_event = Check 'ip instant | Failure 'ip instant

fun lk_step :: "'ip lockout_tracker \<Rightarrow> 'ip lk_event \<Rightarrow> 'ip lockout_tracker" where
  "lk_step t (Check ip now) = snd (is_locked_out now ip t)"
| "lk_step t (Failure ip now) = snd (record_failure now ip t)"

definition lk_run :: "'ip lockout_tracker \<Rightarrow> 'ip lk_event list \<Rightarrow> 'ip lockout_tracker" where
  "lk_run t es = foldl lk_step t es"

fun failure_times :: "'ip \<Rightarrow> 'ip lk_event list \<Rightarrow> instant list" where
  "failure_times ip [] = []"
| "failure_times ip (Check ip' now # es) = failure_times ip es"
| "failure_times ip (Failure ip' now # es) =
     (if ip' = ip then now # failure_times ip es else failure_times ip es)"

text \<open>
  The invariant: every address keeps fewer failures than the limit, so the cast of the count
  to \<open>u32\<close> never truncates, and the keys of the table stay distinct.
\<close>

definition lk_inv :: "'ip lockout_tracker \<Rightarrow> bool" where
  "lk_inv t \<longleftrightarrow> hm_wf (by_ip t) \<and> 0 < max_failures t \<and>
     (\<forall>ip s. hm_get (by_ip t) ip = Some s \<longrightarrow> length (failures s) < unat (max_failures t))"

definition ip_failures :: "'ip \<Rightarrow> 'ip lockout_tracker \<Rightarrow> instant list" where
  "ip_failures ip t = (case hm_get (by_ip t) ip of None \<Rightarrow> [] | Some s \<Rightarrow> failures s)"

section \<open>Lemmas\<close>

lemma with_params_sel [simp]:
  "by_ip (with_params mf w d) = []" "max_failures (with_params mf w d) = mf"
  "window (with_params mf w d) = w" "lockout_duration (with_params mf w d) = d"
  by (simp_all add: with_params_def)

lemma is_locked_out_frame [simp]:
  "max_failures (snd (is_locked_out now ip t)) = max_failures t"
  "window (snd (is_locked_out now ip t)) = window t"
  "lockout_duration (snd (is_locked_out now ip t)) = lockout_duration t"
  by (auto simp: is_locked_out_def split: option.splits)

lemma record_failure_frame [simp]:
  "max_failures (snd (record_failure now ip t)) = max_failures t"
  "window (snd (record_failure now ip t)) = window t"
  "lockout_duration (snd (record_failure now ip t)) = lockout_duration t"
  by (auto simp: record_failure_def Let_def split: option.splits)

lemma lk_step_frame [simp]:
  "max_failures (lk_step t e) = max_failures t"
  "window (lk_step t e) = window t"
  "lockout_duration (lk_step t e) = lockout_duration t"
  by (cases e; simp)+

lemma is_locked_out_other:
  "ip' \<noteq> ip \<Longrightarrow> hm_get (by_ip (snd (is_locked_out now ip t))) ip' = hm_get (by_ip t) ip'"
  by (auto simp: is_locked_out_def hm_simps split: option.splits)

lemma record_failure_other:
  "ip' \<noteq> ip \<Longrightarrow> hm_get (by_ip (snd (record_failure now ip t))) ip' = hm_get (by_ip t) ip'"
  by (auto simp: record_failure_def Let_def hm_simps split: option.splits)

lemma count_cast_exact:
  assumes "length fs \<le> unat (m :: u32)"
  shows "(of_nat (length fs) :: u32) \<ge> m \<longleftrightarrow> length fs \<ge> unat m"
proof -
  have "unat m < 2 ^ 32"
    using unsigned_less [where w = m and ?'a = nat] by simp
  with assms have "unat (of_nat (length fs) :: u32) = length fs"
    by (simp add: unat_of_nat take_bit_nat_eq_self)
  then show ?thesis by (simp add: word_le_nat_alt)
qed

lemma kept_failures_bound:
  assumes "lk_inv t" and "hm_get (by_ip t) ip = Some s"
  shows "length (filter P (failures s) @ [now]) \<le> unat (max_failures t)"
proof -
  have "length (failures s) < unat (max_failures t)"
    using assms by (auto simp: lk_inv_def)
  then show ?thesis
    using length_filter_le [of P "failures s"] by (simp del: length_filter_le)
qed

lemma default_failures_bound:
  "lk_inv t \<Longrightarrow> length (filter P (failures ip_state_default) @ [now]) \<le> unat (max_failures t)"
  by (simp add: lk_inv_def ip_state_default_def word_less_nat_alt Suc_leI)

text \<open>The three outcomes of recording a failure, with the count read as a natural number.\<close>

lemma record_failure_cases:
  fixes t :: "'ip lockout_tracker" and ip :: 'ip and now :: instant
  assumes inv: "lk_inv t"
  defines "s \<equiv> (case hm_get (by_ip t) ip of None \<Rightarrow> ip_state_default | Some s \<Rightarrow> s)"
  defines "fs \<equiv> filter (\<lambda>f. now - f < window t) (failures s) @ [now]"
  shows "record_failure now ip t =
     (if (case locked_until s of None \<Rightarrow> False | Some until \<Rightarrow> until > now)
      then (False, t\<lparr>by_ip := hm_insert ip s (by_ip t)\<rparr>)
      else if length fs \<ge> unat (max_failures t)
      then (True, t\<lparr>by_ip := hm_insert ip
              \<lparr>failures = [], locked_until = Some (now + lockout_duration t)\<rparr> (by_ip t)\<rparr>)
      else (False, t\<lparr>by_ip := hm_insert ip (s\<lparr>failures := fs\<rparr>) (by_ip t)\<rparr>))"
proof -
  have "length fs \<le> unat (max_failures t)"
    using kept_failures_bound [OF inv] default_failures_bound [OF inv]
    by (auto simp: fs_def s_def split: option.split)
  then have "((of_nat (length fs) :: u32) \<ge> max_failures t) = (length fs \<ge> unat (max_failures t))"
    by (rule count_cast_exact)
  then show ?thesis
    by (simp add: record_failure_def Let_def s_def fs_def)
qed

lemma is_locked_out_inv: "lk_inv t \<Longrightarrow> lk_inv (snd (is_locked_out now ip t))"
  by (auto simp: is_locked_out_def lk_inv_def hm_simps hm_wf_intros split: option.splits if_splits)

lemma record_failure_inv:
  assumes "lk_inv t"
  shows "lk_inv (snd (record_failure now ip t))"
proof -
  let ?s = "case hm_get (by_ip t) ip of None \<Rightarrow> ip_state_default | Some s \<Rightarrow> s"
  have "0 < max_failures t" using assms by (simp add: lk_inv_def)
  then have pos: "0 < unat (max_failures t)" by (simp add: word_less_nat_alt)
  have "length (failures ?s) < unat (max_failures t)"
    using assms pos by (auto simp: lk_inv_def ip_state_default_def split: option.split)
  then show ?thesis
    using assms pos unfolding record_failure_cases [OF assms]
    by (auto simp: lk_inv_def hm_simps hm_wf_intros)
qed

lemma lk_step_inv: "lk_inv t \<Longrightarrow> lk_inv (lk_step t e)"
  by (cases e) (auto intro: is_locked_out_inv record_failure_inv)

lemma lk_run_inv: "lk_inv t \<Longrightarrow> lk_inv (lk_run t es)"
  unfolding lk_run_def by (induction es arbitrary: t) (auto intro: lk_step_inv)

lemma lk_run_snoc [simp]: "lk_run t (es @ [e]) = lk_step (lk_run t es) e"
  by (simp add: lk_run_def)

lemma lk_run_frame [simp]:
  "max_failures (lk_run t es) = max_failures t"
  "window (lk_run t es) = window t"
  "lockout_duration (lk_run t es) = lockout_duration t"
  by (induction es rule: rev_induct) (auto simp: lk_run_def)

lemma failure_times_append [simp]:
  "failure_times ip (es @ es') = failure_times ip es @ failure_times ip es'"
  by (induction es rule: failure_times.induct) auto

lemma lk_inv_new: "0 < mf \<Longrightarrow> lk_inv (with_params mf w d)"
  by (simp add: lk_inv_def with_params_def)

lemma ip_failures_step_Check:
  "ip_failures ip (lk_step t (Check ip' now)) \<in> {ip_failures ip t, []}"
  by (cases "ip' = ip")
     (auto simp: ip_failures_def is_locked_out_other is_locked_out_def hm_simps
        split: option.splits if_splits)

lemma ip_failures_step_Failure:
  "ip_failures ip (lk_step t (Failure ip' now)) \<in>
     {ip_failures ip t, [], filter (\<lambda>f. now - f < window t) (ip_failures ip t) @ [now]}
   \<and> (ip' \<noteq> ip \<longrightarrow> ip_failures ip (lk_step t (Failure ip' now)) = ip_failures ip t)"
  by (cases "ip' = ip")
     (auto simp: ip_failures_def record_failure_other record_failure_def Let_def hm_simps
        ip_state_default_def split: option.splits if_splits)

lemma kept_failures_recorded:
  "length (filter P (ip_failures ip (lk_run (with_params mf w d) es)))
   \<le> length (filter P (failure_times ip es))"
proof (induction es rule: rev_induct)
  case Nil
  then show ?case by (simp add: lk_run_def with_params_def ip_failures_def)
next
  case (snoc e es)
  let ?t = "lk_run (with_params mf w d) es"
  have le: "length (filter P (filter Q (ip_failures ip ?t))) \<le> length (filter P (ip_failures ip ?t))" for Q
    using length_filter_le [of Q "filter P (ip_failures ip ?t)"]
    by (simp add: conj_commute del: length_filter_le)
  show ?case
  proof (cases e)
    case (Check ip' now)
    with snoc ip_failures_step_Check [of ip ?t ip' now] show ?thesis by auto
  next
    case (Failure ip' now)
    with snoc le [of "\<lambda>f. now - f < window ?t"] ip_failures_step_Failure [of ip ?t ip' now]
    show ?thesis by (cases "ip' = ip") auto
  qed
qed

text \<open>A source whose lockout expires at \<open>until\<close>.\<close>

definition banned :: "'ip \<Rightarrow> instant \<Rightarrow> 'ip lockout_tracker \<Rightarrow> bool" where
  "banned ip until t \<longleftrightarrow>
     (\<exists>s. hm_get (by_ip t) ip = Some s \<and> locked_until s = Some until)"

fun event_time :: "'ip lk_event \<Rightarrow> instant" where
  "event_time (Check ip now) = now"
| "event_time (Failure ip now) = now"

lemma banned_locked_at: "banned ip until t \<Longrightarrow> locked_at now ip t \<longleftrightarrow> now < until"
  by (auto simp: banned_def locked_at_def is_locked_out_def split: if_splits)

lemma banned_cong:
  "hm_get (by_ip t') ip = hm_get (by_ip t) ip \<Longrightarrow> banned ip until t' = banned ip until t"
  by (simp add: banned_def)

lemma banned_step:
  assumes "banned ip until t" and "event_time e < until"
  shows "banned ip until (lk_step t e)"
proof (cases e)
  case (Check ip' now)
  show ?thesis
  proof (cases "ip' = ip")
    case True
    with assms Check show ?thesis by (auto simp: banned_def is_locked_out_def)
  next
    case False
    then have "banned ip until (lk_step t e) = banned ip until t"
      using Check by (intro banned_cong) (simp add: is_locked_out_other)
    with assms(1) show ?thesis by simp
  qed
next
  case (Failure ip' now)
  show ?thesis
  proof (cases "ip' = ip")
    case True
    with assms Failure show ?thesis
      by (auto simp: banned_def record_failure_def Let_def hm_simps)
  next
    case False
    then have "banned ip until (lk_step t e) = banned ip until t"
      using Failure by (intro banned_cong) (simp add: record_failure_other)
    with assms(1) show ?thesis by simp
  qed
qed

lemma banned_run:
  "banned ip until t \<Longrightarrow> \<forall>e \<in> set es. event_time e < until \<Longrightarrow> banned ip until (lk_run t es)"
  by (induction es rule: rev_induct) (auto simp: lk_run_def banned_step)

lemma record_failure_banned:
  "fst (record_failure now ip t) \<Longrightarrow>
   banned ip (now + lockout_duration t) (snd (record_failure now ip t))"
  by (auto simp: record_failure_def Let_def banned_def hm_simps split: option.splits if_splits)

lemma locked_at_banned: "locked_at now ip t \<Longrightarrow> \<exists>until. banned ip until t \<and> now < until"
  by (auto simp: banned_def locked_at_def is_locked_out_def split: option.splits if_splits bind_splits)

text \<open>Recording a failure sets an expiry only when the count of recent failures reaches the limit.\<close>

lemma banned_by_failure:
  assumes "lk_inv t" and "banned ip until (snd (record_failure now ip t))"
  shows "banned ip until t \<or>
         until = now + lockout_duration t \<and>
         unat (max_failures t) \<le> length (filter (\<lambda>f. now - f < window t) (ip_failures ip t)) + 1"
  using assms(2) unfolding record_failure_cases [OF assms(1)]
  by (auto simp: banned_def ip_failures_def ip_state_default_def hm_simps split: option.splits if_splits)

lemma banned_history:
  assumes "0 < mf" and "banned ip until (lk_run (with_params mf w d) es)"
  shows "\<exists>es1 now es2. es = es1 @ Failure ip now # es2 \<and> until = now + d \<and>
           unat mf \<le> length (filter (\<lambda>f. now - f < w) (failure_times ip es1)) + 1"
  using assms(2)
proof (induction es rule: rev_induct)
  case Nil
  then show ?case by (simp add: banned_def lk_run_def with_params_def)
next
  case (snoc e es)
  let ?t = "lk_run (with_params mf w d) es"
  have inv: "lk_inv ?t" using assms(1) by (intro lk_run_inv lk_inv_new)
  have "banned ip until ?t \<or> (\<exists>now. e = Failure ip now \<and> until = now + d \<and>
      unat mf \<le> length (filter (\<lambda>f. now - f < w) (failure_times ip es)) + 1)"
  proof (cases e)
    case (Check ip' now)
    with snoc.prems show ?thesis
      by (cases "ip' = ip")
        (auto simp: banned_def is_locked_out_other is_locked_out_def hm_simps split: option.splits if_splits)
  next
    case (Failure ip' now)
    with snoc.prems banned_by_failure [OF inv, of ip until now] kept_failures_recorded [of "\<lambda>f. now - f < w" ip mf w d es]
    show ?thesis by (cases "ip' = ip") (auto simp: banned_def record_failure_other)
  qed
  then show ?case
  proof
    assume "banned ip until ?t"
    from snoc.IH [OF this] obtain es1 now es2 where "es = es1 @ Failure ip now # es2" "until = now + d"
        "unat mf \<le> length (filter (\<lambda>f. now - f < w) (failure_times ip es1)) + 1" by blast
    then show ?case by (intro exI [of _ es1] exI [of _ now] exI [of _ "es2 @ [e]"]) simp
  qed blast
qed

text \<open>Below the limit, failures inside one window just accumulate, oldest first.\<close>

lemma failures_accumulate:
  assumes "\<forall>x \<in> set ts. \<forall>y \<in> set ts. y - x < w" and "length ts < unat mf" and "0 < mf"
  shows "hm_get (by_ip (lk_run (with_params mf w d) (map (Failure ip) ts))) ip =
           (if ts = [] then None else Some \<lparr>failures = ts, locked_until = None\<rparr>)"
  using assms
proof (induction ts rule: rev_induct)
  case Nil
  then show ?case by (simp add: lk_run_def with_params_def)
next
  case (snoc x ts)
  let ?t = "lk_run (with_params mf w d) (map (Failure ip) ts)"
  have inv: "lk_inv ?t" using snoc.prems by (intro lk_run_inv lk_inv_new)
  have fr: "window ?t = w" "max_failures ?t = mf" by (simp_all add: with_params_def)
  have kept: "filter (\<lambda>f. x - f < w) ts = ts"
    using snoc.prems by (auto simp: filter_id_conv)
  have IH: "hm_get (by_ip ?t) ip = (if ts = [] then None else Some \<lparr>failures = ts, locked_until = None\<rparr>)"
    using snoc by auto
  have "snd (record_failure x ip ?t) =
          ?t\<lparr>by_ip := hm_insert ip \<lparr>failures = ts @ [x], locked_until = None\<rparr> (by_ip ?t)\<rparr>"
    unfolding record_failure_cases [OF inv]
    using IH kept snoc.prems by (auto simp: fr ip_state_default_def)
  then show ?case by (simp add: hm_simps)
qed

section \<open>Properties\<close>

text \<open>
  C31: no false positives.  Whenever a source is locked out, in any history of checks and failures of
  any sources, that history contains a failure of this source less than \<open>lockout_duration\<close> ago at
  which it had, counting that one, at least \<open>max_failures\<close> recorded failures younger than the window.
  So fewer failures than the limit never lock anybody out, nor do other sources' failures.
\<close>

theorem lockout_only_after_enough_failures:
  assumes "0 < mf" and "locked_at at ip (lk_run (with_params mf w d) es)"
  shows "\<exists>es1 now es2. es = es1 @ Failure ip now # es2 \<and> at < now + d \<and>
           unat mf \<le> length (filter (\<lambda>f. now - f < w) (failure_times ip es1)) + 1"
proof -
  obtain until where "banned ip until (lk_run (with_params mf w d) es)" "at < until"
    using locked_at_banned [OF assms(2)] by auto
  with banned_history [OF assms(1), of ip until w d es] show ?thesis by auto
qed

theorem lockout_only_after_enough_failures_witness:
  "(0 :: u32) < 2 \<and> locked_at 9 (1 :: nat) (lk_run (with_params 2 10 5) [Failure 1 3, Check 2 4, Failure 1 7]) \<and>
   (\<exists>es1 now es2. [Failure (1 :: nat) 3, Check 2 4, Failure 1 7] = es1 @ Failure 1 now # es2 \<and> 9 < now + 5 \<and>
      unat (2 :: u32) \<le> length (filter (\<lambda>f. now - f < 10) (failure_times 1 es1)) + 1)"
proof -
  have h: "(0 :: u32) < 2" by simp
  have f: "locked_at 9 (1 :: nat) (lk_run (with_params 2 10 5) [Failure 1 3, Check 2 4, Failure 1 7])"
    by (simp add: locked_at_def is_locked_out_def record_failure_def lk_run_def ip_state_default_def hm_simps
        word_le_nat_alt)
  from h f lockout_only_after_enough_failures [OF h f] show ?thesis by blast
qed

text \<open>
  C30: a lockout is enforced.  Once a failure triggers it, the source is refused at exactly the
  instants before \<open>now + lockout_duration\<close>, whatever checks and further failures (of this or
  any other source) happen in between; at the expiry it is let in again.
\<close>

theorem lockout_enforced_until_expiry:
  assumes "fst (record_failure now ip t)"
    and "\<forall>e \<in> set es. event_time e < now + lockout_duration t"
  shows "locked_at at ip (lk_run (snd (record_failure now ip t)) es) \<longleftrightarrow>
         at < now + lockout_duration t"
  using banned_locked_at [OF banned_run [OF record_failure_banned [OF assms(1)] assms(2)]] .

theorem lockout_enforced_until_expiry_witness:
  "locked_at 11 (1 :: nat)
     (lk_run (snd (record_failure 7 1 (with_params 1 10 5))) [Check 1 8, Failure 1 9]) \<longleftrightarrow>
   (11 :: nat) < 7 + lockout_duration (with_params 1 10 5 :: nat lockout_tracker)"
proof (rule lockout_enforced_until_expiry)
  show "fst (record_failure 7 (1 :: nat) (with_params 1 10 5))"
    by (simp add: record_failure_def with_params_def ip_state_default_def)
  show "\<forall>e \<in> set [Check (1 :: nat) 8, Failure 1 9].
          event_time e < 7 + lockout_duration (with_params 1 10 5 :: nat lockout_tracker)"
    by (simp add: with_params_def)
qed

text \<open>
  No false negatives.  On a fresh tracker, \<open>max_failures\<close> failures of one source that all
  fall inside one window lock it out, and none of the earlier ones does.
\<close>

lemma lockout_triggers_at_limit:
  assumes "length ts + 1 = unat mf"
    and "\<forall>x \<in> set (ts @ [now]). \<forall>y \<in> set (ts @ [now]). y - x < w"
  shows "\<not> locked_at at ip (lk_run (with_params mf w d) (map (Failure ip) ts)) \<and>
         fst (record_failure now ip (lk_run (with_params mf w d) (map (Failure ip) ts))) \<and>
         (locked_at at ip
            (snd (record_failure now ip (lk_run (with_params mf w d) (map (Failure ip) ts))))
          \<longleftrightarrow> at < now + d)"
proof -
  define t where "t = lk_run (with_params mf w d) (map (Failure ip) ts)"
  have pos: "0 < mf" using assms(1) by (metis add_is_0 one_neq_zero unat_0 word_gt_0)
  have inv: "lk_inv t" unfolding t_def using pos by (intro lk_run_inv lk_inv_new)
  have fr: "window t = w" "max_failures t = mf" "lockout_duration t = d"
    by (simp_all add: t_def with_params_def)
  have st: "hm_get (by_ip t) ip = (if ts = [] then None else Some \<lparr>failures = ts, locked_until = None\<rparr>)"
    unfolding t_def using assms(1,2) pos by (intro failures_accumulate) auto
  have kept: "filter (\<lambda>f. now - f < w) ts = ts"
    using assms(2) by (auto simp: filter_id_conv)
  have trig: "fst (record_failure now ip t)"
    unfolding record_failure_cases [OF inv]
    using st kept assms(1) by (auto simp: fr ip_state_default_def)
  have "\<not> locked_at at ip t"
    using st by (auto simp: locked_at_def is_locked_out_def)
  then show ?thesis
    using trig banned_locked_at [OF record_failure_banned [OF trig]] by (simp add: fr flip: t_def)
qed

lemma lockout_triggers_at_limit_at_work:
  "\<not> locked_at 9 (1 :: nat) (lk_run (with_params 2 10 5) (map (Failure 1) [3])) \<and>
   fst (record_failure 7 (1 :: nat) (lk_run (with_params 2 10 5) (map (Failure 1) [3]))) \<and>
   (locked_at 9 (1 :: nat)
      (snd (record_failure 7 1 (lk_run (with_params 2 10 5) (map (Failure 1) [3])))) \<longleftrightarrow>
    (9 :: nat) < 7 + 5)"
  by (rule lockout_triggers_at_limit) simp_all

text \<open>
  Sources are independent.  Checks and failures of other addresses never change whether
  this one is locked out, nor the failures counted against it.
\<close>

lemma lockout_sources_independent:
  assumes "\<forall>e \<in> set es. \<forall>now. e \<noteq> Check ip now \<and> e \<noteq> Failure ip now"
  shows "locked_at at ip (lk_run t es) = locked_at at ip t \<and>
         ip_failures ip (lk_run t es) = ip_failures ip t"
proof -
  have "hm_get (by_ip (lk_run t es)) ip = hm_get (by_ip t) ip"
    using assms
  proof (induction es rule: rev_induct)
    case Nil
    then show ?case by (simp add: lk_run_def)
  next
    case (snoc e es)
    then show ?case
      by (cases e) (auto simp: is_locked_out_other record_failure_other)
  qed
  then show ?thesis
    by (auto simp: locked_at_def is_locked_out_def ip_failures_def split: option.splits)
qed

lemma lockout_sources_independent_at_work:
  "locked_at 9 (1 :: nat) (lk_run (with_params 1 10 5) [Failure 2 3, Check 2 4]) =
     locked_at 9 (1 :: nat) (with_params 1 10 5) \<and>
   ip_failures (1 :: nat) (lk_run (with_params 1 10 5) [Failure 2 3, Check 2 4]) =
     ip_failures (1 :: nat) (with_params 1 10 5)"
  using lockout_sources_independent
    [of "[Failure (2 :: nat) 3, Check 2 4]" 1 9 "with_params 1 10 5"]
  by simp

end
