(* ===== verification/TalkLog.thy ===== *)
theory TalkLog
  imports Hello "HOL-Library.Countable"
begin

text \<open>
  The durable talk log of \<open>src/src/wire/talklog.rs\<close>: one JSON file per sanitized session name under the
  \<open>talk\<close> directory, rewritten whole by every append.

  \<^item> The state is the directory: file name to contents.  The mutex makes each operation one step.
  \<^item> \<open>serde_json\<close> on a list of entries is the record \<open>talk_lib\<close>; what the clock and the file
    system did during one call is the record \<open>talk_call\<close>.  An operation also returns the reason
    of the warning it emitted, if it could not persist.
\<close>

record talk_reply_record =
  trr_text :: "string option"
  trr_chunks :: "string list"
  trr_done :: bool
  trr_exit :: "int option"
  trr_ts :: string

record talk_entry =
  te_id :: string
  te_session :: string
  te_prompt_text :: string
  te_prompt_ts :: string
  te_replies :: "talk_reply_record list"

record talk_lib =
  tk_from_str :: "string \<Rightarrow> string + talk_entry list"
  tk_to_string_pretty :: "talk_entry list \<Rightarrow> string"

text \<open>A failed write reports its error and leaves the file in the given state.\<close>

record talk_call =
  kc_ts :: string
  kc_read_err :: bool
  kc_dir_err :: "string option"
  kc_write_err :: "(string \<times> string option) option"

record talk_log =
  tlg_files :: "string \<Rightarrow> string option"

definition talk_log_new :: "(string \<Rightarrow> string option) \<Rightarrow> talk_log" where
  "talk_log_new files = \<lparr>tlg_files = files\<rparr>"

definition safe_char :: "string \<Rightarrow> char" where
  "safe_char ch =
     (case ch of
        [c] \<Rightarrow> if is_ascii_alphanumeric c \<or> c = CHR ''-'' \<or> c = CHR ''_'' then c else CHR ''_''
      | _ \<Rightarrow> CHR ''_'')"

definition safe_filename :: "string \<Rightarrow> string" where
  "safe_filename name = map safe_char (utf8_chars name) @ ''.json''"

definition talk_load :: "talk_lib \<Rightarrow> talk_call \<Rightarrow> string \<Rightarrow> talk_log \<Rightarrow> talk_entry list" where
  "talk_load lib c session log =
     (if kc_read_err c then []
      else case tlg_files log (safe_filename session) of
             None \<Rightarrow> []
           | Some s \<Rightarrow> (case tk_from_str lib s of Inl _ \<Rightarrow> [] | Inr es \<Rightarrow> es))"

definition talk_save ::
  "talk_lib \<Rightarrow> talk_call \<Rightarrow> string \<Rightarrow> talk_entry list \<Rightarrow> talk_log \<Rightarrow> string option \<times> talk_log" where
  "talk_save lib c session es log =
     (case kc_dir_err c of
        Some e \<Rightarrow> (Some e, log)
      | None \<Rightarrow>
          (case kc_write_err c of
             Some (e, left) \<Rightarrow>
               (Some e, log\<lparr>tlg_files := (tlg_files log)(safe_filename session := left)\<rparr>)
           | None \<Rightarrow>
               (None, log\<lparr>tlg_files := (tlg_files log)
                            (safe_filename session := Some (tk_to_string_pretty lib es))\<rparr>)))"

definition record_prompt ::
  "talk_lib \<Rightarrow> talk_call \<Rightarrow> string \<Rightarrow> string \<Rightarrow> string \<Rightarrow> talk_log \<Rightarrow> string option \<times> talk_log" where
  "record_prompt lib c i session text log =
     talk_save lib c session
       (talk_load lib c session log @
          [\<lparr>te_id = i, te_session = session, te_prompt_text = text, te_prompt_ts = kc_ts c,
            te_replies = []\<rparr>]) log"

definition reply_record :: "string \<Rightarrow> reply_body \<Rightarrow> talk_reply_record" where
  "reply_record ts reply =
     \<lparr>trr_text = rp_text reply, trr_chunks = rp_chunks reply, trr_done = rp_done reply,
      trr_exit = rp_exit reply, trr_ts = ts\<rparr>"

definition push_reply :: "talk_reply_record \<Rightarrow> talk_entry \<Rightarrow> talk_entry" where
  "push_reply x e = e\<lparr>te_replies := te_replies e @ [x]\<rparr>"

definition record_reply ::
  "talk_lib \<Rightarrow> talk_call \<Rightarrow> string \<Rightarrow> string \<Rightarrow> reply_body \<Rightarrow> talk_log \<Rightarrow> string option \<times> talk_log" where
  "record_reply lib c i session reply log =
     (let es = talk_load lib c session log
      in if \<not> list_ex (\<lambda>e. te_id e = i) es then (None, log)
         else talk_save lib c session
                (update_first (\<lambda>e. te_id e = i) (push_reply (reply_record (kc_ts c) reply)) es) log)"

definition talk_read :: "talk_lib \<Rightarrow> talk_call \<Rightarrow> string \<Rightarrow> talk_log \<Rightarrow> talk_entry list" where
  "talk_read lib c session log = talk_load lib c session log"

section \<open>Histories and transcripts\<close>

datatype talk_op =
    RecPrompt string string string string
  | RecReply string string reply_body string

text \<open>A call during which the file system did what it was asked.\<close>

definition talk_ok :: "string \<Rightarrow> talk_call" where
  "talk_ok ts = \<lparr>kc_ts = ts, kc_read_err = False, kc_dir_err = None, kc_write_err = None\<rparr>"

fun talk_step :: "talk_lib \<Rightarrow> talk_op \<Rightarrow> talk_log \<Rightarrow> talk_log" where
  "talk_step lib (RecPrompt i s text ts) log = snd (record_prompt lib (talk_ok ts) i s text log)"
| "talk_step lib (RecReply i s reply ts) log = snd (record_reply lib (talk_ok ts) i s reply log)"

definition talk_run :: "talk_lib \<Rightarrow> talk_op list \<Rightarrow> talk_log \<Rightarrow> talk_log" where
  "talk_run lib ops log = fold (talk_step lib) ops log"

text \<open>
  What the log of one session should say: an entry per prompt to it, in order, with the replies to that
  prompt that came later, in order.
\<close>

fun session_replies :: "string \<Rightarrow> string \<Rightarrow> talk_op list \<Rightarrow> talk_reply_record list" where
  "session_replies session i [] = []"
| "session_replies session i (RecPrompt _ _ _ _ # ops) = session_replies session i ops"
| "session_replies session i (RecReply i' s reply ts # ops) =
     (if i' = i \<and> s = session then [reply_record ts reply] else []) @ session_replies session i ops"

fun session_transcript :: "string \<Rightarrow> talk_op list \<Rightarrow> talk_entry list" where
  "session_transcript session [] = []"
| "session_transcript session (RecPrompt i s text ts # ops) =
     (if s = session
      then [\<lparr>te_id = i, te_session = s, te_prompt_text = text, te_prompt_ts = ts,
             te_replies = session_replies session i ops\<rparr>] else []) @ session_transcript session ops"
| "session_transcript session (RecReply _ _ _ _ # ops) = session_transcript session ops"

text \<open>No other session of the history has a name that maps to the same file.\<close>

fun op_session :: "talk_op \<Rightarrow> string" where
  "op_session (RecPrompt _ s _ _) = s"
| "op_session (RecReply _ s _ _) = s"

definition own_file :: "string \<Rightarrow> talk_op list \<Rightarrow> bool" where
  "own_file session ops \<longleftrightarrow> list_all (\<lambda>op. safe_filename (op_session op) = safe_filename session \<longrightarrow> op_session op = session) ops"

text \<open>What the log of one file says, whichever sessions it belongs to.\<close>

fun replies_to :: "string \<Rightarrow> string \<Rightarrow> talk_op list \<Rightarrow> talk_reply_record list" where
  "replies_to f i [] = []"
| "replies_to f i (RecPrompt _ _ _ _ # ops) = replies_to f i ops"
| "replies_to f i (RecReply i' s reply ts # ops) =
     (if i' = i \<and> safe_filename s = f then [reply_record ts reply] else []) @ replies_to f i ops"

fun transcript :: "string \<Rightarrow> talk_op list \<Rightarrow> talk_entry list" where
  "transcript f [] = []"
| "transcript f (RecPrompt i s text ts # ops) =
     (if safe_filename s = f
      then [\<lparr>te_id = i, te_session = s, te_prompt_text = text, te_prompt_ts = ts,
             te_replies = replies_to f i ops\<rparr>] else []) @ transcript f ops"
| "transcript f (RecReply _ _ _ _ # ops) = transcript f ops"

fun prompt_ids :: "talk_op list \<Rightarrow> string list" where
  "prompt_ids [] = []"
| "prompt_ids (RecPrompt i _ _ _ # ops) = i # prompt_ids ops"
| "prompt_ids (RecReply _ _ _ _ # ops) = prompt_ids ops"

definition talk_reads_back :: "talk_lib \<Rightarrow> bool" where
  "talk_reads_back lib \<longleftrightarrow> (\<forall>es. tk_from_str lib (tk_to_string_pretty lib es) = Inr es)"

section \<open>Lemmas\<close>

lemmas talk_defs =
  record_prompt_def record_reply_def talk_load_def talk_save_def talk_ok_def Let_def

lemma replies_to_append: "replies_to f i (xs @ ys) = replies_to f i xs @ replies_to f i ys"
  by (induction f i xs rule: replies_to.induct) simp_all

lemma prompt_ids_append: "prompt_ids (xs @ ys) = prompt_ids xs @ prompt_ids ys"
  by (induction xs rule: prompt_ids.induct) simp_all

lemma transcript_prompt:
  "transcript f (ops @ [RecPrompt i s text ts]) = transcript f ops @ transcript f [RecPrompt i s text ts]"
  by (induction f ops rule: transcript.induct) (simp_all add: replies_to_append)

lemma transcript_reply:
  "transcript f (ops @ [RecReply i s reply ts]) =
   map (\<lambda>e. if te_id e = i \<and> safe_filename s = f then push_reply (reply_record ts reply) e else e)
     (transcript f ops)"
  by (induction f ops rule: transcript.induct) (simp_all add: replies_to_append push_reply_def)

lemma transcript_ids: "set (map te_id (transcript f ops)) \<subseteq> set (prompt_ids ops)"
  by (induction f ops rule: transcript.induct) auto

lemma transcript_distinct: "distinct (prompt_ids ops) \<Longrightarrow> distinct (map te_id (transcript f ops))"
proof (induction f ops rule: transcript.induct)
  case (2 f i s t ts ops)
  then show ?case using transcript_ids [of f ops] by auto
qed simp_all

lemma update_first_map:
  "distinct (map te_id es) \<Longrightarrow>
   update_first (\<lambda>e. te_id e = i) g es = map (\<lambda>e. if te_id e = i then g e else e) es"
proof (induction es)
  case (Cons e es)
  then have "te_id e \<notin> te_id ` set es" by simp
  then have "e' \<in> set es \<Longrightarrow> te_id e' \<noteq> te_id e" for e' by (metis imageI)
  with Cons show ?case by (auto intro!: map_idI [symmetric])
qed simp

lemma talk_load_prompt:
  assumes "talk_reads_back lib"
  shows "talk_load lib (talk_ok ts') t (talk_step lib (RecPrompt i s text ts) log) =
    talk_load lib (talk_ok ts') t log @ transcript (safe_filename t) [RecPrompt i s text ts]"
  using assms by (auto simp: talk_defs talk_reads_back_def)

lemma talk_load_reply:
  assumes "talk_reads_back lib"
  shows "talk_load lib (talk_ok ts') t (talk_step lib (RecReply i s reply ts) log) =
    (if safe_filename s = safe_filename t
     then update_first (\<lambda>e. te_id e = i) (push_reply (reply_record ts reply)) (talk_load lib (talk_ok ts') t log)
     else talk_load lib (talk_ok ts') t log)"
proof -
  have none: "\<not> list_ex P es \<Longrightarrow> update_first P g es = es" for P es and g :: "talk_entry \<Rightarrow> talk_entry"
    by (induction es) auto
  show ?thesis
    using assms by (auto simp: talk_defs talk_reads_back_def none)
qed

lemma talk_run_transcript:
  assumes "talk_reads_back lib" and "distinct (prompt_ids ops)"
  shows "talk_load lib (talk_ok ts) t (talk_run lib ops (talk_log_new (\<lambda>_. None))) =
         transcript (safe_filename t) ops"
  using assms(2)
proof (induction ops rule: rev_induct)
  case Nil
  then show ?case by (simp add: talk_run_def talk_load_def talk_log_new_def)
next
  case (snoc op ops)
  then have d: "distinct (map te_id (transcript (safe_filename t) ops))"
    and IH: "talk_load lib (talk_ok ts) t (talk_run lib ops (talk_log_new (\<lambda>_. None))) =
             transcript (safe_filename t) ops"
    by (auto simp: prompt_ids_append intro: transcript_distinct)
  have run: "talk_run lib (ops @ [op]) l = talk_step lib op (talk_run lib ops l)" for l
    by (simp add: talk_run_def)
  show ?case
  proof (cases op)
    case RecPrompt
    with IH show ?thesis unfolding run
      by (simp only: talk_load_prompt [OF assms(1)] transcript_prompt)
  next
    case RecReply
    with IH d show ?thesis unfolding run
      by (simp add: talk_load_reply [OF assms(1)] transcript_reply update_first_map del: talk_step.simps)
  qed
qed

lemma own_file_transcript:
  assumes "own_file session ops"
  shows "transcript (safe_filename session) ops = session_transcript session ops"
proof -
  have "replies_to (safe_filename session) i ops = session_replies session i ops" if "own_file session ops" for i ops
    using that by (induction "safe_filename session" i ops rule: replies_to.induct) (auto simp: own_file_def)
  then show ?thesis
    using assms by (induction "safe_filename session" ops rule: transcript.induct) (auto simp: own_file_def)
qed

section \<open>Properties\<close>

text \<open>
  C34: the log is the transcript.  Starting from an empty directory, after any sequence of recorded
  prompts with distinct ids and replies, all of which the file system served, reading a session whose
  file no other session shares gives one entry per prompt to that session, in the order they were
  sent, each with exactly the replies that were recorded for the session after it under its id, in the
  order they arrived; replies to unknown prompts are dropped.  (The JSON library is assumed to read back
  what it printed.  Sessions that share a file, and file-system faults, are the subject of the two
  lemmas below.)
\<close>

theorem talklog_is_transcript:
  assumes "talk_reads_back lib" and "distinct (prompt_ids ops)" and "own_file session ops"
  shows "talk_read lib (talk_ok ts) session (talk_run lib ops (talk_log_new (\<lambda>_. None))) =
         session_transcript session ops"
  unfolding talk_read_def using talk_run_transcript [OF assms(1,2)] own_file_transcript [OF assms(3)] by simp

text \<open>
  Sessions whose names differ only in characters that are not ASCII letters, digits, \<open>-\<close> or \<open>_\<close> share
  a file: reading either of them gives the prompts of both.
\<close>

lemma shared_file_mixes_sessions:
  assumes "talk_reads_back lib" and "safe_filename s = safe_filename s'" and "i \<noteq> i'"
  shows "map te_session (talk_read lib (talk_ok ts) s
           (talk_run lib [RecPrompt i s text ts, RecPrompt i' s' text' ts'] (talk_log_new (\<lambda>_. None)))) = [s, s']"
  unfolding talk_read_def
  using talk_run_transcript [OF assms(1), of "[RecPrompt i s text ts, RecPrompt i' s' text' ts']" ts s] assms(2,3) by simp

lemma shared_file_mixes_sessions_at_work:
  assumes "talk_reads_back lib"
  shows "map te_session (talk_read lib (talk_ok ''t'') ''a.b''
           (talk_run lib [RecPrompt ''1'' ''a.b'' ''x'' ''t'', RecPrompt ''2'' ''a b'' ''y'' ''t''] (talk_log_new (\<lambda>_. None)))) =
         [''a.b'', ''a b'']"
proof (rule shared_file_mixes_sessions [OF assms])
  show "safe_filename ''a.b'' = safe_filename ''a b''" by code_simp
qed simp

text \<open>A library that reads back what it prints.\<close>

definition reply_tuple :: "talk_reply_record \<Rightarrow> string option \<times> string list \<times> bool \<times> int option \<times> string" where
  "reply_tuple x = (trr_text x, trr_chunks x, trr_done x, trr_exit x, trr_ts x)"

definition tuple_reply :: "string option \<times> string list \<times> bool \<times> int option \<times> string \<Rightarrow> talk_reply_record" where
  "tuple_reply t = (case t of (a, b, c, d, e) \<Rightarrow>
     \<lparr>trr_text = a, trr_chunks = b, trr_done = c, trr_exit = d, trr_ts = e\<rparr>)"

definition entry_tuple ::
  "talk_entry \<Rightarrow> string \<times> string \<times> string \<times> string
     \<times> (string option \<times> string list \<times> bool \<times> int option \<times> string) list" where
  "entry_tuple e =
     (te_id e, te_session e, te_prompt_text e, te_prompt_ts e, map reply_tuple (te_replies e))"

definition tuple_entry ::
  "string \<times> string \<times> string \<times> string
     \<times> (string option \<times> string list \<times> bool \<times> int option \<times> string) list \<Rightarrow> talk_entry" where
  "tuple_entry t = (case t of (a, b, c, d, rs) \<Rightarrow>
     \<lparr>te_id = a, te_session = b, te_prompt_text = c, te_prompt_ts = d, te_replies = map tuple_reply rs\<rparr>)"

definition demo_talk_lib :: talk_lib where
  "demo_talk_lib =
     \<lparr>tk_from_str = (\<lambda>s. Inr (map tuple_entry (from_nat (length s)))),
      tk_to_string_pretty = (\<lambda>es. replicate (to_nat (map entry_tuple es)) CHR ''x'')\<rparr>"

lemma demo_talk_lib_reads_back: "talk_reads_back demo_talk_lib"
proof -
  have r: "tuple_reply (reply_tuple x) = x" for x by (simp add: tuple_reply_def reply_tuple_def)
  have "tuple_entry (entry_tuple e) = e" for e
    by (simp add: tuple_entry_def entry_tuple_def comp_def r)
  then show ?thesis
    by (simp add: talk_reads_back_def demo_talk_lib_def comp_def)
qed

definition demo_reply :: reply_body where
  "demo_reply = \<lparr>rp_session = ''ops'', rp_text = Some ''hi'', rp_chunks = [], rp_done = True, rp_exit = None\<rparr>"

theorem talklog_is_transcript_witness:
  "talk_read demo_talk_lib (talk_ok ''t9'') ''ops''
     (talk_run demo_talk_lib
        [RecPrompt ''p1'' ''ops'' ''hello'' ''t1'', RecPrompt ''p2'' ''dev'' ''x'' ''t2'',
         RecReply ''p1'' ''ops'' demo_reply ''t3'', RecReply ''p7'' ''ops'' demo_reply ''t4'']
        (talk_log_new (\<lambda>_. None))) =
   [\<lparr>te_id = ''p1'', te_session = ''ops'', te_prompt_text = ''hello'', te_prompt_ts = ''t1'',
     te_replies = [reply_record ''t3'' demo_reply]\<rparr>]"
proof -
  have "own_file ''ops'' [RecPrompt ''p1'' ''ops'' ''hello'' ''t1'', RecPrompt ''p2'' ''dev'' ''x'' ''t2'',
      RecReply ''p1'' ''ops'' demo_reply ''t3'', RecReply ''p7'' ''ops'' demo_reply ''t4'']"
  proof -
    have "safe_filename ''dev'' \<noteq> safe_filename ''ops''" by code_simp
    then show ?thesis by (simp add: own_file_def)
  qed
  then show ?thesis
    using talklog_is_transcript [OF demo_talk_lib_reads_back,
        of "[RecPrompt ''p1'' ''ops'' ''hello'' ''t1'', RecPrompt ''p2'' ''dev'' ''x'' ''t2'',
             RecReply ''p1'' ''ops'' demo_reply ''t3'', RecReply ''p7'' ''ops'' demo_reply ''t4'']"
           "''ops''" "''t9''"]
    by simp
qed

text \<open>
  C35: a session name cannot leave the talk directory.  Whatever bytes a client chose, the file name
  ends in \<open>.json\<close>, has one ASCII letter, digit, \<open>-\<close> or \<open>_\<close> per character of the name before that,
  and so holds no path separator, is not absolute and is neither \<open>.\<close> nor \<open>..\<close>; and recording
  under one session name changes no file but its own.
\<close>

theorem talklog_path_confined:
  "(\<exists>stem. safe_filename s = stem @ ''.json'' \<and> length stem = length (utf8_chars s) \<and>
           list_all (\<lambda>c. is_ascii_alphanumeric c \<or> c \<in> set ''-_'') stem) \<and>
   CHR ''/'' \<notin> set (safe_filename s) \<and> safe_filename s \<noteq> ''.'' \<and> safe_filename s \<noteq> ''..'' \<and>
   (f = safe_filename s \<or>
    tlg_files (snd (record_prompt lib c i s text log)) f = tlg_files log f \<and>
    tlg_files (snd (record_reply lib c i s reply log)) f = tlg_files log f)"
proof -
  have safe: "is_ascii_alphanumeric (safe_char ch) \<or> safe_char ch \<in> set ''-_''" for ch
    by (simp add: safe_char_def split: list.splits)
  have slash: "safe_char ch \<noteq> CHR ''/''" for ch
    by (auto simp: safe_char_def is_ascii_alphanumeric_def is_digit_def byte_of_def split: list.splits)
  have "CHR ''/'' \<notin> set (safe_filename s)"
    using slash by (auto simp: safe_filename_def) (metis slash)
  moreover have "f = safe_filename s \<or> tlg_files (snd (talk_save lib c s es log)) f = tlg_files log f" for es
    by (auto simp: talk_save_def split: option.splits)
  ultimately show ?thesis
    using safe by (auto simp: safe_filename_def list_all_iff record_prompt_def record_reply_def Let_def)
qed

text \<open>
  What is lost.  An unreadable or unparseable file reads as an empty history, a reply to it is
  dropped, and the next prompt replaces the file's whole contents by that one entry, without a
  warning; a failed write is reported and touches at most that one file.
\<close>

lemma talklog_unreadable_is_replaced:
  assumes "kc_read_err c \<or> (\<exists>e x. tlg_files log (safe_filename s) = Some x \<and> tk_from_str lib x = Inl e)"
  shows "talk_read lib c s log = [] \<and>
         record_reply lib c i s reply log = (None, log) \<and>
         (kc_dir_err c = None \<longrightarrow> kc_write_err c = None \<longrightarrow>
            record_prompt lib c i s text log =
              (None, log\<lparr>tlg_files := (tlg_files log)(safe_filename s := Some (tk_to_string_pretty lib
                 [\<lparr>te_id = i, te_session = s, te_prompt_text = text, te_prompt_ts = kc_ts c,
                   te_replies = []\<rparr>]))\<rparr>))"
  using assms by (auto simp: talk_read_def record_reply_def record_prompt_def talk_load_def talk_save_def)

lemma talklog_unreadable_is_replaced_at_work:
  "talk_read demo_talk_lib (talk_ok ''t1''\<lparr>kc_read_err := True\<rparr>) ''ops'' (talk_log_new (\<lambda>_. Some ''[]'')) = []"
  using talklog_unreadable_is_replaced [of "talk_ok ''t1''\<lparr>kc_read_err := True\<rparr>"] by simp

end
