(* ===== verification/Connection.thy ===== *)
theory Connection
  imports Registry Roster Lockout TokenHistory TalkLog
begin

text \<open>
  Per-connection handling, \<open>src/src/wire/connection.rs\<close>.

  \<^item> \<open>server\<close> is the mutable state the connections share, \<open>conn_ctx\<close> the read-only context, and
    \<open>conn_env\<close> what the clock, the random generator and the file system did during one step.
  \<^item> A handler returns the messages it wrote to the socket, what it did to channels, and the new
    shared state.  Write errors are ignored by the source wherever they are ignored here.  \<open>Panic\<close>
    is the failure of an \<open>expect\<close>.
  \<^item> The steps of the task are here; the tasks of all connections together are in the theory
    \<open>Server\<close>.  The WebSocket handshake and framing are the library's; the debug lines are not
    modelled.
\<close>

section \<open>Limits\<close>

record connection_limits =
  cl_max_frame_bytes :: nat
  cl_pre_auth_timeout :: duration
  cl_max_unauth_connections :: nat

definition connection_limits_default :: connection_limits where
  "connection_limits_default =
     \<lparr>cl_max_frame_bytes = 2 * 1024 * 1024, cl_pre_auth_timeout = from_secs 20,
      cl_max_unauth_connections = 75\<rparr>"

definition env_parsed :: "nat \<Rightarrow> (string \<Rightarrow> string option) \<Rightarrow> string \<Rightarrow> nat option" where
  "env_parsed w env key = Option.bind (env key) (\<lambda>v. parse_unsigned w (trim v))"

definition connection_limits_from_env :: "(string \<Rightarrow> string option) \<Rightarrow> connection_limits" where
  "connection_limits_from_env env =
     (let d = connection_limits_default
      in \<lparr>cl_max_frame_bytes = unwrap_or (env_parsed 64 env ''HOLLER_MAX_FRAME_BYTES'') (cl_max_frame_bytes d),
          cl_pre_auth_timeout =
            unwrap_or (map_option from_millis (env_parsed 64 env ''HOLLER_PRE_AUTH_TIMEOUT_MS''))
              (cl_pre_auth_timeout d),
          cl_max_unauth_connections =
            unwrap_or (env_parsed 64 env ''HOLLER_MAX_UNAUTH_CONNECTIONS'') (cl_max_unauth_connections d)\<rparr>)"

section \<open>State\<close>

record server =
  sv_store :: token_store
  sv_registry :: registry
  sv_roster :: roster
  sv_lockout :: "string lockout_tracker"
  sv_talklog :: talk_log

record conn_ctx =
  cx_json :: json_lib
  cx_tokens :: token_lib
  cx_talk :: talk_lib
  cx_quoted :: "string \<Rightarrow> string"
  cx_hostname :: string
  cx_listening :: "string list"
  cx_limits :: connection_limits

record conn_env =
  ce_now :: instant
  ce_ts :: string
  ce_id :: string
  ce_token :: token_call
  ce_talk :: talk_call

datatype incoming =
    InText string
  | InPing string
  | InPong
  | InClose
  | InBinary
  | InFrame
  | InError
  | InEof

datatype out_message = OutText string | OutPong string | OutClose | OutShutdown

record presence_session =
  ps_name :: string
  ps_harness :: string
  ps_mode :: "string option"
  ps_harness_session_id :: "string option"

definition presence_session_from :: "json \<Rightarrow> presence_session option" where
  "presence_session_from j =
     do {
        kvs \<leftarrow> struct_members [''name'', ''harness'', ''mode'', ''harness_session_id''] j;
        name \<leftarrow> required ''name'' as_str kvs;
        harness \<leftarrow> required ''harness'' as_str kvs;
        mode \<leftarrow> optional ''mode'' as_str kvs;
        harness_session_id \<leftarrow> optional ''harness_session_id'' as_str kvs;
        Some \<lparr>ps_name = name, ps_harness = harness, ps_mode = mode,
              ps_harness_session_id = harness_session_id\<rparr>
     }"

section \<open>Helpers\<close>

definition conn_encode :: "conn_ctx \<Rightarrow> envelope \<Rightarrow> (unit, out_message) exec" where
  "conn_encode cx e = (case encode (cx_json cx) e of None \<Rightarrow> Panic | Some s \<Rightarrow> Ret (OutText s))"

definition decode_error_envelope :: "decode_error \<Rightarrow> envelope" where
  "decode_error_envelope err =
     (case err of
        UnsupportedVersion v \<Rightarrow>
          error_with_message CODE_UNSUPPORTED_VERSION
            (''unsupported protocol version '' @ show_nat (unat v)) [] ''server''
      | UnknownType \<Rightarrow> error_with_message CODE_UNKNOWN_TYPE ''unknown message type'' [] ''server''
      | Malformed msg \<Rightarrow>
          error_with_message CODE_UNKNOWN_TYPE (''malformed frame: '' @ msg) [] ''server'')"

text \<open>The messages read while waiting for the first text frame; the rest stays on the stream.\<close>

fun next_text_frame :: "incoming list \<Rightarrow> string option \<times> incoming list" where
  "next_text_frame [] = (None, [])"
| "next_text_frame (InText t # ms) = (Some t, ms)"
| "next_text_frame (InPing _ # ms) = next_text_frame ms"
| "next_text_frame (InPong # ms) = next_text_frame ms"
| "next_text_frame (_ # ms) = (None, ms)"

definition note_failure :: "conn_env \<Rightarrow> string \<Rightarrow> server \<Rightarrow> server" where
  "note_failure ev ip sv = sv\<lparr>sv_lockout := snd (record_failure (ce_now ev) ip (sv_lockout sv))\<rparr>"

section \<open>The first frame\<close>

datatype first_result = FirstClosed | FirstAuthed verified_client

definition handle_join ::
  "conn_ctx \<Rightarrow> conn_env \<Rightarrow> string \<Rightarrow> envelope \<Rightarrow> string \<Rightarrow> string \<Rightarrow> server
   \<Rightarrow> (unit, out_message list \<times> server) exec" where
  "handle_join cx ev ip e secret hostname sv =
     (case redeem (cx_tokens cx) (ce_token ev) (env_from e) secret hostname (sv_store sv) of
        (Ret result, store) \<Rightarrow>
          exec_bind (conn_encode cx
              \<lparr>env_v = 1, env_msg_type = TJoinOk, env_id = env_id e, env_ts = env_ts e,
               env_from = ''server'',
               env_body = BJoinOk \<lparr>jok_client_id = rr_client_id result,
                                   jok_credential = rr_credential result\<rparr>\<rparr>)
            (\<lambda>m. Ret ([m, OutClose, OutShutdown], sv\<lparr>sv_store := store\<rparr>))
      | (Raise err, store) \<Rightarrow>
          exec_bind (conn_encode cx
              (error_with_message CODE_JOIN_FAILED (token_error_display (cx_quoted cx) err)
                 (env_id e) ''server''))
            (\<lambda>m. Ret ([m, OutClose, OutShutdown], note_failure ev ip (sv\<lparr>sv_store := store\<rparr>)))
      | (Panic, store) \<Rightarrow> Panic)"

definition reject_first ::
  "conn_ctx \<Rightarrow> string \<Rightarrow> string \<Rightarrow> server \<Rightarrow> (unit, first_result \<times> out_message list \<times> server) exec" where
  "reject_first cx message i sv =
     exec_bind (conn_encode cx (error_with_message CODE_UNAUTHENTICATED message i ''server''))
       (\<lambda>m. Ret (FirstClosed, [m], sv))"

definition handle_first_frame ::
  "conn_ctx \<Rightarrow> conn_env \<Rightarrow> string \<Rightarrow> string \<Rightarrow> server
   \<Rightarrow> (unit, first_result \<times> out_message list \<times> server) exec" where
  "handle_first_frame cx ev ip raw sv =
     (case decode (cx_json cx) raw of
        Inl err \<Rightarrow>
          exec_bind (conn_encode cx (decode_error_envelope err)) (\<lambda>m. Ret (FirstClosed, [m], sv))
      | Inr e \<Rightarrow>
          (case env_body e of
             BJoin j \<Rightarrow>
               exec_bind (handle_join cx ev ip e (join_secret j) (join_hostname j) sv)
                 (\<lambda>(ms, sv'). Ret (FirstClosed, ms, sv'))
           | BAuth a \<Rightarrow>
               (case as_str (auth_credential a) of
                  None \<Rightarrow> reject_first cx ''auth credential must be a string'' (env_id e) sv
                | Some credential \<Rightarrow>
                    (case verify_credential (cx_tokens cx) (ce_token ev) (env_from e) credential (sv_store sv) of
                       (Ret v, store) \<Rightarrow> Ret (FirstAuthed v, [], sv\<lparr>sv_store := store\<rparr>)
                     | (Raise err, store) \<Rightarrow>
                         reject_first cx ''authentication failed'' (env_id e)
                           (note_failure ev ip (sv\<lparr>sv_store := store\<rparr>))
                     | (Panic, store) \<Rightarrow> Panic))
           | _ \<Rightarrow> reject_first cx ''first frame must be `auth` or `join`'' (env_id e) sv))"

section \<open>Session frames\<close>

text \<open>One \<open>presence\<close> row: a malformed row or a name held by someone else is skipped.\<close>

definition advertise_row :: "conn_env \<Rightarrow> string \<Rightarrow> string \<Rightarrow> json \<Rightarrow> roster \<Rightarrow> roster" where
  "advertise_row ev token client j r =
     (case presence_session_from j of
        None \<Rightarrow> r
      | Some s \<Rightarrow>
          (case advertise_with_mode (ce_now ev) (ps_name s) (ps_harness s) token client (ps_mode s)
                  (ps_harness_session_id s) r of
             Inl conflict \<Rightarrow> r
           | Inr r' \<Rightarrow> r'))"

definition query_reply :: "conn_ctx \<Rightarrow> conn_env \<Rightarrow> envelope \<Rightarrow> query_body \<Rightarrow> server \<Rightarrow> envelope" where
  "query_reply cx ev e q sv =
     (case dispatch (cx_quoted cx) (qb_cmd q) (qb_args q) (cx_hostname cx) (cx_listening cx)
             (of_nat (registry_len (sv_registry sv))) (of_nat (live_count (ce_now ev) (sv_roster sv)))
             (confirmed_harnesses_snapshot (sv_registry sv)) of
        Inr b \<Rightarrow>
          \<lparr>env_v = 1, env_msg_type = TQueryOk, env_id = env_id e, env_ts = env_ts e,
           env_from = ''server'', env_body = BQueryOk b\<rparr>
      | Inl err \<Rightarrow>
          \<lparr>env_v = 1, env_msg_type = TError, env_id = env_id e, env_ts = env_ts e,
           env_from = ''server'', env_body = BError err\<rparr>)"

definition on_registry ::
  "(registry \<Rightarrow> registry \<times> effect list) \<Rightarrow> server \<times> effect list \<Rightarrow> server \<times> effect list" where
  "on_registry f p =
     (case p of (sv, fx) \<Rightarrow> (case f (sv_registry sv) of (r, fx') \<Rightarrow> (sv\<lparr>sv_registry := r\<rparr>, fx @ fx')))"

definition handle_body ::
  "conn_env \<Rightarrow> string \<Rightarrow> string \<Rightarrow> envelope \<Rightarrow> server \<Rightarrow> server \<times> effect list" where
  "handle_body ev token client e sv =
     (case env_body e of
        BHello hello \<Rightarrow>
          (sv\<lparr>sv_registry := set_hostname token (hb_hostname hello) (sv_registry sv)\<rparr>, [])
      | BQueryOk b \<Rightarrow> on_registry (resolve_query_ok token (env_id e) b) (sv, [])
      | BPing p \<Rightarrow> (sv\<lparr>sv_roster := touch_client (ce_now ev) token (sv_roster sv)\<rparr>, [])
      | BPong p \<Rightarrow> on_registry (resolve_pong (ce_now ev) token (env_id e)) (sv, [])
      | BError b \<Rightarrow>
          on_registry (resolve_answer_err token (env_id e) b)
            (on_registry (resolve_prompt_err token (env_id e) b)
              (on_registry (resolve_query_err token (env_id e) b) (sv, [])))
      | BPresence p \<Rightarrow>
          (sv\<lparr>sv_roster := fold (advertise_row ev token client) (pres_sessions p) (sv_roster sv)\<rparr>, [])
      | BSessionBlocked b \<Rightarrow>
          (sv\<lparr>sv_roster := set_blocked (sb_session b) (sb_blocked b) (sv_roster sv)\<rparr>, [])
      | BAck a \<Rightarrow>
          (case ack_of a of
             None \<Rightarrow> (sv, [])
           | Some i \<Rightarrow>
               on_registry (resolve_answer_ack token i)
                 (on_registry (resolve_interrupt_ack token i) (sv, [])))
      | _ \<Rightarrow> (sv, []))"

definition handle_frame ::
  "conn_ctx \<Rightarrow> conn_env \<Rightarrow> string \<Rightarrow> string \<Rightarrow> string \<Rightarrow> server
   \<Rightarrow> (unit, bool \<times> out_message list \<times> effect list \<times> server) exec" where
  "handle_frame cx ev raw token client sv =
     (case decode (cx_json cx) raw of
        Inl err \<Rightarrow>
          exec_bind (conn_encode cx (decode_error_envelope err)) (\<lambda>m. Ret (False, [m], [], sv))
      | Inr e \<Rightarrow>
          (case env_body e of
             BQuery q \<Rightarrow>
               exec_bind (conn_encode cx (query_reply cx ev e q sv)) (\<lambda>m. Ret (True, [m], [], sv))
           | BPing p \<Rightarrow>
               exec_bind (conn_encode cx (new_pong_envelope (ce_ts ev) (env_id e) (cx_hostname cx)))
                 (\<lambda>m. case handle_body ev token client e sv of (sv', fx) \<Rightarrow> Ret (True, [m], fx, sv'))
           | BReply b \<Rightarrow>
               (case on_registry (resolve_reply token (env_id e) b)
                  (sv\<lparr>sv_talklog := snd (record_reply (cx_talk cx) (ce_talk ev) (env_id e)
                                           (rp_session b) b (sv_talklog sv))\<rparr>, []) of
                  (sv', fx) \<Rightarrow> Ret (True, [], fx, sv'))
           | _ \<Rightarrow> (case handle_body ev token client e sv of (sv', fx) \<Rightarrow> Ret (True, [], fx, sv'))))"

section \<open>Lemmas\<close>

text \<open>Everything this code writes is a well-formed envelope, so the \<open>expect\<close> never fires.\<close>

definition sends_wf :: "conn_ctx \<Rightarrow> out_message list \<Rightarrow> bool" where
  "sends_wf cx ms \<longleftrightarrow>
     list_all (\<lambda>m. case m of
         OutText s \<Rightarrow> \<exists>e. envelope_wf e \<and> encode (cx_json cx) e = Some s
       | _ \<Rightarrow> True) ms"

lemma conn_encode_wf:
  assumes "envelope_wf e"
  shows "\<exists>s. encode (cx_json cx) e = Some s \<and> conn_encode cx e = Ret (OutText s)"
  using assms body_roundtrip [of "env_body e"]
  by (auto simp: conn_encode_def encode_def envelope_json_def envelope_wf_def)

lemma error_with_message_wf: "envelope_wf (error_with_message code msg i from)"
  by (simp add: error_with_message_def error_envelope_wf)

lemma decode_error_envelope_wf: "envelope_wf (decode_error_envelope err)"
  by (simp add: decode_error_envelope_def error_with_message_wf split: decode_error.splits)

lemma query_reply_wf: "envelope_wf (query_reply cx ev e q sv)"
  by (auto simp: query_reply_def envelope_wf_def intro: dispatch_wf split: sum.splits)

lemma join_ok_wf:
  "envelope_wf \<lparr>env_v = 1, env_msg_type = TJoinOk, env_id = i, env_ts = ts, env_from = f, env_body = BJoinOk b\<rparr>"
  by (simp add: envelope_wf_def)

lemmas sendable =
  decode_error_envelope_wf query_reply_wf join_ok_wf error_with_message_wf hello_builders_wf

lemma sends_encoded:
  assumes "envelope_wf e"
  obtains m where "conn_encode cx e = Ret m" and "sends_wf cx [m]"
  using conn_encode_wf [OF assms, of cx] assms by (force simp: sends_wf_def)

text \<open>A session's handlers act under its own token.\<close>

definition session_view :: "server \<Rightarrow> string \<Rightarrow> entry option" where
  "session_view sv t = hm_get (rg_entries (sv_registry sv)) t"

lemma on_registry_view:
  assumes "\<And>r. hm_get (rg_entries (fst (f r))) t = hm_get (rg_entries r) t"
  shows "session_view (fst (on_registry f p)) t = session_view (fst p) t"
  using assms by (simp add: on_registry_def session_view_def split: prod.splits) (metis fst_conv)

lemma resolve_other:
  assumes "t \<noteq> token"
  shows "hm_get (rg_entries (fst (resolve_query_ok token i qb r))) t = hm_get (rg_entries r) t"
    "hm_get (rg_entries (fst (resolve_query_err token i eb r))) t = hm_get (rg_entries r) t"
    "hm_get (rg_entries (fst (resolve_reply token i rb r))) t = hm_get (rg_entries r) t"
    "hm_get (rg_entries (fst (resolve_prompt_err token i eb r))) t = hm_get (rg_entries r) t"
    "hm_get (rg_entries (fst (resolve_answer_err token i eb r))) t = hm_get (rg_entries r) t"
    "hm_get (rg_entries (fst (resolve_answer_ack token i r))) t = hm_get (rg_entries r) t"
    "hm_get (rg_entries (fst (resolve_interrupt_ack token i r))) t = hm_get (rg_entries r) t"
    "hm_get (rg_entries (fst (resolve_pong now token i r))) t = hm_get (rg_entries r) t"
    "hm_get (rg_entries (set_hostname token h r)) t = hm_get (rg_entries r) t"
  using assms by (auto simp: reg_defs hm_simps split: option.splits)

lemma handle_body_other:
  "t \<noteq> token \<Longrightarrow> session_view (fst (handle_body ev token client e sv)) t = session_view sv t"
  by (cases "env_body e")
     (simp_all add: handle_body_def on_registry_view resolve_other session_view_def [of "_\<lparr>sv_registry := _\<rparr>"]
        session_view_def [of "_\<lparr>sv_roster := _\<rparr>"] split: option.splits,
      simp_all add: session_view_def)

definition after_frame :: "conn_ctx \<Rightarrow> conn_env \<Rightarrow> string \<Rightarrow> string \<Rightarrow> string \<Rightarrow> server \<Rightarrow> server" where
  "after_frame cx ev raw token client sv =
     (case handle_frame cx ev raw token client sv of Ret (keep, ms, fx, sv') \<Rightarrow> sv' | _ \<Rightarrow> sv)"

lemma handle_frame_cases:
  obtains (undecodable) err m where "decode (cx_json cx) raw = Inl err"
      "handle_frame cx ev raw token client sv = Ret (False, [m], [], sv)" "sends_wf cx [m]"
  | (asks) e q m where "decode (cx_json cx) raw = Inr e" "env_body e = BQuery q"
      "handle_frame cx ev raw token client sv = Ret (True, [m], [], sv)" "sends_wf cx [m]"
  | (reply) e b sv' fx where "decode (cx_json cx) raw = Inr e" "env_body e = BReply b"
      "handle_frame cx ev raw token client sv = Ret (True, [], fx, sv')"
      "on_registry (resolve_reply token (env_id e) b)
         (sv\<lparr>sv_talklog := snd (record_reply (cx_talk cx) (ce_talk ev) (env_id e)
                                  (rp_session b) b (sv_talklog sv))\<rparr>, []) = (sv', fx)"
  | (other) e ms sv' fx where "decode (cx_json cx) raw = Inr e"
      "handle_frame cx ev raw token client sv = Ret (True, ms, fx, sv')" "sends_wf cx ms"
      "handle_body ev token client e sv = (sv', fx)"
proof (cases "decode (cx_json cx) raw")
  case (Inl err)
  obtain m where "conn_encode cx (decode_error_envelope err) = Ret m" "sends_wf cx [m]"
    using sends_encoded [OF decode_error_envelope_wf] by blast
  with Inl undecodable show thesis by (simp add: handle_frame_def)
next
  case (Inr e)
  obtain sv' fx where body: "handle_body ev token client e sv = (sv', fx)" by fastforce
  show thesis
  proof (cases "env_body e")
    case (BQuery q)
    obtain m where "conn_encode cx (query_reply cx ev e q sv) = Ret m" "sends_wf cx [m]"
      using sends_encoded [OF query_reply_wf] by blast
    with Inr BQuery asks show thesis by (simp add: handle_frame_def)
  next
    case (BPing p)
    obtain m where "conn_encode cx (new_pong_envelope (ce_ts ev) (env_id e) (cx_hostname cx)) = Ret m"
        "sends_wf cx [m]"
      using sends_encoded [OF hello_builders_wf(6)] by blast
    with Inr BPing body other show thesis by (simp add: handle_frame_def)
  next
    case (BReply b)
    obtain sv' fx where "on_registry (resolve_reply token (env_id e) b)
        (sv\<lparr>sv_talklog := snd (record_reply (cx_talk cx) (ce_talk ev) (env_id e)
                                 (rp_session b) b (sv_talklog sv))\<rparr>, []) = (sv', fx)" by fastforce
    with Inr BReply reply show thesis by (simp add: handle_frame_def)
  qed (use Inr body other in \<open>simp_all add: handle_frame_def sends_wf_def\<close>)
qed

lemma handle_frame_Ret: "\<exists>keep ms fx sv'. handle_frame cx ev raw token client sv = Ret (keep, ms, fx, sv')"
  by (cases rule: handle_frame_cases [of cx raw ev token client sv]) blast+

text \<open>
  The contract between connections: what is done on behalf of one token is invisible to the others.
\<close>

locale confined =
  fixes view :: "'s \<Rightarrow> string \<Rightarrow> 'v" and act :: "string \<Rightarrow> 'o \<Rightarrow> 's \<Rightarrow> 's"
  assumes act_other: "t \<noteq> u \<Longrightarrow> view (act u x s) t = view s t"
begin

lemma run_other:
  "list_all (\<lambda>(u, x). u \<noteq> t) xs \<Longrightarrow> view (fold (\<lambda>(u, x). act u x) xs s) t = view s t"
  by (induction xs arbitrary: s) (auto simp: act_other)

lemma run_commutes:
  "t \<noteq> u \<Longrightarrow> view (act u y (act t x s)) t = view (act t x s) t"
  by (rule act_other)

end

lemma after_frame_other:
  assumes "t \<noteq> token"
  shows "session_view (after_frame cx ev raw token client sv) t = session_view sv t"
proof (cases rule: handle_frame_cases [of cx raw ev token client sv])
  case (reply e b sv' fx)
  then have "sv_registry sv' = sv_registry sv"
    by (auto simp: on_registry_def resolve_reply_def resolve_prompt_def)
  with reply show ?thesis by (simp add: after_frame_def session_view_def)
next
  case (other e ms sv' fx)
  with handle_body_other [OF assms, of ev client e sv] show ?thesis by (simp add: after_frame_def)
qed (simp_all add: after_frame_def)

interpretation frames: confined session_view
  "\<lambda>u (cx, ev, raw, client) sv. after_frame cx ev raw u client sv"
  by unfold_locales (auto simp: after_frame_other)

text \<open>A live row of another token keeps everything but its blocked flag.\<close>

definition same_row :: "string \<Rightarrow> roster_entry \<Rightarrow> roster \<Rightarrow> roster \<Rightarrow> bool" where
  "same_row name row r r' \<longleftrightarrow>
     ro_config r' = ro_config r \<and> (\<exists>b. hm_get (ro_entries r') name = Some (row\<lparr>re_blocked := b\<rparr>))"

lemma advertise_row_other:
  assumes "hm_get (ro_entries r) name = Some row" and "re_token_id row \<noteq> token"
    and "state_at (ce_now ev) (ro_config r) row \<noteq> Gone"
  shows "hm_get (ro_entries (advertise_row ev token client j r)) name = Some row \<and>
         ro_config (advertise_row ev token client j r) = ro_config r"
  using assms
  by (auto simp: advertise_row_def advertise_with_mode_def Let_def hm_simps split: option.splits if_splits)

lemma advertise_rows_other:
  assumes "hm_get (ro_entries r) name = Some row" and "re_token_id row \<noteq> token"
    and "state_at (ce_now ev) (ro_config r) row \<noteq> Gone"
  shows "hm_get (ro_entries (fold (advertise_row ev token client) js r)) name = Some row \<and>
         ro_config (fold (advertise_row ev token client) js r) = ro_config r"
  using assms
proof (induction js arbitrary: r)
  case (Cons j js)
  with advertise_row_other [OF Cons.prems, of client j] show ?case by simp
qed simp

lemma on_registry_roster [simp]: "sv_roster (fst (on_registry f p)) = sv_roster (fst p)"
  by (simp add: on_registry_def split: prod.splits)

lemma handle_body_rows:
  assumes "hm_get (ro_entries (sv_roster sv)) name = Some row" and "re_token_id row \<noteq> token"
    and "state_at (ce_now ev) (ro_config (sv_roster sv)) row \<noteq> Gone"
  shows "same_row name row (sv_roster sv) (sv_roster (fst (handle_body ev token client e sv)))"
proof -
  have refl: "same_row name row (sv_roster sv) (sv_roster sv)"
    using assms(1) by (auto simp: same_row_def intro: exI [of _ "re_blocked row"])
  show ?thesis
  proof (cases "env_body e")
    case (BPresence p)
    with advertise_rows_other [OF assms, of client "pres_sessions p"] show ?thesis
      by (auto simp: handle_body_def same_row_def intro: exI [of _ "re_blocked row"])
  next
    case (BSessionBlocked b)
    with assms refl show ?thesis
      by (auto simp: handle_body_def same_row_def set_blocked_def hm_simps split: option.splits)
  next
    case (BPing p)
    with assms show ?thesis
      by (auto simp: handle_body_def same_row_def touch_client_def hm_simps intro: exI [of _ "re_blocked row"])
  qed (use refl in \<open>simp_all add: handle_body_def split: option.splits\<close>)
qed

text \<open>Whether a first frame was a login attempt that the token store refused.\<close>

definition attempt_refused :: "conn_ctx \<Rightarrow> conn_env \<Rightarrow> string \<Rightarrow> server \<Rightarrow> bool" where
  "attempt_refused cx ev raw sv =
     (case decode (cx_json cx) raw of
        Inl _ \<Rightarrow> False
      | Inr e \<Rightarrow>
          (case env_body e of
             BJoin j \<Rightarrow>
               (case fst (redeem (cx_tokens cx) (ce_token ev) (env_from e) (join_secret j)
                            (join_hostname j) (sv_store sv)) of Raise _ \<Rightarrow> True | _ \<Rightarrow> False)
           | BAuth a \<Rightarrow>
               (case as_str (auth_credential a) of
                  None \<Rightarrow> False
                | Some c \<Rightarrow>
                    (case fst (verify_credential (cx_tokens cx) (ce_token ev) (env_from e) c (sv_store sv)) of
                       Raise _ \<Rightarrow> True | _ \<Rightarrow> False))
           | _ \<Rightarrow> False))"

lemma conn_encode_Ret:
  "envelope_wf e \<Longrightarrow> conn_encode cx e = Ret (OutText (the (encode (cx_json cx) e))) \<and>
     sends_wf cx [OutText (the (encode (cx_json cx) e))]"
  using conn_encode_wf [of e cx] by (force simp: sends_wf_def)

lemma sends_wf_Cons: "sends_wf cx (m # ms) \<longleftrightarrow> sends_wf cx [m] \<and> sends_wf cx ms"
  by (simp add: sends_wf_def)

lemma sends_wf_control: "sends_wf cx []" "sends_wf cx [OutClose]" "sends_wf cx [OutShutdown]"
  by (simp_all add: sends_wf_def)

lemmas first_frame_defs =
  handle_first_frame_def reject_first_def handle_join_def note_failure_def attempt_refused_def

section \<open>Properties\<close>

text \<open>
  C8: no peer can crash or silence a session.  Whatever text arrives, handling it returns: no
  \<open>expect\<close> fails.  The connection is kept exactly when the frame decoded; every message written encodes
  a well-formed envelope, and a frame that does not decode is answered with one message and changes
  nothing.  The connection is kept for every \<open>hello\<close> too: its \<open>protocol_min\<close> is not looked at, although
  section 2 of \<open>docs/protocol/v1.md\<close> asks for \<open>unsupported_version\<close> and a close when it is above 1.
\<close>

theorem handle_frame_total:
  "\<exists>keep ms fx sv'. handle_frame cx ev raw token client sv = Ret (keep, ms, fx, sv') \<and>
     (keep \<longleftrightarrow> (\<exists>e. decode (cx_json cx) raw = Inr e)) \<and> sends_wf cx ms \<and>
     (keep \<or> length ms = 1 \<and> fx = [] \<and> sv' = sv)"
proof (cases rule: handle_frame_cases [of cx raw ev token client sv])
  case (reply e b sv' fx)
  then show ?thesis by (auto simp: sends_wf_def)
qed auto

text \<open>
  C23: one client's frames never reach another client's connection.  After any sequence of frames
  from other tokens, a token's registry entry (its channel, hostname and pending requests) is
  exactly what it was.
\<close>

theorem session_frames_confined:
  assumes "list_all (\<lambda>(u, f). u \<noteq> t) frames"
  shows "session_view
           (fold (\<lambda>(u, cx, ev, raw, client) sv. after_frame cx ev raw u client sv) frames sv) t =
         session_view sv t"
  using frames.run_other [OF assms, of sv] by (simp add: case_prod_unfold)

text \<open>A server in which nothing has happened yet, used at concrete inputs.\<close>

definition demo_server :: server where
  "demo_server = \<lparr>sv_store = \<lparr>ts_file = None\<rparr>, sv_registry = registry_new,
     sv_roster = roster_new roster_config_default, sv_lockout = lockout_new,
     sv_talklog = talk_log_new (\<lambda>_. None)\<rparr>"

definition demo_ctx :: "json_lib \<Rightarrow> conn_ctx" where
  "demo_ctx lib = \<lparr>cx_json = lib, cx_tokens = demo_token_lib, cx_talk = demo_talk_lib,
     cx_quoted = id, cx_hostname = ''hub'', cx_listening = [''ws://127.0.0.1:41807''],
     cx_limits = connection_limits_default\<rparr>"

definition demo_env :: conn_env where
  "demo_env = \<lparr>ce_now = 5, ce_ts = ''t'', ce_id = ''i'', ce_token = demo_call 5, ce_talk = talk_ok ''t''\<rparr>"

theorem session_frames_confined_witness:
  "\<exists>e. session_view
     (fold (\<lambda>(u, cx, ev, raw, client) sv. after_frame cx ev raw u client sv)
        [(''tok_2'', demo_ctx (demo_lib (JObject demo_ping_members)), demo_env, ''frame'', ''cli_2''),
         (''tok_3'', demo_ctx (demo_lib (JObject demo_ping_members)), demo_env, [], ''cli_3'')]
        (demo_server\<lparr>sv_registry := demo_registry\<rparr>)) ''tok_1'' = Some e"
  using session_frames_confined [of "''tok_1''"
      "[(''tok_2'', demo_ctx (demo_lib (JObject demo_ping_members)), demo_env, ''frame'', ''cli_2''),
        (''tok_3'', demo_ctx (demo_lib (JObject demo_ping_members)), demo_env, [], ''cli_3'')]"
      "demo_server\<lparr>sv_registry := demo_registry\<rparr>"] demo_registry_connected
  by (auto simp: session_view_def)

text \<open>
  C21: only a verified credential opens a session.  A first frame admits a client exactly as the
  token the store verified it for, and then nothing was written and nothing but the store's
  last-seen mark changed.  Any other first frame is answered with well-formed messages and the
  connection closes, without touching the registry, the roster or the talk log; the source's
  failure count goes up exactly when the store refused an \<open>auth\<close> or a \<open>join\<close>.  The only panic is
  one inside the token store.
\<close>

theorem first_frame_admits_only_verified:
  "case handle_first_frame cx ev ip raw sv of
     Ret (FirstAuthed v, ms, sv') \<Rightarrow>
       ms = [] \<and> sv' = sv\<lparr>sv_store := sv_store sv'\<rparr> \<and>
       (\<exists>e c. decode (cx_json cx) raw = Inr e \<and> env_body e = BAuth \<lparr>auth_credential = JString c\<rparr> \<and>
              verify_credential (cx_tokens cx) (ce_token ev) (env_from e) c (sv_store sv) =
                (Ret v, sv_store sv'))
   | Ret (FirstClosed, ms, sv') \<Rightarrow>
       ms \<noteq> [] \<and> sends_wf cx ms \<and> sv_registry sv' = sv_registry sv \<and> sv_roster sv' = sv_roster sv \<and>
       sv_talklog sv' = sv_talklog sv \<and>
       sv_lockout sv' = (if attempt_refused cx ev raw sv
                         then snd (record_failure (ce_now ev) ip (sv_lockout sv)) else sv_lockout sv)
   | Raise _ \<Rightarrow> False
   | Panic \<Rightarrow>
       (\<exists>e store. decode (cx_json cx) raw = Inr e \<and>
         ((\<exists>j :: join_body. redeem (cx_tokens cx) (ce_token ev) (env_from e) (join_secret j) (join_hostname j)
                  (sv_store sv) = (Panic, store)) \<or>
          (\<exists>c. verify_credential (cx_tokens cx) (ce_token ev) (env_from e) c (sv_store sv) =
                  (Panic, store))))"
proof (cases "decode (cx_json cx) raw")
  case (Inl err)
  then show ?thesis
    using conn_encode_Ret [OF decode_error_envelope_wf, of cx err] by (simp add: first_frame_defs)
next
  case (Inr e)
  note wf = conn_encode_Ret [OF error_with_message_wf, of cx] conn_encode_Ret [OF join_ok_wf, of cx]
  show ?thesis
  proof (cases "env_body e")
    case (BJoin j)
    obtain x store where "redeem (cx_tokens cx) (ce_token ev) (env_from e) (join_secret j)
        (join_hostname j) (sv_store sv) = (x, store)" by fastforce
    with Inr BJoin wf show ?thesis
      by (cases x) (auto simp: first_frame_defs sends_wf_Cons [of _ _ "_ # _"] sends_wf_control
          intro!: exI [of _ store] disjI1 exI [of _ j])
  next
    case (BAuth a)
    show ?thesis
    proof (cases "auth_credential a")
      case (JString c)
      obtain x store where "verify_credential (cx_tokens cx) (ce_token ev) (env_from e) c (sv_store sv) =
          (x, store)" by fastforce
      with Inr BAuth JString wf show ?thesis
        by (cases x; cases a) (auto simp: first_frame_defs)
    qed (use Inr BAuth wf in \<open>simp_all add: first_frame_defs\<close>)
  qed (use Inr wf in \<open>simp_all add: first_frame_defs\<close>)
qed

text \<open>
  One client's frames cannot take over another's session rows.  A row that belongs to another
  token and is not gone survives any frame with its owner, state and everything else unchanged,
  except for its blocked flag.
\<close>

lemma frame_keeps_foreign_rows:
  assumes "hm_get (ro_entries (sv_roster sv)) name = Some row" and "re_token_id row \<noteq> token"
    and "state_at (ce_now ev) (ro_config (sv_roster sv)) row \<noteq> Gone"
  shows "\<exists>b. hm_get (ro_entries (sv_roster (after_frame cx ev raw token client sv))) name =
               Some (row\<lparr>re_blocked := b\<rparr>)"
proof -
  have unchanged: "\<exists>b. hm_get (ro_entries (sv_roster sv)) name = Some (row\<lparr>re_blocked := b\<rparr>)"
    using assms(1) by (auto intro: exI [of _ "re_blocked row"])
  show ?thesis
  proof (cases rule: handle_frame_cases [of cx raw ev token client sv])
    case (reply e b sv' fx)
    then have "sv_roster sv' = sv_roster sv" by (metis fst_conv on_registry_roster server.select_convs(3)
          server.surjective server.update_convs(5))
    with reply unchanged show ?thesis by (simp add: after_frame_def)
  next
    case (other e ms sv' fx)
    with handle_body_rows [OF assms, of client e] show ?thesis
      by (simp add: after_frame_def same_row_def)
  qed (use unchanged in \<open>simp_all add: after_frame_def\<close>)
qed

definition demo_row_server :: server where
  "demo_row_server = demo_server\<lparr>sv_roster := demo_roster\<rparr>"

lemma frame_keeps_foreign_rows_at_work:
  "\<exists>b. hm_get (ro_entries (sv_roster (after_frame (demo_ctx (demo_lib (JObject demo_ping_members)))
           (demo_env\<lparr>ce_now := 20\<rparr>) ''frame'' ''tok_2'' ''cli_2'' demo_row_server))) ''alpha'' =
         Some (demo_entry ''tok_1'' 10\<lparr>re_blocked := b\<rparr>)"
  using frame_keeps_foreign_rows [of demo_row_server "''alpha''" "demo_entry ''tok_1'' 10" "''tok_2''"
      "demo_env\<lparr>ce_now := 20\<rparr>" "demo_ctx (demo_lib (JObject demo_ping_members))" "''frame''" "''cli_2''"]
  by (simp add: demo_row_server_def demo_simps hm_get_def state_at_def)

text \<open>
  The blocked flag has no owner check: whoever sends \<open>session_blocked\<close> sets it for any session.
\<close>

lemma session_blocked_unowned:
  assumes "decode (cx_json cx) raw = Inr e"
    and "env_body e = BSessionBlocked \<lparr>sb_session = name, sb_blocked = b\<rparr>"
    and "hm_get (ro_entries (sv_roster sv)) name = Some row"
  shows "hm_get (ro_entries (sv_roster (after_frame cx ev raw token client sv))) name =
           Some (row\<lparr>re_blocked := b\<rparr>)"
  using assms by (simp add: after_frame_def handle_frame_def handle_body_def set_blocked_def hm_simps)

end
