(* ===== verification/Server.thy ===== *)
theory Server
  imports Connection
begin

text \<open>
  All connection tasks together: the accept loop and prune loop of \<open>src/src/wire/mod.rs\<close> and the
  life of a connection in \<open>handle_connection\<close> of \<open>src/src/wire/connection.rs\<close>.

  \<^item> A task is cut wherever it touches shared state or awaits, so that the tasks interleave as the
    runtime may schedule them; \<open>conn_phase\<close> is where a task is.  Connection \<open>i\<close> owns the outbound
    channel \<open>i\<close>.
  \<^item> What arrives, whether a write succeeded, and the clock are part of the step's label.
  \<^item> Between the steps of connections, the control socket's tasks run registry lock sections, push
    frames, record prompts and mark a revoked token's rows gone, the prune loop runs, and other
    processes rewrite the token file.
  \<^item> \<open>sy_sent\<close> and \<open>sy_admitted\<close> record history: what each socket was sent, and which clients
    the token store verified.
\<close>

section \<open>State\<close>

datatype conn_phase =
    CIdle
  | CStarted string
  | CAwaiting string
  | CVerified verified_client
  | CRegistered verified_client
  | CSession verified_client
  | CClosing verified_client bool
  | CRemoved verified_client bool
  | CDone

record system =
  sy_server :: server
  sy_phase :: "nat \<Rightarrow> conn_phase"
  sy_queue :: "channel \<Rightarrow> envelope list"
  sy_closed :: "channel \<Rightarrow> bool"
  sy_free :: nat
  sy_sent :: "nat \<Rightarrow> out_message list"
  sy_admitted :: "(nat \<times> verified_client) list"

definition sys_init :: "conn_ctx \<Rightarrow> roster_config \<Rightarrow> token_store \<Rightarrow> talk_log \<Rightarrow> system" where
  "sys_init cx cfg store log =
     \<lparr>sy_server = \<lparr>sv_store = store, sv_registry = registry_new, sv_roster = roster_new cfg,
                  sv_lockout = lockout_new, sv_talklog = log\<rparr>,
      sy_phase = (\<lambda>_. CIdle), sy_queue = (\<lambda>_. []), sy_closed = (\<lambda>_. False),
      sy_free = cl_max_unauth_connections (cx_limits cx), sy_sent = (\<lambda>_. []), sy_admitted = []\<rparr>"

definition set_phase :: "nat \<Rightarrow> conn_phase \<Rightarrow> system \<Rightarrow> system" where
  "set_phase i p s = s\<lparr>sy_phase := (sy_phase s)(i := p)\<rparr>"

definition set_server :: "server \<Rightarrow> system \<Rightarrow> system" where
  "set_server sv s = s\<lparr>sy_server := sv\<rparr>"

definition send_out :: "nat \<Rightarrow> out_message list \<Rightarrow> system \<Rightarrow> system" where
  "send_out i ms s = s\<lparr>sy_sent := (sy_sent s)(i := sy_sent s i @ ms)\<rparr>"

text \<open>The task returns before it authenticated: its permit goes back to the semaphore.\<close>

definition release :: "nat \<Rightarrow> conn_phase \<Rightarrow> system \<Rightarrow> system" where
  "release i p s = set_phase i p (s\<lparr>sy_free := sy_free s + 1\<rparr>)"

fun apply_effect :: "effect \<Rightarrow> system \<Rightarrow> system" where
  "apply_effect (SendOut ch e) s = s\<lparr>sy_queue := (sy_queue s)(ch := sy_queue s ch @ [e])\<rparr>"
| "apply_effect (CloseOut ch) s = s\<lparr>sy_closed := (sy_closed s)(ch := True)\<rparr>"
| "apply_effect (Signal w g) s = s"
| "apply_effect (DropWaiter w) s = s"

definition apply_effects :: "effect list \<Rightarrow> system \<Rightarrow> system" where
  "apply_effects fx s = fold apply_effect fx s"

definition on_sys_registry :: "(registry \<Rightarrow> registry \<times> effect list) \<Rightarrow> system \<Rightarrow> system" where
  "on_sys_registry f s =
     (case on_registry f (sy_server s, []) of (sv, fx) \<Rightarrow> apply_effects fx (set_server sv s))"

section \<open>Steps\<close>

datatype sys_op =
    SAccept nat string
  | SStart nat bool conn_env
  | SFirst nat "incoming list" bool conn_env
  | SRegister nat
  | SHello nat bool conn_env
  | SIncoming nat incoming conn_env
  | SOutgoing nat bool
  | SRemove nat
  | SMarkGone nat
  | SControl reg_op
  | SPush channel envelope
  | SGone string
  | SRecordPrompt talk_call string string string
  | SPrune instant
  | SStore token_store

text \<open>\<open>accept_loop\<close>: no permit left means the socket is dropped at once.\<close>

definition accept :: "nat \<Rightarrow> string \<Rightarrow> system \<Rightarrow> system" where
  "accept i ip s =
     (if sy_free s = 0 then set_phase i CDone s
      else set_phase i (CStarted ip) (s\<lparr>sy_free := sy_free s - 1\<rparr>))"

text \<open>The lockout check, then the handshake.\<close>

definition start :: "nat \<Rightarrow> string \<Rightarrow> bool \<Rightarrow> conn_env \<Rightarrow> system \<Rightarrow> system" where
  "start i ip handshake_ok ev s =
     (case is_locked_out (ce_now ev) ip (sv_lockout (sy_server s)) of
        (locked, lk) \<Rightarrow>
          let s' = set_server ((sy_server s)\<lparr>sv_lockout := lk\<rparr>) s
          in if locked \<or> \<not> handshake_ok then release i CDone s' else set_phase i (CAwaiting ip) s')"

text \<open>The first frame within the pre-auth window (\<open>timely\<close>), and what it leads to.\<close>

definition first :: "conn_ctx \<Rightarrow> nat \<Rightarrow> string \<Rightarrow> incoming list \<Rightarrow> bool \<Rightarrow> conn_env \<Rightarrow> system \<Rightarrow> system" where
  "first cx i ip msgs timely ev s =
     (case if timely then fst (next_text_frame msgs) else None of
        None \<Rightarrow> release i CDone s
      | Some raw \<Rightarrow>
          (case handle_first_frame cx ev ip raw (sy_server s) of
             Ret (FirstClosed, ms, sv) \<Rightarrow> release i CDone (send_out i ms (set_server sv s))
           | Ret (FirstAuthed v, ms, sv) \<Rightarrow>
               release i (CVerified v)
                 (send_out i ms (set_server sv (s\<lparr>sy_admitted := (i, v) # sy_admitted s\<rparr>)))
           | _ \<Rightarrow> release i CDone s))"

definition register_conn :: "nat \<Rightarrow> verified_client \<Rightarrow> system \<Rightarrow> system" where
  "register_conn i v s =
     set_phase i (CRegistered v)
       (on_sys_registry (registry_insert (vc_token_id v) (vc_client_id v) (vc_machine v) i)
          (s\<lparr>sy_queue := (sy_queue s)(i := []), sy_closed := (sy_closed s)(i := False)\<rparr>))"

definition hello :: "conn_ctx \<Rightarrow> nat \<Rightarrow> verified_client \<Rightarrow> bool \<Rightarrow> conn_env \<Rightarrow> system \<Rightarrow> system" where
  "hello cx i v ok ev s =
     (case conn_encode cx (server_hello (ce_id ev) (ce_ts ev) (cx_hostname cx)) of
        Ret m \<Rightarrow> if ok then set_phase i (CSession v) (send_out i [m] s) else set_phase i (CClosing v False) s
      | _ \<Rightarrow> set_phase i CDone s)"

definition binary_notice :: envelope where
  "binary_notice =
     error_with_message CODE_UNKNOWN_TYPE ''binary frames are not part of Holler v1'' [] ''server''"

definition incoming_step ::
  "conn_ctx \<Rightarrow> nat \<Rightarrow> verified_client \<Rightarrow> incoming \<Rightarrow> conn_env \<Rightarrow> system \<Rightarrow> system" where
  "incoming_step cx i v m ev s =
     (case m of
        InText raw \<Rightarrow>
          (case handle_frame cx ev raw (vc_token_id v) (vc_client_id v) (sy_server s) of
             Ret (keep, ms, fx, sv) \<Rightarrow>
               set_phase i (if keep then CSession v else CClosing v False)
                 (apply_effects fx (send_out i ms (set_server sv s)))
           | _ \<Rightarrow> set_phase i CDone s)
      | InPing p \<Rightarrow> send_out i [OutPong p] s
      | InPong \<Rightarrow> s
      | InClose \<Rightarrow> set_phase i (CClosing v True) s
      | InEof \<Rightarrow> set_phase i (CClosing v True) s
      | InError \<Rightarrow> set_phase i (CClosing v False) s
      | _ \<Rightarrow>
          (case conn_encode cx binary_notice of
             Ret m \<Rightarrow> set_phase i (CClosing v False) (send_out i [m] s)
           | _ \<Rightarrow> set_phase i CDone s))"

text \<open>\<open>out_rx.recv()\<close>: the next queued frame; the end only once the sender is gone and all is read.\<close>

definition outgoing_step ::
  "conn_ctx \<Rightarrow> nat \<Rightarrow> verified_client \<Rightarrow> bool \<Rightarrow> system \<Rightarrow> system option" where
  "outgoing_step cx i v ok s =
     (case sy_queue s i of
        e # q \<Rightarrow>
          (let s' = s\<lparr>sy_queue := (sy_queue s)(i := q)\<rparr>
           in case conn_encode cx e of
                Ret m \<Rightarrow> Some (if ok then send_out i [m] s' else set_phase i (CClosing v False) s')
              | _ \<Rightarrow> Some (set_phase i CDone s'))
      | [] \<Rightarrow> if sy_closed s i then Some (set_phase i (CClosing v False) s) else None)"

definition remove_conn :: "nat \<Rightarrow> verified_client \<Rightarrow> bool \<Rightarrow> system \<Rightarrow> system" where
  "remove_conn i v certain s =
     set_phase i (CRemoved v certain)
       (on_sys_registry (\<lambda>r. snd (registry_remove (vc_token_id v) r)) s)"

definition on_roster :: "(roster \<Rightarrow> roster) \<Rightarrow> system \<Rightarrow> system" where
  "on_roster f s = set_server ((sy_server s)\<lparr>sv_roster := f (sv_roster (sy_server s))\<rparr>) s"

definition finish_conn :: "nat \<Rightarrow> verified_client \<Rightarrow> bool \<Rightarrow> system \<Rightarrow> system" where
  "finish_conn i v certain s =
     set_phase i CDone (if certain then on_roster (mark_gone (vc_token_id v)) s else s)"

text \<open>One tick of \<open>roster_prune_loop\<close>.\<close>

definition roster_prune_tick :: "instant \<Rightarrow> system \<Rightarrow> system" where
  "roster_prune_tick now s = on_roster (prune now) s"

text \<open>The control socket never inserts a connection.\<close>

fun control_op :: "reg_op \<Rightarrow> bool" where
  "control_op (RegInsert _ _ _ _) = False"
| "control_op _ = True"

fun sys_step :: "conn_ctx \<Rightarrow> sys_op \<Rightarrow> system \<Rightarrow> system option" where
  "sys_step cx (SAccept i ip) s = (case sy_phase s i of CIdle \<Rightarrow> Some (accept i ip s) | _ \<Rightarrow> None)"
| "sys_step cx (SStart i ok ev) s =
     (case sy_phase s i of CStarted ip \<Rightarrow> Some (start i ip ok ev s) | _ \<Rightarrow> None)"
| "sys_step cx (SFirst i msgs timely ev) s =
     (case sy_phase s i of CAwaiting ip \<Rightarrow> Some (first cx i ip msgs timely ev s) | _ \<Rightarrow> None)"
| "sys_step cx (SRegister i) s =
     (case sy_phase s i of CVerified v \<Rightarrow> Some (register_conn i v s) | _ \<Rightarrow> None)"
| "sys_step cx (SHello i ok ev) s =
     (case sy_phase s i of CRegistered v \<Rightarrow> Some (hello cx i v ok ev s) | _ \<Rightarrow> None)"
| "sys_step cx (SIncoming i m ev) s =
     (case sy_phase s i of CSession v \<Rightarrow> Some (incoming_step cx i v m ev s) | _ \<Rightarrow> None)"
| "sys_step cx (SOutgoing i ok) s =
     (case sy_phase s i of CSession v \<Rightarrow> outgoing_step cx i v ok s | _ \<Rightarrow> None)"
| "sys_step cx (SRemove i) s =
     (case sy_phase s i of CClosing v certain \<Rightarrow> Some (remove_conn i v certain s) | _ \<Rightarrow> None)"
| "sys_step cx (SMarkGone i) s =
     (case sy_phase s i of CRemoved v certain \<Rightarrow> Some (finish_conn i v certain s) | _ \<Rightarrow> None)"
| "sys_step cx (SControl x) s = (if control_op x then Some (on_sys_registry (reg_step x) s) else None)"
| "sys_step cx (SPush ch e) s = Some (apply_effect (SendOut ch e) s)"
| "sys_step cx (SGone t) s = Some (on_roster (mark_gone t) s)"
| "sys_step cx (SRecordPrompt call i session text) s =
     Some (set_server ((sy_server s)\<lparr>sv_talklog :=
       snd (record_prompt (cx_talk cx) call i session text (sv_talklog (sy_server s)))\<rparr>) s)"
| "sys_step cx (SPrune now) s = Some (roster_prune_tick now s)"
| "sys_step cx (SStore store) s = Some (set_server ((sy_server s)\<lparr>sv_store := store\<rparr>) s)"

fun sys_run :: "conn_ctx \<Rightarrow> sys_op list \<Rightarrow> system \<Rightarrow> system option" where
  "sys_run cx [] s = Some s"
| "sys_run cx (x # xs) s = Option.bind (sys_step cx x s) (sys_run cx xs)"

inductive sys_reachable :: "conn_ctx \<Rightarrow> system \<Rightarrow> system \<Rightarrow> bool" for cx s0 where
  initial: "sys_reachable cx s0 s0"
| step: "sys_reachable cx s0 s \<Longrightarrow> sys_step cx x s = Some s' \<Longrightarrow> sys_reachable cx s0 s'"

inductive_cases sys_reachableE: "sys_reachable cx s0 s"

text \<open>What every invariant of the server promises: it holds at the start and every step keeps it.\<close>

locale system_invariant =
  fixes cx :: conn_ctx and Inv :: "system \<Rightarrow> bool"
  assumes initially: "Inv (sys_init cx cfg store log)"
    and kept: "sys_step cx x s = Some s' \<Longrightarrow> Inv s \<Longrightarrow> Inv s'"
begin

lemma always: "sys_reachable cx (sys_init cx cfg store log) s \<Longrightarrow> Inv s"
  by (induction rule: sys_reachable.induct) (auto intro: initially kept)

end

section \<open>Lemmas\<close>

lemma set_phase_simps [simp]:
  "sy_server (set_phase i p s) = sy_server s" "sy_phase (set_phase i p s) = (sy_phase s)(i := p)"
  "sy_queue (set_phase i p s) = sy_queue s" "sy_closed (set_phase i p s) = sy_closed s"
  "sy_free (set_phase i p s) = sy_free s" "sy_sent (set_phase i p s) = sy_sent s"
  "sy_admitted (set_phase i p s) = sy_admitted s"
  by (simp_all add: set_phase_def)

lemma set_server_simps [simp]:
  "sy_server (set_server sv s) = sv" "sy_phase (set_server sv s) = sy_phase s"
  "sy_queue (set_server sv s) = sy_queue s" "sy_closed (set_server sv s) = sy_closed s"
  "sy_free (set_server sv s) = sy_free s" "sy_sent (set_server sv s) = sy_sent s"
  "sy_admitted (set_server sv s) = sy_admitted s"
  by (simp_all add: set_server_def)

lemma send_out_simps [simp]:
  "sy_server (send_out i ms s) = sy_server s" "sy_phase (send_out i ms s) = sy_phase s"
  "sy_queue (send_out i ms s) = sy_queue s" "sy_closed (send_out i ms s) = sy_closed s"
  "sy_free (send_out i ms s) = sy_free s" "sy_admitted (send_out i ms s) = sy_admitted s"
  "sy_sent (send_out i ms s) = (sy_sent s)(i := sy_sent s i @ ms)"
  by (simp_all add: send_out_def)

lemma release_simps [simp]:
  "sy_server (release i p s) = sy_server s" "sy_phase (release i p s) = (sy_phase s)(i := p)"
  "sy_free (release i p s) = Suc (sy_free s)" "sy_sent (release i p s) = sy_sent s"
  "sy_admitted (release i p s) = sy_admitted s"
  by (simp_all add: release_def)

lemma apply_effects_simps [simp]:
  "sy_server (apply_effects fx s) = sy_server s" "sy_phase (apply_effects fx s) = sy_phase s"
  "sy_free (apply_effects fx s) = sy_free s" "sy_sent (apply_effects fx s) = sy_sent s"
  "sy_admitted (apply_effects fx s) = sy_admitted s"
proof -
  have one: "sy_server (apply_effect x s) = sy_server s \<and> sy_phase (apply_effect x s) = sy_phase s \<and>
      sy_free (apply_effect x s) = sy_free s \<and> sy_sent (apply_effect x s) = sy_sent s \<and>
      sy_admitted (apply_effect x s) = sy_admitted s" for x s
    by (cases x) simp_all
  have "sy_server (apply_effects fx s) = sy_server s \<and> sy_phase (apply_effects fx s) = sy_phase s \<and>
      sy_free (apply_effects fx s) = sy_free s \<and> sy_sent (apply_effects fx s) = sy_sent s \<and>
      sy_admitted (apply_effects fx s) = sy_admitted s"
    unfolding apply_effects_def by (induction fx arbitrary: s) (simp_all add: one)
  then show "sy_server (apply_effects fx s) = sy_server s" "sy_phase (apply_effects fx s) = sy_phase s"
    "sy_free (apply_effects fx s) = sy_free s" "sy_sent (apply_effects fx s) = sy_sent s"
    "sy_admitted (apply_effects fx s) = sy_admitted s"
    by blast+
qed

lemma on_sys_registry_simps [simp]:
  "sy_server (on_sys_registry f s) =
     (sy_server s)\<lparr>sv_registry := fst (f (sv_registry (sy_server s)))\<rparr>"
  "sy_phase (on_sys_registry f s) = sy_phase s" "sy_free (on_sys_registry f s) = sy_free s"
  "sy_sent (on_sys_registry f s) = sy_sent s" "sy_admitted (on_sys_registry f s) = sy_admitted s"
  by (simp_all add: on_sys_registry_def on_registry_def split: prod.splits)

lemma on_roster_simps [simp]:
  "sy_server (on_roster f s) = (sy_server s)\<lparr>sv_roster := f (sv_roster (sy_server s))\<rparr>"
  "sy_phase (on_roster f s) = sy_phase s" "sy_free (on_roster f s) = sy_free s"
  "sy_sent (on_roster f s) = sy_sent s" "sy_admitted (on_roster f s) = sy_admitted s"
  "sy_queue (on_roster f s) = sy_queue s" "sy_closed (on_roster f s) = sy_closed s"
  by (simp_all add: on_roster_def)

lemmas sys_defs =
  accept_def start_def first_def register_conn_def hello_def incoming_step_def outgoing_step_def
  remove_conn_def finish_conn_def roster_prune_tick_def Let_def

subsection \<open>The permit count\<close>

fun holds_permit :: "conn_phase \<Rightarrow> bool" where
  "holds_permit (CStarted _) = True"
| "holds_permit (CAwaiting _) = True"
| "holds_permit _ = False"

definition permits_inv :: "nat \<Rightarrow> system \<Rightarrow> bool" where
  "permits_inv cap s \<longleftrightarrow>
     finite {i. holds_permit (sy_phase s i)} \<and> card {i. holds_permit (sy_phase s i)} + sy_free s = cap"

lemma holders_upd:
  "{j. holds_permit ((ph(i := p)) j)} =
   (if holds_permit p then insert i {j. holds_permit (ph j)} else {j. holds_permit (ph j)} - {i})"
  by auto

text \<open>How a step may move one connection between holding and not holding a permit.\<close>

lemma permits_upd:
  assumes "permits_inv cap s" and "sy_phase s' = (sy_phase s)(i := p)"
    and "sy_free s' + of_bool (holds_permit p) = sy_free s + of_bool (holds_permit (sy_phase s i))"
  shows "permits_inv cap s'"
proof -
  have "0 < card {i. holds_permit (sy_phase s i)}" if "holds_permit (sy_phase s i)"
    using assms(1) that by (auto simp: permits_inv_def card_gt_0_iff)
  with assms show ?thesis
    unfolding permits_inv_def assms(2) holders_upd
    by (auto simp: card_insert_if card_Diff_singleton_if split: if_splits)
qed

text \<open>One step moves at most one connection, along the life of a connection.\<close>

fun next_phase :: "conn_phase \<Rightarrow> conn_phase \<Rightarrow> bool" where
  "next_phase CIdle p \<longleftrightarrow> p = CDone \<or> (\<exists>ip. p = CStarted ip)"
| "next_phase (CStarted ip) p \<longleftrightarrow> p = CDone \<or> p = CAwaiting ip"
| "next_phase (CAwaiting ip) p \<longleftrightarrow> p = CDone \<or> (\<exists>v. p = CVerified v)"
| "next_phase (CVerified v) p \<longleftrightarrow> p = CRegistered v"
| "next_phase (CRegistered v) p \<longleftrightarrow> p = CSession v \<or> p = CClosing v False"
| "next_phase (CSession v) p \<longleftrightarrow> p = CSession v \<or> p = CDone \<or> (\<exists>c. p = CClosing v c)"
| "next_phase (CClosing v c) p \<longleftrightarrow> p = CRemoved v c"
| "next_phase (CRemoved v c) p \<longleftrightarrow> p = CDone"
| "next_phase CDone p \<longleftrightarrow> False"

lemma hello_encodes: "\<exists>m. conn_encode cx (server_hello i ts h) = Ret m"
  using conn_encode_wf [OF hello_builders_wf(1)] by blast

lemma sys_step_moves:
  assumes "sys_step cx x s = Some s'"
  shows "(sy_phase s' = sy_phase s \<and> sy_free s' = sy_free s) \<or>
         (\<exists>i. sy_phase s' = (sy_phase s)(i := sy_phase s' i) \<and> next_phase (sy_phase s i) (sy_phase s' i) \<and>
            sy_free s' + of_bool (holds_permit (sy_phase s' i)) =
            sy_free s + of_bool (holds_permit (sy_phase s i)))"
proof (cases x)
  case (SAccept i ip)
  with assms show ?thesis
    by (auto simp: sys_defs split: conn_phase.splits if_splits intro!: exI [of _ i])
next
  case (SStart i ok ev)
  with assms show ?thesis
    by (auto simp: sys_defs split: conn_phase.splits if_splits prod.splits intro!: exI [of _ i])
next
  case (SFirst i msgs timely ev)
  with assms show ?thesis
    by (auto simp: sys_defs split: conn_phase.splits if_splits option.splits prod.splits exec.splits
        first_result.splits intro!: exI [of _ i])
next
  case (SHello i ok ev)
  with assms hello_encodes [of cx "ce_id ev" "ce_ts ev" "cx_hostname cx"] show ?thesis
    by (auto simp: sys_defs split: conn_phase.splits if_splits intro!: exI [of _ i])
next
  case (SIncoming i m ev)
  with assms show ?thesis
    by (auto simp: sys_defs split: conn_phase.splits if_splits incoming.splits exec.splits prod.splits
        intro!: exI [of _ i])
next
  case (SOutgoing i ok)
  with assms show ?thesis
    by (auto simp: sys_defs split: conn_phase.splits if_splits list.splits exec.splits
        intro!: exI [of _ i])
next
  case (SRegister i)
  with assms show ?thesis
    by (auto simp: sys_defs split: conn_phase.splits intro!: exI [of _ i])
next
  case (SRemove i)
  with assms show ?thesis
    by (auto simp: sys_defs split: conn_phase.splits intro!: exI [of _ i])
next
  case (SMarkGone i)
  with assms show ?thesis
    by (cases "sy_phase s i") (auto simp: sys_defs split: if_splits intro!: exI [of _ i])
qed (use assms in \<open>auto simp: roster_prune_tick_def split: if_splits\<close>)

lemma permits_step:
  assumes "sys_step cx x s = Some s'" and "permits_inv cap s"
  shows "permits_inv cap s'"
  using sys_step_moves [OF assms(1)]
proof (elim disjE exE conjE)
  assume "sy_phase s' = sy_phase s" "sy_free s' = sy_free s"
  with assms(2) show ?thesis by (simp add: permits_inv_def)
qed (use assms(2) permits_upd in blast)

interpretation permits: system_invariant cx "permits_inv (cl_max_unauth_connections (cx_limits cx))" for cx
  by (unfold_locales, simp add: permits_inv_def sys_init_def, rule permits_step)

subsection \<open>Who is in the registry and the roster\<close>

definition entry_ids :: "registry \<Rightarrow> (string \<times> string \<times> channel) set" where
  "entry_ids r = (\<lambda>(t, e). (t, en_client_id e, en_out e)) ` set (rg_entries r)"

definition row_owners :: "roster \<Rightarrow> (string \<times> string) set" where
  "row_owners r = (\<lambda>(n, e). (re_token_id e, re_client_id e)) ` set (ro_entries r)"

fun inserted :: "reg_op \<Rightarrow> (string \<times> string \<times> channel) set" where
  "inserted (RegInsert t c h out) = {(t, c, out)}"
| "inserted _ = {}"

lemma entry_ids_put:
  "entry_ids (put_entry t e r) \<subseteq> insert (t, en_client_id e, en_out e) (entry_ids r)"
  using set_hm_insert_le [of t e "rg_entries r"] by (fastforce simp: entry_ids_def put_entry_def)

lemma entry_ids_get: "hm_get (rg_entries r) t = Some e \<Longrightarrow> (t, en_client_id e, en_out e) \<in> entry_ids r"
  by (force simp: entry_ids_def dest: hm_get_SomeD)

lemma entry_ids_update:
  assumes "hm_get (rg_entries r) t = Some e" and "en_client_id e' = en_client_id e" "en_out e' = en_out e"
  shows "entry_ids (put_entry t e' r) \<subseteq> entry_ids r"
  using entry_ids_put [of t e' r] entry_ids_get [OF assms(1)] assms(2,3) by auto

lemmas reg_ops =
  registry_insert_def set_hostname_def registry_remove_def record_harness_confirmed_def
  register_ping_def resolve_pong_def forget_pending_def
  register_query_def resolve_query_def resolve_query_ok_def resolve_query_err_def
  forget_pending_query_def register_prompt_def forget_pending_prompt_def resolve_prompt_def
  resolve_reply_def resolve_prompt_err_def register_interrupt_def forget_pending_interrupt_def
  resolve_interrupt_ack_def register_answer_def forget_pending_answer_def resolve_answer_def
  resolve_answer_ack_def resolve_answer_err_def Let_def

lemma entry_ids_reg_step: "entry_ids (fst (reg_step x r)) \<subseteq> entry_ids r \<union> inserted x"
proof (cases x)
  case (RegRegister k now t i se w)
  then show ?thesis
    by (cases k) (auto simp: reg_ops split: option.splits dest!: subsetD [OF entry_ids_update, rotated -1])
next
  case (RegForget k t i)
  then show ?thesis
    by (cases k) (auto simp: reg_ops split: option.splits dest!: subsetD [OF entry_ids_update, rotated -1])
next
  case (RegInsert t c h out)
  then show ?thesis using entry_ids_put by (fastforce simp: reg_ops)
next
  case (RegRemove t)
  then show ?thesis
    using set_hm_remove_le [of t "rg_entries r"] by (auto simp: reg_ops entry_ids_def split: option.splits)
qed (auto simp: reg_ops entry_ids_def [of "_\<lparr>rg_confirmed := _\<rparr>"] entry_ids_def [of r] split: option.splits
       dest!: subsetD [OF entry_ids_update, rotated -1])

lemma row_owners_advertise:
  "row_owners (advertise_row ev t c j r) \<subseteq> insert (t, c) (row_owners r)"
  by (auto simp: advertise_row_def advertise_with_mode_def Let_def row_owners_def
      split: option.splits if_splits dest!: set_hm_insertD)

lemma row_owners_advertises:
  "row_owners (fold (advertise_row ev t c) js r) \<subseteq> insert (t, c) (row_owners r)"
proof (induction js arbitrary: r)
  case (Cons j js)
  then show ?case using row_owners_advertise [of ev t c j r] by fastforce
qed auto

lemma row_owners_kept:
  "row_owners (touch_client now t r) = row_owners r" "row_owners (mark_gone t r) = row_owners r"
  "row_owners (set_blocked n b r) \<subseteq> row_owners r" "row_owners (prune now r) \<subseteq> row_owners r"
proof -
  have map: "(\<lambda>(n, e). (re_token_id e, re_client_id e)) ` set (hm_map_values f m) =
      (\<lambda>(n, e). (re_token_id e, re_client_id e)) ` set m"
    if "\<And>e. re_token_id (f e) = re_token_id e \<and> re_client_id (f e) = re_client_id e" for f m
    using that by (force simp: hm_map_values_def image_image case_prod_unfold)
  show "row_owners (touch_client now t r) = row_owners r" "row_owners (mark_gone t r) = row_owners r"
    by (simp_all add: row_owners_def touch_client_def mark_gone_def map)
  show "row_owners (set_blocked n b r) \<subseteq> row_owners r"
    by (force simp: row_owners_def set_blocked_def split: option.splits dest!: set_hm_insertD hm_get_SomeD)
  show "row_owners (prune now r) \<subseteq> row_owners r"
    by (auto simp: row_owners_def prune_def hm_retain_def)
qed

text \<open>A frame of \<open>(t, c)\<close> admits nobody to the registry, and only \<open>(t, c)\<close> to the roster.\<close>

definition stays :: "(string \<times> string) \<Rightarrow> server \<Rightarrow> server \<Rightarrow> bool" where
  "stays tc sv sv' \<longleftrightarrow>
     entry_ids (sv_registry sv') \<subseteq> entry_ids (sv_registry sv) \<and>
     row_owners (sv_roster sv') \<subseteq> insert tc (row_owners (sv_roster sv))"

lemma stays_refl: "stays tc sv sv"
  by (auto simp: stays_def)

lemma stays_on_registry:
  assumes "stays tc sv (fst p)" and "\<And>r. entry_ids (fst (f r)) \<subseteq> entry_ids r"
  shows "stays tc sv (fst (on_registry f p))"
  using assms by (fastforce simp: stays_def on_registry_def split: prod.splits)

lemma resolve_ids:
  "entry_ids (fst (resolve_query_ok t i qb r)) \<subseteq> entry_ids r"
  "entry_ids (fst (resolve_query_err t i eb r)) \<subseteq> entry_ids r"
  "entry_ids (fst (resolve_reply t i rb r)) \<subseteq> entry_ids r"
  "entry_ids (fst (resolve_prompt_err t i eb r)) \<subseteq> entry_ids r"
  "entry_ids (fst (resolve_answer_err t i eb r)) \<subseteq> entry_ids r"
  "entry_ids (fst (resolve_answer_ack t i r)) \<subseteq> entry_ids r"
  "entry_ids (fst (resolve_interrupt_ack t i r)) \<subseteq> entry_ids r"
  "entry_ids (fst (resolve_pong now t i r)) \<subseteq> entry_ids r"
  "entry_ids (set_hostname t h r) \<subseteq> entry_ids r"
  using entry_ids_reg_step [of "RegQueryOk t i qb" r] entry_ids_reg_step [of "RegQueryErr t i eb" r]
    entry_ids_reg_step [of "RegReply t i rb" r] entry_ids_reg_step [of "RegPromptErr t i eb" r]
    entry_ids_reg_step [of "RegAnswerErr t i eb" r] entry_ids_reg_step [of "RegAnswerAck t i" r]
    entry_ids_reg_step [of "RegInterruptAck t i" r] entry_ids_reg_step [of "RegPong now t i" r]
    entry_ids_reg_step [of "RegSetHostname t h" r]
  by simp_all

lemma handle_body_stays: "stays (t, c) sv (fst (handle_body ev t c e sv))"
proof (cases "env_body e")
  case (BHello h)
  then show ?thesis using resolve_ids(9) by (auto simp: handle_body_def stays_def)
next
  case (BPresence p)
  then show ?thesis using row_owners_advertises by (auto simp: handle_body_def stays_def)
next
  case (BSessionBlocked b)
  then show ?thesis using row_owners_kept(3) by (auto simp: handle_body_def stays_def)
next
  case (BPing p)
  then show ?thesis by (auto simp: handle_body_def stays_def row_owners_kept)
next
  case (BAck a)
  then show ?thesis
    by (cases "ack_of a")
       (auto simp: handle_body_def stays_refl intro!: stays_on_registry resolve_ids)
qed (auto simp: handle_body_def stays_refl intro!: stays_on_registry resolve_ids)

lemma handle_frame_stays:
  assumes "handle_frame cx ev raw t c sv = Ret (keep, ms, fx, sv')"
  shows "stays (t, c) sv sv'"
proof (cases rule: handle_frame_cases [of cx raw ev t c sv])
  case (reply e b sv1 fx1)
  then have "sv_registry sv1 = sv_registry sv" "sv_roster sv1 = sv_roster sv"
    by (auto simp: on_registry_def resolve_reply_def resolve_prompt_def)
  with reply assms show ?thesis by (auto simp: stays_def)
next
  case (other e ms1 sv1 fx1)
  with assms handle_body_stays [of t c sv ev e] show ?thesis by simp
qed (use assms in \<open>simp_all add: stays_refl\<close>)

fun client_of :: "conn_phase \<Rightarrow> verified_client option" where
  "client_of (CVerified v) = Some v"
| "client_of (CRegistered v) = Some v"
| "client_of (CSession v) = Some v"
| "client_of (CClosing v _) = Some v"
| "client_of (CRemoved v _) = Some v"
| "client_of _ = None"

definition server_admitted :: "(nat \<times> verified_client) list \<Rightarrow> server \<Rightarrow> bool" where
  "server_admitted A sv \<longleftrightarrow>
     (\<forall>t c ch. (t, c, ch) \<in> entry_ids (sv_registry sv) \<longrightarrow>
        (\<exists>v. (ch, v) \<in> set A \<and> vc_token_id v = t \<and> vc_client_id v = c)) \<and>
     (\<forall>t c. (t, c) \<in> row_owners (sv_roster sv) \<longrightarrow>
        (\<exists>i v. (i, v) \<in> set A \<and> vc_token_id v = t \<and> vc_client_id v = c))"

definition admission_inv :: "system \<Rightarrow> bool" where
  "admission_inv s \<longleftrightarrow>
     (\<forall>i v. client_of (sy_phase s i) = Some v \<longrightarrow> (i, v) \<in> set (sy_admitted s)) \<and>
     server_admitted (sy_admitted s) (sy_server s)"

lemma server_admitted_mono: "server_admitted A sv \<Longrightarrow> server_admitted (x # A) sv"
  unfolding server_admitted_def by (meson list.set_intros(2))

lemma server_admitted_stays:
  "server_admitted A sv \<Longrightarrow> (i, v) \<in> set A \<Longrightarrow> stays (vc_token_id v, vc_client_id v) sv sv' \<Longrightarrow>
   server_admitted A sv'"
  unfolding server_admitted_def stays_def by blast

lemma server_admitted_shrinks:
  "server_admitted A sv \<Longrightarrow> entry_ids (sv_registry sv') \<subseteq> entry_ids (sv_registry sv) \<Longrightarrow>
   row_owners (sv_roster sv') \<subseteq> row_owners (sv_roster sv) \<Longrightarrow> server_admitted A sv'"
  unfolding server_admitted_def by blast

lemma server_admitted_insert:
  "server_admitted A sv \<Longrightarrow> (i, v) \<in> set A \<Longrightarrow>
   entry_ids r \<subseteq> insert (vc_token_id v, vc_client_id v, i) (entry_ids (sv_registry sv)) \<Longrightarrow>
   server_admitted A (sv\<lparr>sv_registry := r\<rparr>)"
  unfolding server_admitted_def by auto

lemma server_admitted_registry:
  "server_admitted A sv \<Longrightarrow> entry_ids r \<subseteq> entry_ids (sv_registry sv) \<Longrightarrow>
   server_admitted A (sv\<lparr>sv_registry := r\<rparr>)"
  using server_admitted_shrinks [of A sv "sv\<lparr>sv_registry := r\<rparr>"] by simp

lemma server_admitted_roster:
  "server_admitted A sv \<Longrightarrow> row_owners r \<subseteq> row_owners (sv_roster sv) \<Longrightarrow>
   server_admitted A (sv\<lparr>sv_roster := r\<rparr>)"
  using server_admitted_shrinks [of A sv "sv\<lparr>sv_roster := r\<rparr>"] by simp

lemma first_frame_shared:
  "handle_first_frame cx ev ip raw sv = Ret (res, ms, sv') \<Longrightarrow>
   sv_registry sv' = sv_registry sv \<and> sv_roster sv' = sv_roster sv"
  by (auto simp: handle_first_frame_def handle_join_def reject_first_def note_failure_def conn_encode_def
      split: sum.splits body.splits exec.splits option.splits prod.splits)

text \<open>A step that moves connection \<open>i\<close> to a phase with the same or no client.\<close>

lemma admission_upd:
  assumes "admission_inv s" and "sy_phase s' = (sy_phase s)(i := p)" and "sy_admitted s' = sy_admitted s"
    and "client_of p = None \<or> client_of p = client_of (sy_phase s i)"
    and "server_admitted (sy_admitted s) (sy_server s')"
  shows "admission_inv s'"
  using assms unfolding admission_inv_def by (auto split: if_splits)

lemma admission_same:
  assumes "admission_inv s" and "sy_phase s' = sy_phase s" and "sy_admitted s' = sy_admitted s"
    and "server_admitted (sy_admitted s) (sy_server s')"
  shows "admission_inv s'"
  using assms unfolding admission_inv_def by auto

lemma admission_first:
  assumes "admission_inv s" and "sy_phase s i = CAwaiting ip"
  shows "admission_inv (first cx i ip msgs timely ev s)"
proof (cases "if timely then fst (next_text_frame msgs) else None")
  case None
  then show ?thesis
    using assms by (auto simp: first_def admission_inv_def)
next
  case (Some raw)
  show ?thesis
  proof (cases "handle_first_frame cx ev ip raw (sy_server s)")
    case (Ret x)
    obtain res ms sv where x: "x = (res, ms, sv)" by (cases x)
    have "server_admitted (sy_admitted s) sv"
      using first_frame_shared [OF Ret [unfolded x]] assms(1)
      by (auto simp: admission_inv_def server_admitted_def)
    with assms Some Ret x show ?thesis
      by (cases res) (auto simp: first_def admission_inv_def server_admitted_mono split: if_splits)
  qed (use assms Some in \<open>auto simp: first_def admission_inv_def\<close>)
qed

lemma admission_register:
  assumes "admission_inv s" and "sy_phase s i = CVerified v"
  shows "admission_inv (register_conn i v s)"
proof -
  have adm: "(i, v) \<in> set (sy_admitted s)" and old: "server_admitted (sy_admitted s) (sy_server s)"
    using assms by (auto simp: admission_inv_def)
  have "entry_ids (fst (registry_insert (vc_token_id v) (vc_client_id v) (vc_machine v) i r))
      \<subseteq> insert (vc_token_id v, vc_client_id v, i) (entry_ids r)" for r
    using entry_ids_reg_step [of "RegInsert (vc_token_id v) (vc_client_id v) (vc_machine v) i" r] by simp
  with adm old have "server_admitted (sy_admitted s) (sy_server (register_conn i v s))"
    by (auto simp: register_conn_def intro: server_admitted_insert)
  with assms(2) show ?thesis
    using admission_upd [OF assms(1), of "register_conn i v s" i "CRegistered v"]
    by (simp add: register_conn_def)
qed

lemma admission_incoming:
  assumes "admission_inv s" and "sy_phase s i = CSession v"
  shows "admission_inv (incoming_step cx i v m ev s)"
proof -
  have adm: "(i, v) \<in> set (sy_admitted s)" and old: "server_admitted (sy_admitted s) (sy_server s)"
    using assms by (auto simp: admission_inv_def)
  show ?thesis
  proof (cases m)
    case (InText raw)
    obtain keep ms fx sv where
      f: "handle_frame cx ev raw (vc_token_id v) (vc_client_id v) (sy_server s) = Ret (keep, ms, fx, sv)"
      using handle_frame_Ret by blast
    have "server_admitted (sy_admitted s) sv"
      using server_admitted_stays [OF old adm handle_frame_stays [OF f]] .
    with assms(2) f InText show ?thesis
      using admission_upd [OF assms(1), of "incoming_step cx i v m ev s" i
          "if keep then CSession v else CClosing v False"]
      by (simp add: incoming_step_def)
  qed (use assms old in \<open>auto simp: incoming_step_def admission_inv_def split: exec.splits if_splits\<close>)
qed

lemma admission_step:
  assumes "sys_step cx x s = Some s'" and inv: "admission_inv s"
  shows "admission_inv s'"
proof (cases x)
  case (SFirst i msgs timely ev)
  with assms show ?thesis by (auto split: conn_phase.splits intro: admission_first)
next
  case (SRegister i)
  with assms show ?thesis by (auto split: conn_phase.splits intro: admission_register)
next
  case (SIncoming i m ev)
  with assms show ?thesis by (auto split: conn_phase.splits intro: admission_incoming)
next
  case (SControl y)
  moreover have "inserted y = {}" if "control_op y" using that by (cases y) simp_all
  ultimately show ?thesis
    using assms entry_ids_reg_step [of y "sv_registry (sy_server s)"]
    by (auto simp: admission_inv_def split: if_splits intro!: server_admitted_registry)
next
  case (SRemove i)
  moreover have "entry_ids (fst (snd (registry_remove t r))) \<subseteq> entry_ids r" for t r
    using entry_ids_reg_step [of "RegRemove t" r] by simp
  ultimately show ?thesis
    using assms by (auto simp: sys_defs admission_inv_def server_admitted_registry
        split: conn_phase.splits if_splits)
next
  case (SPrune now)
  with assms show ?thesis
    by (auto simp: roster_prune_tick_def admission_inv_def row_owners_kept(4) server_admitted_roster)
next
  case (SGone t)
  with assms show ?thesis
    by (auto simp: admission_inv_def row_owners_kept server_admitted_roster)
next
  case (SMarkGone i)
  with assms show ?thesis
    by (auto simp: sys_defs admission_inv_def row_owners_kept split: conn_phase.splits if_splits
        intro!: server_admitted_roster)
qed (use assms in \<open>auto simp: sys_defs admission_inv_def server_admitted_def
       split: conn_phase.splits if_splits prod.splits exec.splits list.splits\<close>)

subsection \<open>Runs\<close>

lemma sys_run_append: "sys_run cx (xs @ ys) s = Option.bind (sys_run cx xs s) (sys_run cx ys)"
proof (induction xs arbitrary: s)
  case (Cons x xs)
  then show ?case by (cases "sys_step cx x s") simp_all
qed simp

lemma sys_run_reachable: "sys_run cx xs s0 = Some s \<Longrightarrow> sys_reachable cx s0 s"
proof (induction xs arbitrary: s rule: rev_induct)
  case (snoc x xs)
  then show ?case
    by (auto simp: sys_run_append bind_eq_Some_conv intro: sys_reachable.step)
qed (auto intro: sys_reachable.initial)

interpretation admission: system_invariant cx admission_inv for cx
  by (unfold_locales, simp add: sys_init_def admission_inv_def server_admitted_def entry_ids_def row_owners_def
      registry_new_def roster_new_def, rule admission_step)

text \<open>
  Connection \<open>i\<close> logged in as \<open>v\<close> during the run: its first frame was an \<open>auth\<close> whose credential the
  token store, as it was at that moment, verified for \<open>v\<close>.
\<close>

definition logged_in :: "conn_ctx \<Rightarrow> system \<Rightarrow> sys_op list \<Rightarrow> nat \<Rightarrow> verified_client \<Rightarrow> bool" where
  "logged_in cx s0 xs i v \<longleftrightarrow>
     (\<exists>pre msgs ev post s raw e c store.
        xs = pre @ SFirst i msgs True ev # post \<and> sys_run cx pre s0 = Some s \<and>
        fst (next_text_frame msgs) = Some raw \<and> decode (cx_json cx) raw = Inr e \<and>
        env_body e = BAuth \<lparr>auth_credential = JString c\<rparr> \<and>
        verify_credential (cx_tokens cx) (ce_token ev) (env_from e) c (sv_store (sy_server s)) =
          (Ret v, store))"

lemma logged_in_append: "logged_in cx s0 xs i v \<Longrightarrow> logged_in cx s0 (xs @ ys) i v"
  unfolding logged_in_def by (metis append.assoc append_Cons)

lemma first_frame_authed:
  assumes "handle_first_frame cx ev ip raw sv = Ret (FirstAuthed v, ms, sv')"
  shows "\<exists>e c. decode (cx_json cx) raw = Inr e \<and> env_body e = BAuth \<lparr>auth_credential = JString c\<rparr> \<and>
           verify_credential (cx_tokens cx) (ce_token ev) (env_from e) c (sv_store sv) = (Ret v, sv_store sv')"
proof -
  have as: "as_str j = Some c \<longleftrightarrow> j = JString c" for j c by (cases j) auto
  show ?thesis
    using assms
    by (auto simp: handle_first_frame_def handle_join_def reject_first_def conn_encode_def as
        split: sum.splits body.splits exec.splits option.splits prod.splits)
       (metis (full_types) auth_body.surjective old.unit.exhaust)
qed

lemma admitted_step:
  assumes "sys_step cx x s = Some s'" and "(i, v) \<in> set (sy_admitted s')" and "(i, v) \<notin> set (sy_admitted s)"
  shows "\<exists>msgs ev raw e c store. x = SFirst i msgs True ev \<and>
           fst (next_text_frame msgs) = Some raw \<and> decode (cx_json cx) raw = Inr e \<and>
           env_body e = BAuth \<lparr>auth_credential = JString c\<rparr> \<and>
           verify_credential (cx_tokens cx) (ce_token ev) (env_from e) c (sv_store (sy_server s)) =
             (Ret v, store)"
proof (cases x)
  case (SFirst k msgs timely ev)
  from assms(1) obtain ip where ph: "sy_phase s k = CAwaiting ip" and s': "s' = first cx k ip msgs timely ev s"
    using SFirst by (auto split: conn_phase.splits)
  from s' assms(2,3) obtain raw ms sv where t: "timely" "fst (next_text_frame msgs) = Some raw" "k = i"
      and f: "handle_first_frame cx ev ip raw (sy_server s) = Ret (FirstAuthed v, ms, sv)"
    by (auto simp: first_def split: if_splits option.splits exec.splits first_result.splits)
  from first_frame_authed [OF f] SFirst t show ?thesis by auto
qed (use assms in \<open>auto simp: sys_defs split: conn_phase.splits if_splits prod.splits exec.splits
       list.splits incoming.splits\<close>)

lemma admitted_logged_in:
  assumes "sys_run cx xs (sys_init cx cfg store log) = Some s" and "(i, v) \<in> set (sy_admitted s)"
  shows "logged_in cx (sys_init cx cfg store log) xs i v"
  using assms
proof (induction xs arbitrary: s rule: rev_induct)
  case Nil
  then show ?case by (auto simp: sys_init_def)
next
  case (snoc x xs)
  then obtain s1 where s1: "sys_run cx xs (sys_init cx cfg store log) = Some s1" "sys_step cx x s1 = Some s"
    by (auto simp: sys_run_append bind_eq_Some_conv)
  show ?case
  proof (cases "(i, v) \<in> set (sy_admitted s1)")
    case True
    with snoc.IH [OF s1(1)] show ?thesis by (simp add: logged_in_append)
  next
    case False
    with admitted_step [OF s1(2) snoc.prems(2)] s1(1) show ?thesis
      unfolding logged_in_def by (metis append_Cons)
  qed
qed

lemma apply_drops: "fold apply_effect (map DropWaiter ws) s = s"
  by (induction ws) simp_all

subsection \<open>What an authenticated socket is sent first\<close>

definition greeted :: "conn_ctx \<Rightarrow> out_message list \<Rightarrow> bool" where
  "greeted cx ms \<longleftrightarrow>
     (\<exists>i ts m rest. ms = m # rest \<and> conn_encode cx (server_hello i ts (cx_hostname cx)) = Ret m)"

fun greeting_ok :: "conn_ctx \<Rightarrow> conn_phase \<Rightarrow> out_message list \<Rightarrow> bool" where
  "greeting_ok cx CDone ms = True"
| "greeting_ok cx (CSession v) ms = greeted cx ms"
| "greeting_ok cx (CClosing v c) ms = (ms = [] \<or> greeted cx ms)"
| "greeting_ok cx (CRemoved v c) ms = (ms = [] \<or> greeted cx ms)"
| "greeting_ok cx p ms = (ms = [])"

definition greeting_inv :: "conn_ctx \<Rightarrow> system \<Rightarrow> bool" where
  "greeting_inv cx s \<longleftrightarrow> (\<forall>i. greeting_ok cx (sy_phase s i) (sy_sent s i))"

lemma greeted_append: "greeted cx ms \<Longrightarrow> greeted cx (ms @ ms')"
  unfolding greeted_def by force

lemma greeted_hello: "conn_encode cx (server_hello i ts (cx_hostname cx)) = Ret m \<Longrightarrow> greeted cx [m]"
  by (auto simp: greeted_def)

lemma greeting_at: "greeting_inv cx s \<Longrightarrow> greeting_ok cx (sy_phase s i) (sy_sent s i)"
  by (simp add: greeting_inv_def)

lemma first_authed_silent:
  "handle_first_frame cx ev ip raw sv = Ret (FirstAuthed v, ms, sv') \<Longrightarrow> ms = []"
  by (auto simp: handle_first_frame_def handle_join_def reject_first_def conn_encode_def
      split: sum.splits body.splits exec.splits option.splits prod.splits)

lemma greeting_step:
  assumes "sys_step cx x s = Some s'" and inv: "greeting_inv cx s"
  shows "greeting_inv cx s'"
proof -
  note all = greeting_at [OF inv]
  show ?thesis
  proof (cases x)
    case (SAccept i ip)
    with assms(1) all [of i] show ?thesis
      by (auto simp: sys_defs greeting_inv_def intro: all split: conn_phase.splits if_splits)
  next
    case (SStart i ok ev)
    with assms(1) all [of i] show ?thesis
      by (auto simp: sys_defs greeting_inv_def intro: all split: conn_phase.splits if_splits prod.splits)
  next
    case (SFirst i msgs timely ev)
    with assms(1) all [of i] show ?thesis
      by (auto simp: sys_defs greeting_inv_def intro: all split: conn_phase.splits if_splits option.splits
          exec.splits first_result.splits dest!: first_authed_silent)
  next
    case (SRegister i)
    with assms(1) all [of i] show ?thesis
      by (auto simp: sys_defs greeting_inv_def intro: all split: conn_phase.splits)
  next
    case (SHello i ok ev)
    with assms(1) all [of i] show ?thesis
      by (auto simp: sys_defs greeting_inv_def intro: all split: conn_phase.splits if_splits exec.splits
          intro: greeted_hello)
  next
    case (SIncoming i m ev)
    show ?thesis
    proof (cases "m = InPong")
      case True
      with SIncoming assms show ?thesis by (auto simp: incoming_step_def split: conn_phase.splits)
    next
      case False
      with SIncoming assms(1) all [of i] show ?thesis
        by (auto simp: sys_defs greeting_inv_def greeted_append intro: all split: conn_phase.splits
            if_splits incoming.splits exec.splits prod.splits)
    qed
  next
    case (SOutgoing i ok)
    with assms(1) all [of i] show ?thesis
      by (auto simp: sys_defs greeting_inv_def greeted_append intro: all split: conn_phase.splits if_splits
          list.splits exec.splits)
  next
    case (SRemove i)
    with assms(1) all [of i] show ?thesis
      by (auto simp: sys_defs greeting_inv_def intro: all split: conn_phase.splits)
  next
    case (SMarkGone i)
    with assms(1) all [of i] show ?thesis
      by (cases "sy_phase s i") (auto simp: sys_defs greeting_inv_def intro: all split: if_splits)
  qed (use assms all in \<open>auto simp: roster_prune_tick_def greeting_inv_def split: if_splits\<close>)
qed

interpretation greeting: system_invariant cx "greeting_inv cx" for cx
  by (unfold_locales, simp add: sys_init_def greeting_inv_def, rule greeting_step)

section \<open>Properties\<close>

text \<open>
  C1: only verified clients are ever routable.  In every run of the server from its start, whatever
  the interleaving, a connection in the registry belongs to a connection task whose first frame was
  an \<open>auth\<close> that the token store verified for exactly that token and client, and its frames go to
  that task's own channel; and every roster row names a token and client that logged in that way.
\<close>

theorem server_admits_only_verified:
  assumes "sys_run cx xs (sys_init cx cfg store log) = Some s"
  shows "(\<forall>t e. hm_get (rg_entries (sv_registry (sy_server s))) t = Some e \<longrightarrow>
            (\<exists>v. logged_in cx (sys_init cx cfg store log) xs (en_out e) v \<and>
                 vc_token_id v = t \<and> vc_client_id v = en_client_id e)) \<and>
         (\<forall>name row. hm_get (ro_entries (sv_roster (sy_server s))) name = Some row \<longrightarrow>
            (\<exists>i v. logged_in cx (sys_init cx cfg store log) xs i v \<and>
                   vc_token_id v = re_token_id row \<and> vc_client_id v = re_client_id row))"
proof -
  have adm: "server_admitted (sy_admitted s) (sy_server s)"
    using admission.always [OF sys_run_reachable [OF assms]] by (simp add: admission_inv_def)
  note log = admitted_logged_in [OF assms]
  have "(re_token_id row, re_client_id row) \<in> row_owners (sv_roster (sy_server s))"
    if "hm_get (ro_entries (sv_roster (sy_server s))) name = Some row" for name row
    using hm_get_SomeD [OF that] by (force simp: row_owners_def)
  with adm log show ?thesis
    unfolding server_admitted_def by (meson entry_ids_get)
qed

text \<open>
  C19: the unauthenticated-connection cap holds.  In every reachable state, at most
  \<open>max_unauth_connections\<close> connections are between being accepted and having authenticated, however
  connections fail, time out, join, log in or are refused: no permit leaks and none is minted.
\<close>

theorem server_unauth_cap:
  assumes "sys_reachable cx (sys_init cx cfg store log) s"
  shows "finite {i. holds_permit (sy_phase s i)} \<and>
         card {i. holds_permit (sy_phase s i)} \<le> cl_max_unauth_connections (cx_limits cx)"
  using permits.always [OF assms] by (auto simp: permits_inv_def)

text \<open>
  C29: nothing is said before hello.  In every reachable state the first message on the socket of a
  running session is the server's \<open>hello\<close>, and the sockets of connections that have not finished
  authenticating have been sent nothing at all.
\<close>

theorem server_hello_comes_first:
  assumes "sys_reachable cx (sys_init cx cfg store log) s"
  shows "case sy_phase s i of
           CSession v \<Rightarrow> \<exists>hid ts m rest. sy_sent s i = m # rest \<and>
             conn_encode cx (server_hello hid ts (cx_hostname cx)) = Ret m
         | CStarted ip \<Rightarrow> sy_sent s i = []
         | CAwaiting ip \<Rightarrow> sy_sent s i = []
         | CVerified v \<Rightarrow> sy_sent s i = []
         | CRegistered v \<Rightarrow> sy_sent s i = []
         | _ \<Rightarrow> True"
  using greeting_at [OF greeting.always [OF assms], of i]
  by (auto simp: greeted_def split: conn_phase.splits)

text \<open>
  How a session ends.  A running session moves to teardown with a certain close exactly when a
  close frame or the end of the stream is read; a frame that does not decode, a binary message, a
  read error, a failed write or a dropped channel end it without certainty.  Teardown removes the
  token's registry entry, and marks its roster rows gone only after a certain close.
\<close>

lemma server_session_end:
  assumes "sy_phase s i = CSession v"
  shows "(sy_phase (incoming_step cx i v m ev s) i = CClosing v True \<longleftrightarrow> m = InClose \<or> m = InEof) \<and>
         (sy_phase (incoming_step cx i v m ev s) i = CClosing v False \<longleftrightarrow>
            m \<in> {InError, InBinary, InFrame} \<or>
            (\<exists>raw err. m = InText raw \<and> decode (cx_json cx) raw = Inl err)) \<and>
         hm_get (rg_entries (sv_registry (sy_server (remove_conn i v certain s)))) (vc_token_id v) = None \<and>
         sv_roster (sy_server (finish_conn i v certain s)) =
           (if certain then mark_gone (vc_token_id v) (sv_roster (sy_server s)) else sv_roster (sy_server s))"
proof -
  obtain b where b: "conn_encode cx binary_notice = Ret b"
    using conn_encode_wf [OF error_with_message_wf] unfolding binary_notice_def by blast
  have "sy_phase (incoming_step cx i v m ev s) i =
      (case m of InText raw \<Rightarrow> (case decode (cx_json cx) raw of Inl _ \<Rightarrow> CClosing v False | Inr _ \<Rightarrow> CSession v)
       | InPing p \<Rightarrow> CSession v | InPong \<Rightarrow> CSession v | InClose \<Rightarrow> CClosing v True | InEof \<Rightarrow> CClosing v True
       | _ \<Rightarrow> CClosing v False)"
  proof (cases m)
    case (InText raw)
    show ?thesis
      by (cases rule: handle_frame_cases [of cx raw ev "vc_token_id v" "vc_client_id v" "sy_server s"])
         (simp_all add: incoming_step_def InText)
  qed (use assms b in \<open>simp_all add: incoming_step_def\<close>)
  moreover have "hm_get (rg_entries (sv_registry (sy_server (remove_conn i v certain s)))) (vc_token_id v) = None"
    by (auto simp: remove_conn_def registry_remove_def hm_simps split: option.splits)
  ultimately show ?thesis
    by (auto simp: finish_conn_def split: incoming.splits sum.splits)
qed

text \<open>
  C24: reconnecting closes both connections.  When a second connection logs in with the token of a
  live session, the first is told it was superseded and closes, as intended; but its teardown then
  removes the registry entry by token, which by now is the second connection's, and so drops the
  second connection's channel: the new session ends as well, and the token is left unregistered.
\<close>

theorem superseded_teardown_evicts_successor:
  assumes "sy_phase s i = CSession v" and "sy_phase s j = CVerified w" and "vc_token_id w = vc_token_id v"
    and "hm_get (rg_entries (sv_registry (sy_server s))) (vc_token_id v) = Some e" and "en_out e = i"
    and "sy_queue s i = []"
  shows "\<exists>s'. sys_run cx [SRegister j, SHello j True ev, SOutgoing i True, SOutgoing i True, SRemove i,
                SOutgoing j True] s = Some s' \<and>
              sy_phase s' i = CRemoved v False \<and> sy_phase s' j = CClosing w False \<and>
              hm_get (rg_entries (sv_registry (sy_server s'))) (vc_token_id v) = None"
proof -
  have ij: "i \<noteq> j" using assms(1,2) by auto
  obtain m where m: "conn_encode cx (server_hello (ce_id ev) (ce_ts ev) (cx_hostname cx)) = Ret m"
    using hello_encodes by blast
  obtain n where n: "conn_encode cx (error_with_message CODE_SESSION_SUPERSEDED
      ''a new connection authenticated for this token; closing'' [] ''server'') = Ret n"
    using conn_encode_wf [OF error_with_message_wf] by blast
  show ?thesis
    using assms ij m n
    by (simp add: sys_defs on_sys_registry_def on_registry_def registry_insert_def registry_remove_def
        hm_simps drop_entry_def apply_effects_def apply_drops)
qed

section \<open>A concrete run\<close>

definition demo_auth :: envelope where
  "demo_auth = \<lparr>env_v = 1, env_msg_type = TAuth, env_id = ''1'', env_ts = ''t'', env_from = ''tok_a'',
     env_body = BAuth \<lparr>auth_credential = JString ''c''\<rparr>\<rparr>"

definition demo_cx :: conn_ctx where
  "demo_cx = demo_ctx (demo_lib (the (envelope_json demo_auth)))"

definition demo_client :: verified_client where
  "demo_client = \<lparr>vc_token_id = ''tok_a'', vc_client_id = ''cli_a'', vc_machine = ''box''\<rparr>"

definition demo_bound :: token_record where
  "demo_bound = demo_token SBound
     \<lparr>tr_credential_hash := Some (hash_secret demo_token_lib (as_bytes ''pepper'') ''c''),
      tr_client_id := Some ''cli_a'', tr_machine := Some ''box''\<rparr>"

definition demo_bound_store :: token_store where
  "demo_bound_store = \<lparr>ts_file = Some (enc_records [demo_bound])\<rparr>"

definition demo_init :: system where
  "demo_init = sys_init demo_cx demo_config demo_bound_store (talk_log_new (\<lambda>_. None))"

text \<open>One client logs in; a second connection then logs in with the same token.\<close>

definition demo_login :: "nat \<Rightarrow> sys_op list" where
  "demo_login i = [SStore demo_bound_store, SAccept i ''127.0.0.1'', SStart i True demo_env,
     SFirst i [InText ''frame''] True demo_env]"

definition demo_ops :: "sys_op list" where
  "demo_ops = demo_login 0 @ [SRegister 0, SHello 0 True demo_env] @ demo_login 1"

lemma demo_auth_decodes: "decode (cx_json demo_cx) ''frame'' = Inr demo_auth"
proof -
  have "envelope_wf demo_auth" by (simp add: envelope_wf_def demo_auth_def)
  from encode_decode [OF this, of "cx_json demo_cx"] show ?thesis
    by (simp add: demo_cx_def demo_ctx_def demo_lib_def encode_def)
qed

lemma demo_bound_contents: "contents demo_token_lib demo_bound_store = Some [demo_bound]"
  using contents_saved [OF demo_reads_back, of "[demo_bound]" "enc_records [demo_bound]" demo_bound_store]
  by (simp add: demo_bound_store_def demo_token_lib_def)

lemma demo_bound_found: "find_token ''tok_a'' [demo_bound] = Some demo_bound"
  by (simp add: find_token_def demo_bound_def demo_token_def)

lemma demo_verifies:
  "\<exists>st. verify_credential demo_token_lib (demo_call 5) ''tok_a'' ''c'' demo_bound_store = (Ret demo_client, st)"
  using verify_healthy [OF demo_prints demo_healthy demo_bound_contents demo_bound_found, of "''c''" 5]
  by (simp add: demo_bound_def demo_token_def unwrap_or_def demo_client_def)

lemma demo_first:
  assumes "sv_store sv = demo_bound_store"
  shows "\<exists>st. handle_first_frame demo_cx demo_env ip ''frame'' sv = Ret (FirstAuthed demo_client, [], sv\<lparr>sv_store := st\<rparr>)"
proof -
  have "cx_tokens demo_cx = demo_token_lib" by (simp add: demo_cx_def demo_ctx_def)
  with assms demo_verifies show ?thesis
    by (auto simp: handle_first_frame_def demo_auth_decodes demo_auth_def demo_env_def)
qed

lemma demo_logs_in:
  assumes "sy_phase s i = CIdle" and "0 < sy_free s" and "by_ip (sv_lockout (sy_server s)) = []"
  shows "\<exists>st. sys_run demo_cx (demo_login i) s =
           Some (s\<lparr>sy_server := (sy_server s)\<lparr>sv_store := st\<rparr>,
                   sy_phase := (sy_phase s)(i := CVerified demo_client),
                   sy_admitted := (i, demo_client) # sy_admitted s\<rparr>)"
proof -
  obtain st where "handle_first_frame demo_cx demo_env ''127.0.0.1'' ''frame''
      ((sy_server s)\<lparr>sv_store := demo_bound_store\<rparr>) =
      Ret (FirstAuthed demo_client, [], (sy_server s)\<lparr>sv_store := st\<rparr>)"
    using demo_first [of "(sy_server s)\<lparr>sv_store := demo_bound_store\<rparr>"] by auto
  then have "sys_run demo_cx (demo_login i) s =
      Some (s\<lparr>sy_server := (sy_server s)\<lparr>sv_store := st\<rparr>,
              sy_phase := (sy_phase s)(i := CVerified demo_client),
              sy_admitted := (i, demo_client) # sy_admitted s\<rparr>)"
    using assms
    by (simp add: demo_login_def accept_def start_def is_locked_out_def hm_get_def first_def Let_def
        release_def set_phase_def set_server_def send_out_def fun_upd_idem)
  then show ?thesis by blast
qed

lemma demo_run:
  "\<exists>s e. sys_run demo_cx demo_ops demo_init = Some s \<and> sy_phase s 0 = CSession demo_client \<and>
     sy_phase s 1 = CVerified demo_client \<and> sy_queue s 0 = [] \<and>
     hm_get (rg_entries (sv_registry (sy_server s))) ''tok_a'' = Some e \<and> en_out e = 0"
proof -
  obtain m where m: "conn_encode demo_cx (server_hello (ce_id demo_env) (ce_ts demo_env) (cx_hostname demo_cx)) = Ret m"
    using hello_encodes by blast
  obtain st where one: "sys_run demo_cx (demo_login 0) demo_init =
      Some (demo_init\<lparr>sy_server := (sy_server demo_init)\<lparr>sv_store := st\<rparr>,
              sy_phase := (sy_phase demo_init)(0 := CVerified demo_client),
              sy_admitted := (0, demo_client) # sy_admitted demo_init\<rparr>)" (is "_ = Some ?s1")
    using demo_logs_in [of demo_init 0]
    by (auto simp: demo_init_def sys_init_def demo_cx_def demo_ctx_def connection_limits_default_def
        lockout_new_def with_params_def)
  let ?s2 = "set_phase 0 (CSession demo_client) (send_out 0 [m] (register_conn 0 demo_client ?s1))"
  have two: "sys_run demo_cx [SRegister 0, SHello 0 True demo_env] ?s1 = Some ?s2"
    using m by (simp add: register_conn_def hello_def)
  obtain st' where three: "sys_run demo_cx (demo_login 1) ?s2 =
      Some (?s2\<lparr>sy_server := (sy_server ?s2)\<lparr>sv_store := st'\<rparr>,
              sy_phase := (sy_phase ?s2)(1 := CVerified demo_client),
              sy_admitted := (1, demo_client) # sy_admitted ?s2\<rparr>)"
    using demo_logs_in [of ?s2 1]
    by (auto simp: register_conn_def demo_init_def sys_init_def demo_cx_def demo_ctx_def
        connection_limits_default_def lockout_new_def with_params_def)
  define s3 where "s3 = ?s2\<lparr>sy_server := (sy_server ?s2)\<lparr>sv_store := st'\<rparr>,
              sy_phase := (sy_phase ?s2)(1 := CVerified demo_client),
              sy_admitted := (1, demo_client) # sy_admitted ?s2\<rparr>"
  have "sys_run demo_cx demo_ops demo_init = Some s3"
    by (simp only: demo_ops_def sys_run_append one two three bind.simps s3_def)
  moreover have "sy_phase s3 0 = CSession demo_client \<and> sy_phase s3 1 = CVerified demo_client \<and> sy_queue s3 0 = [] \<and>
     (\<exists>e. hm_get (rg_entries (sv_registry (sy_server s3))) ''tok_a'' = Some e \<and> en_out e = 0)"
    by (simp add: s3_def register_conn_def on_sys_registry_def on_registry_def registry_insert_def hm_simps
        demo_client_def demo_init_def sys_init_def registry_new_def apply_effects_def hm_get_def put_entry_def hm_insert_def)
  ultimately show ?thesis by blast
qed

theorem server_admits_only_verified_witness:
  "\<exists>s e v. sys_run demo_cx demo_ops demo_init = Some s \<and>
     hm_get (rg_entries (sv_registry (sy_server s))) ''tok_a'' = Some e \<and>
     logged_in demo_cx demo_init demo_ops (en_out e) v \<and> vc_token_id v = ''tok_a''"
proof -
  obtain s e where s: "sys_run demo_cx demo_ops demo_init = Some s"
      "hm_get (rg_entries (sv_registry (sy_server s))) ''tok_a'' = Some e"
    using demo_run by blast
  with server_admits_only_verified [OF s(1) [unfolded demo_init_def]] show ?thesis
    unfolding demo_init_def by blast
qed

theorem server_unauth_cap_witness:
  "\<exists>s. sys_run demo_cx demo_ops demo_init = Some s \<and> card {i. holds_permit (sy_phase s i)} \<le> 75"
proof -
  obtain s where s: "sys_run demo_cx demo_ops demo_init = Some s" using demo_run by blast
  from server_unauth_cap [OF sys_run_reachable [OF s [unfolded demo_init_def]]] s show ?thesis
    by (auto simp: demo_cx_def demo_ctx_def connection_limits_default_def)
qed

theorem server_hello_comes_first_witness:
  "\<exists>s hid ts m rest. sys_run demo_cx demo_ops demo_init = Some s \<and> sy_sent s 0 = m # rest \<and>
     conn_encode demo_cx (server_hello hid ts ''hub'') = Ret m"
proof -
  obtain s where s: "sys_run demo_cx demo_ops demo_init = Some s" "sy_phase s 0 = CSession demo_client"
    using demo_run by blast
  have "cx_hostname demo_cx = ''hub''" by (simp add: demo_cx_def demo_ctx_def)
  with server_hello_comes_first [OF sys_run_reachable [OF s(1) [unfolded demo_init_def]], of 0] s
  show ?thesis by auto
qed

lemma server_session_end_at_work:
  "\<exists>s :: system. sy_phase s 0 = CSession demo_client \<and>
       sy_phase (incoming_step demo_cx 0 demo_client InEof demo_env s) 0 = CClosing demo_client True"
proof -
  obtain s :: system where s: "sy_phase s 0 = CSession demo_client" using demo_run by blast
  from s server_session_end [OF s, of demo_cx InEof demo_env True] show ?thesis by blast
qed

theorem superseded_teardown_evicts_successor_witness:
  "\<exists>s'. sys_run demo_cx (demo_ops @ [SRegister 1, SHello 1 True demo_env, SOutgoing 0 True,
            SOutgoing 0 True, SRemove 0, SOutgoing 1 True]) demo_init = Some s' \<and>
        sy_phase s' 1 = CClosing demo_client False \<and>
        hm_get (rg_entries (sv_registry (sy_server s'))) ''tok_a'' = None"
proof -
  obtain s e where s: "sys_run demo_cx demo_ops demo_init = Some s" "sy_phase s 0 = CSession demo_client"
      "sy_phase s 1 = CVerified demo_client" "sy_queue s 0 = []"
      "hm_get (rg_entries (sv_registry (sy_server s))) ''tok_a'' = Some e" "en_out e = 0"
    using demo_run by blast
  have t: "vc_token_id demo_client = ''tok_a''" by (simp add: demo_client_def)
  from superseded_teardown_evicts_successor [OF s(2,3) refl, of e demo_cx demo_env] s t show ?thesis
    by (auto simp: sys_run_append)
qed

end
