(* ===== verification/Control.thy ===== *)
theory Control
  imports Connection
begin

text \<open>
  The local control channel of \<open>src/src/wire/control.rs\<close>: the documents that cross it, the server's
  handler for each request, and the client side the command line uses.

  \<^item> Requests and replies are the source's enums and structs with their derived JSON shapes; lines of
    text become JSON through the library record \<open>json_lib\<close>.  A line whose object repeats a member
    name is outside the model (the derived parser refuses it, neither side writes one).
  \<^item> The handler is one function on the shared state.  What the registry's async calls meet while
    they wait (other tasks' changes, whether the send succeeded, what was received) and the fresh
    ids, clock readings and file system outcomes are the record \<open>control_env\<close>; the consecutive
    lookups before such a call run together.
  \<^item> What happened on the socket between client and server is the argument \<open>socket_io\<close>.
\<close>

section \<open>Documents\<close>

definition CONTROL_SOCKET_NAME :: string where
  "CONTROL_SOCKET_NAME = ''control.sock''"

definition CLIENT_TIMEOUT :: duration where
  "CLIENT_TIMEOUT = from_secs 5"

definition REPLY_TIMEOUT :: duration where
  "REPLY_TIMEOUT = from_secs 600"

definition control_socket_path :: "string \<Rightarrow> string" where
  "control_socket_path dir =
     dir @ (if dir = [] \<or> last dir = CHR ''/'' then [] else ''/'') @ CONTROL_SOCKET_NAME"

datatype request =
    ReqStatus
  | ReqPing string
  | ReqRoster
  | ReqQuery "string option" string "string list"
  | ReqSay string string
  | ReqInterrupt string
  | ReqAnswer string string
  | ReqRevoke string

record ping_reply =
  pg_connected :: bool
  pg_hostname :: "string option"
  pg_rtt_ms :: "u64 option"

datatype query_reply_doc = QrOk query_ok_body | QrErr error_body | QrNotConnected

datatype say_reply = SyOk string "int option" | SyInterrupted | SyErr error_body

datatype interrupt_reply = IrOk | IrTimedOut | IrDisconnected | IrErr error_body

datatype answer_reply = ArOk | ArTimedOut | ArDisconnected | ArErr error_body

record revoke_reply =
  rv_closed :: bool

record status_doc =
  sd_hostname :: string
  sd_listening :: "string list"
  sd_clients :: u64

record roster_row_doc =
  rd_name :: string
  rd_harness :: string
  rd_client_id :: string
  rd_state :: string
  rd_last_seen_ms :: nat
  rd_mode :: "string option"
  rd_harness_session_id :: "string option"
  rd_blocked :: bool

subsection \<open>Internally tagged enums\<close>

definition tagged_json :: "string \<Rightarrow> string \<Rightarrow> (string \<times> json option) list \<Rightarrow> json" where
  "tagged_json tag variant ms = struct_json ((tag, Some (JString variant)) # ms)"

text \<open>The variant's name and what is left for its fields.\<close>

definition tagged_content :: "string \<Rightarrow> json \<Rightarrow> (string \<times> json) option" where
  "tagged_content tag j =
     (case j of
        JObject kvs \<Rightarrow>
          Option.bind (Option.bind (map_of kvs tag) as_str)
            (\<lambda>n. Some (n, JObject (filter (\<lambda>p. fst p \<noteq> tag) kvs)))
      | JArray (JString n # js) \<Rightarrow> Some (n, JArray js)
      | _ \<Rightarrow> None)"

fun unit_content :: "json \<Rightarrow> unit option" where
  "unit_content (JObject kvs) = Some ()"
| "unit_content (JArray []) = Some ()"
| "unit_content _ = None"

subsection \<open>Requests\<close>

fun request_json :: "request \<Rightarrow> json" where
  "request_json ReqStatus = tagged_json ''cmd'' ''status'' []"
| "request_json (ReqPing t) = tagged_json ''cmd'' ''ping'' [(''token_id'', Some (JString t))]"
| "request_json ReqRoster = tagged_json ''cmd'' ''roster'' []"
| "request_json (ReqQuery target c args) =
     tagged_json ''cmd'' ''query''
       [(''target'', map_option JString target), (''query_cmd'', Some (JString c)),
        (''args'', Some (JArray (map JString args)))]"
| "request_json (ReqSay s t) =
     tagged_json ''cmd'' ''say'' [(''session'', Some (JString s)), (''text'', Some (JString t))]"
| "request_json (ReqInterrupt s) = tagged_json ''cmd'' ''interrupt'' [(''session'', Some (JString s))]"
| "request_json (ReqAnswer s c) =
     tagged_json ''cmd'' ''answer'' [(''session'', Some (JString s)), (''choice'', Some (JString c))]"
| "request_json (ReqRevoke t) = tagged_json ''cmd'' ''revoke'' [(''token_id'', Some (JString t))]"

definition request_variant :: "string \<Rightarrow> json \<Rightarrow> request option" where
  "request_variant variant c =
     (if variant = ''status'' then map_option (\<lambda>_. ReqStatus) (unit_content c)
      else if variant = ''ping'' then
        do { kvs \<leftarrow> struct_members [''token_id''] c;
             t \<leftarrow> required ''token_id'' as_str kvs;
             Some (ReqPing t) }
      else if variant = ''roster'' then map_option (\<lambda>_. ReqRoster) (unit_content c)
      else if variant = ''query'' then
        do { kvs \<leftarrow> struct_members [''target'', ''query_cmd'', ''args''] c;
             target \<leftarrow> optional ''target'' as_str kvs;
             q \<leftarrow> required ''query_cmd'' as_str kvs;
             args \<leftarrow> defaulted [] ''args'' (list_from as_str) kvs;
             Some (ReqQuery target q args) }
      else if variant = ''say'' then
        do { kvs \<leftarrow> struct_members [''session'', ''text''] c;
             s \<leftarrow> required ''session'' as_str kvs;
             t \<leftarrow> required ''text'' as_str kvs;
             Some (ReqSay s t) }
      else if variant = ''interrupt'' then
        do { kvs \<leftarrow> struct_members [''session''] c;
             s \<leftarrow> required ''session'' as_str kvs;
             Some (ReqInterrupt s) }
      else if variant = ''answer'' then
        do { kvs \<leftarrow> struct_members [''session'', ''choice''] c;
             s \<leftarrow> required ''session'' as_str kvs;
             ch \<leftarrow> required ''choice'' as_str kvs;
             Some (ReqAnswer s ch) }
      else if variant = ''revoke'' then
        do { kvs \<leftarrow> struct_members [''token_id''] c;
             t \<leftarrow> required ''token_id'' as_str kvs;
             Some (ReqRevoke t) }
      else None)"

definition request_from :: "json \<Rightarrow> request option" where
  "request_from j = Option.bind (tagged_content ''cmd'' j) (\<lambda>(variant, c). request_variant variant c)"

subsection \<open>Replies\<close>

definition ping_reply_json :: "ping_reply \<Rightarrow> json" where
  "ping_reply_json r =
     struct_json [(''connected'', Some (JBool (pg_connected r))),
       (''hostname'', map_option JString (pg_hostname r)), (''rtt_ms'', map_option JPos (pg_rtt_ms r))]"

definition ping_reply_from :: "json \<Rightarrow> ping_reply option" where
  "ping_reply_from j =
     do { kvs \<leftarrow> struct_members [''connected'', ''hostname'', ''rtt_ms''] j;
          connected \<leftarrow> required ''connected'' as_bool kvs;
          hostname \<leftarrow> optional ''hostname'' as_str kvs;
          rtt_ms \<leftarrow> optional ''rtt_ms'' as_u64 kvs;
          Some \<lparr>pg_connected = connected, pg_hostname = hostname, pg_rtt_ms = rtt_ms\<rparr> }"

text \<open>A query answer prints unless the target's document cannot be flattened.\<close>

fun query_reply_json :: "query_reply_doc \<Rightarrow> json option" where
  "query_reply_json (QrOk b) =
     map_option (\<lambda>j. tagged_json ''outcome'' ''ok'' [(''query_ok'', Some j)]) (query_ok_json b)"
| "query_reply_json (QrErr e) = Some (tagged_json ''outcome'' ''err'' [(''error'', Some (error_json e))])"
| "query_reply_json QrNotConnected = Some (tagged_json ''outcome'' ''not_connected'' [])"

definition query_reply_from :: "json \<Rightarrow> query_reply_doc option" where
  "query_reply_from j =
     do { (variant, c) \<leftarrow> tagged_content ''outcome'' j;
          if variant = ''ok'' then
            do { kvs \<leftarrow> struct_members [''query_ok''] c;
                 b \<leftarrow> required ''query_ok'' query_ok_from kvs;
                 Some (QrOk b) }
          else if variant = ''err'' then
            do { kvs \<leftarrow> struct_members [''error''] c;
                 e \<leftarrow> required ''error'' error_from kvs;
                 Some (QrErr e) }
          else if variant = ''not_connected'' then map_option (\<lambda>_. QrNotConnected) (unit_content c)
          else None }"

fun say_reply_json :: "say_reply \<Rightarrow> json" where
  "say_reply_json (SyOk t x) =
     tagged_json ''outcome'' ''ok'' [(''text'', Some (JString t)), (''exit'', map_option i64_json x)]"
| "say_reply_json SyInterrupted = tagged_json ''outcome'' ''interrupted'' []"
| "say_reply_json (SyErr e) = tagged_json ''outcome'' ''err'' [(''error'', Some (error_json e))]"

definition say_reply_from :: "json \<Rightarrow> say_reply option" where
  "say_reply_from j =
     do { (variant, c) \<leftarrow> tagged_content ''outcome'' j;
          if variant = ''ok'' then
            do { kvs \<leftarrow> struct_members [''text'', ''exit''] c;
                 t \<leftarrow> required ''text'' as_str kvs;
                 x \<leftarrow> optional ''exit'' i64_from kvs;
                 Some (SyOk t x) }
          else if variant = ''interrupted'' then map_option (\<lambda>_. SyInterrupted) (unit_content c)
          else if variant = ''err'' then
            do { kvs \<leftarrow> struct_members [''error''] c;
                 e \<leftarrow> required ''error'' error_from kvs;
                 Some (SyErr e) }
          else None }"

fun interrupt_reply_json :: "interrupt_reply \<Rightarrow> json" where
  "interrupt_reply_json IrOk = tagged_json ''outcome'' ''ok'' []"
| "interrupt_reply_json IrTimedOut = tagged_json ''outcome'' ''timed_out'' []"
| "interrupt_reply_json IrDisconnected = tagged_json ''outcome'' ''disconnected'' []"
| "interrupt_reply_json (IrErr e) = tagged_json ''outcome'' ''err'' [(''error'', Some (error_json e))]"

definition interrupt_reply_from :: "json \<Rightarrow> interrupt_reply option" where
  "interrupt_reply_from j =
     do { (variant, c) \<leftarrow> tagged_content ''outcome'' j;
          if variant = ''ok'' then map_option (\<lambda>_. IrOk) (unit_content c)
          else if variant = ''timed_out'' then map_option (\<lambda>_. IrTimedOut) (unit_content c)
          else if variant = ''disconnected'' then map_option (\<lambda>_. IrDisconnected) (unit_content c)
          else if variant = ''err'' then
            do { kvs \<leftarrow> struct_members [''error''] c;
                 e \<leftarrow> required ''error'' error_from kvs;
                 Some (IrErr e) }
          else None }"

fun answer_reply_json :: "answer_reply \<Rightarrow> json" where
  "answer_reply_json ArOk = tagged_json ''outcome'' ''ok'' []"
| "answer_reply_json ArTimedOut = tagged_json ''outcome'' ''timed_out'' []"
| "answer_reply_json ArDisconnected = tagged_json ''outcome'' ''disconnected'' []"
| "answer_reply_json (ArErr e) = tagged_json ''outcome'' ''err'' [(''error'', Some (error_json e))]"

definition answer_reply_from :: "json \<Rightarrow> answer_reply option" where
  "answer_reply_from j =
     do { (variant, c) \<leftarrow> tagged_content ''outcome'' j;
          if variant = ''ok'' then map_option (\<lambda>_. ArOk) (unit_content c)
          else if variant = ''timed_out'' then map_option (\<lambda>_. ArTimedOut) (unit_content c)
          else if variant = ''disconnected'' then map_option (\<lambda>_. ArDisconnected) (unit_content c)
          else if variant = ''err'' then
            do { kvs \<leftarrow> struct_members [''error''] c;
                 e \<leftarrow> required ''error'' error_from kvs;
                 Some (ArErr e) }
          else None }"

definition revoke_reply_json :: "revoke_reply \<Rightarrow> json" where
  "revoke_reply_json r = struct_json [(''closed'', Some (JBool (rv_closed r)))]"

definition revoke_reply_from :: "json \<Rightarrow> revoke_reply option" where
  "revoke_reply_from j =
     do { kvs \<leftarrow> struct_members [''closed''] j;
          closed \<leftarrow> required ''closed'' as_bool kvs;
          Some \<lparr>rv_closed = closed\<rparr> }"

definition status_doc_json :: "status_doc \<Rightarrow> json" where
  "status_doc_json d =
     struct_json [(''hostname'', Some (JString (sd_hostname d))),
       (''listening'', Some (JArray (map JString (sd_listening d)))), (''clients'', Some (JPos (sd_clients d)))]"

definition status_doc_from :: "json \<Rightarrow> status_doc option" where
  "status_doc_from j =
     do { kvs \<leftarrow> struct_members [''hostname'', ''listening'', ''clients''] j;
          hostname \<leftarrow> required ''hostname'' as_str kvs;
          listening \<leftarrow> required ''listening'' (list_from as_str) kvs;
          clients \<leftarrow> required ''clients'' as_u64 kvs;
          Some \<lparr>sd_hostname = hostname, sd_listening = listening, sd_clients = clients\<rparr> }"

text \<open>\<open>last_seen_ms\<close> is a \<open>u128\<close>; ages of \<open>2^64\<close> milliseconds and more do not occur.\<close>

definition roster_row_doc_json :: "roster_row_doc \<Rightarrow> json" where
  "roster_row_doc_json r =
     struct_json [(''name'', Some (JString (rd_name r))), (''harness'', Some (JString (rd_harness r))),
       (''client_id'', Some (JString (rd_client_id r))), (''state'', Some (JString (rd_state r))),
       (''last_seen_ms'', Some (JPos (of_nat (rd_last_seen_ms r)))),
       (''mode'', map_option JString (rd_mode r)),
       (''harness_session_id'', map_option JString (rd_harness_session_id r)),
       (''blocked'', Some (JBool (rd_blocked r)))]"

definition roster_row_doc_from :: "json \<Rightarrow> roster_row_doc option" where
  "roster_row_doc_from j =
     do { kvs \<leftarrow> struct_members [''name'', ''harness'', ''client_id'', ''state'', ''last_seen_ms'', ''mode'',
                                 ''harness_session_id'', ''blocked''] j;
          name \<leftarrow> required ''name'' as_str kvs;
          harness \<leftarrow> required ''harness'' as_str kvs;
          client_id \<leftarrow> required ''client_id'' as_str kvs;
          state \<leftarrow> required ''state'' as_str kvs;
          last_seen_ms \<leftarrow> required ''last_seen_ms'' as_u64 kvs;
          mode \<leftarrow> optional ''mode'' as_str kvs;
          harness_session_id \<leftarrow> optional ''harness_session_id'' as_str kvs;
          blocked \<leftarrow> required ''blocked'' as_bool kvs;
          Some \<lparr>rd_name = name, rd_harness = harness, rd_client_id = client_id, rd_state = state,
                rd_last_seen_ms = unat last_seen_ms, rd_mode = mode,
                rd_harness_session_id = harness_session_id, rd_blocked = blocked\<rparr> }"

section \<open>Server side\<close>

subsection \<open>Binding\<close>

datatype bind_error = AlreadyRunning string | BindIo string

text \<open>
  What the file system says: whether the path exists, whether a process answers there, and the
  results of binding and of setting the mode.  The result tells whether the old file was removed and
  whether the socket was bound (and its file left behind when only setting the mode failed).
\<close>

record bind_probe =
  bp_exists :: bool
  bp_live :: bool
  bp_bind :: "string option"
  bp_chmod :: "string option"

definition bind_control_socket :: "string \<Rightarrow> bind_probe \<Rightarrow> bool \<times> bool \<times> (bind_error + unit)" where
  "bind_control_socket dir p =
     (if bp_exists p \<and> bp_live p then (False, False, Inl (AlreadyRunning (control_socket_path dir)))
      else
        (bp_exists p,
         case bp_bind p of
           Some e \<Rightarrow> (False, Inl (BindIo e))
         | None \<Rightarrow> (True, case bp_chmod p of Some e \<Rightarrow> Inl (BindIo e) | None \<Rightarrow> Inr ())))"

subsection \<open>Requests\<close>

datatype response =
    RespStatus status_doc
  | RespPing ping_reply
  | RespRoster "roster_row_doc list"
  | RespQuery query_reply_doc
  | RespSay say_reply
  | RespInterrupt interrupt_reply
  | RespAnswer answer_reply
  | RespRevoke revoke_reply

fun response_json :: "response \<Rightarrow> json option" where
  "response_json (RespStatus d) = Some (status_doc_json d)"
| "response_json (RespPing r) = Some (ping_reply_json r)"
| "response_json (RespRoster rs) = Some (JArray (map roster_row_doc_json rs))"
| "response_json (RespQuery r) = query_reply_json r"
| "response_json (RespSay r) = Some (say_reply_json r)"
| "response_json (RespInterrupt r) = Some (interrupt_reply_json r)"
| "response_json (RespAnswer r) = Some (answer_reply_json r)"
| "response_json (RespRevoke r) = Some (revoke_reply_json r)"

text \<open>
  What a request meets outside its own lock sections.  Other tasks run whenever the request holds no
  lock: \<open>cv_before\<close> is what they did to the server before the line was read, \<open>cv_other1\<close> to \<open>cv_other3\<close>
  what they did to the registry between the sections of a registry call, \<open>cv_rest\<close> what they did to
  everything else meanwhile, and \<open>cv_between\<close> what they did between the two sections of a revoke.
\<close>

record control_env =
  cv_now :: instant
  cv_ts :: string
  cv_id :: string
  cv_waiter :: waiter
  cv_send_ok :: bool
  cv_other1 :: "registry \<Rightarrow> registry"
  cv_other2 :: "registry \<Rightarrow> registry"
  cv_other3 :: "registry \<Rightarrow> registry"
  cv_rest :: "server \<Rightarrow> server"
  cv_between :: "server \<Rightarrow> server"
  cv_before :: "server \<Rightarrow> server"
  cv_ping :: "duration wait_result"
  cv_query :: "pending_query_reply wait_result"
  cv_prompt :: "prompt_event wait_result list"
  cv_interrupt :: "unit wait_result"
  cv_answer :: "pending_answer_reply wait_result"
  cv_talk :: talk_call

type_synonym handled = "response \<times> server \<times> effect list"

text \<open>The server once a registry call that started in \<open>sv\<close> has ended with registry \<open>r\<close>.\<close>

definition settle :: "control_env \<Rightarrow> server \<Rightarrow> registry \<Rightarrow> server" where
  "settle cv sv r = (cv_rest cv sv)\<lparr>sv_registry := r\<rparr>"

definition handle_status :: "conn_ctx \<Rightarrow> server \<Rightarrow> handled" where
  "handle_status cx sv =
     (RespStatus \<lparr>sd_hostname = cx_hostname cx, sd_listening = cx_listening cx,
                  sd_clients = of_nat (registry_len (sv_registry sv))\<rparr>, sv, [])"

definition handle_ping :: "conn_ctx \<Rightarrow> control_env \<Rightarrow> string \<Rightarrow> server \<Rightarrow> handled" where
  "handle_ping cx cv token sv =
     (case ping (cv_ts cv) (cv_now cv) (cv_waiter cv) (cv_other1 cv) (cv_send_ok cv) (cv_other2 cv)
             (cv_ping cv) token (cv_id cv) (cx_hostname cx) (sv_registry sv) of
        (status, r, fx) \<Rightarrow>
          (RespPing (case status of
               StatusConnected hostname rtt_ms \<Rightarrow>
                 \<lparr>pg_connected = True, pg_hostname = Some hostname, pg_rtt_ms = Some rtt_ms\<rparr>
             | StatusDisconnected \<Rightarrow> \<lparr>pg_connected = False, pg_hostname = None, pg_rtt_ms = None\<rparr>),
           settle cv sv r, fx))"

definition roster_row_doc_of :: "roster_row \<Rightarrow> roster_row_doc" where
  "roster_row_doc_of r =
     \<lparr>rd_name = row_name r, rd_harness = row_harness r, rd_client_id = row_client_id r,
      rd_state = roster_state_display (row_state r), rd_last_seen_ms = row_last_seen_ms_ago r,
      rd_mode = row_mode r, rd_harness_session_id = row_harness_session_id r,
      rd_blocked = row_blocked r\<rparr>"

definition handle_roster :: "control_env \<Rightarrow> server \<Rightarrow> handled" where
  "handle_roster cv sv =
     (RespRoster (map roster_row_doc_of (roster_snapshot (cv_now cv) (sv_roster sv))), sv, [])"

text \<open>A \<open>support\<close> answer of \<open>ok: true\<close> confirms the asked id for the target's hostname.\<close>

definition confirm_support ::
  "string \<Rightarrow> string list \<Rightarrow> string option \<Rightarrow> query_ok_body \<Rightarrow> registry \<Rightarrow> registry" where
  "confirm_support c args hostname b r =
     (if c = ''support'' then
        (case (args, hostname) of
           (feature # _, Some host) \<Rightarrow>
             if Option.bind (json_get (qok_rest b) ''ok'') as_bool = Some True
             then record_harness_confirmed feature host r else r
         | _ \<Rightarrow> r)
      else r)"

definition handle_query ::
  "conn_ctx \<Rightarrow> control_env \<Rightarrow> string option \<Rightarrow> string \<Rightarrow> string list \<Rightarrow> server \<Rightarrow> handled" where
  "handle_query cx cv target c args sv =
     (case target of
        None \<Rightarrow>
          (RespQuery
             (case dispatch (cx_quoted cx) c args (cx_hostname cx) (cx_listening cx)
                     (of_nat (registry_len (sv_registry sv)))
                     (of_nat (live_count (cv_now cv) (sv_roster sv)))
                     (confirmed_harnesses_snapshot (sv_registry sv)) of
                Inr b \<Rightarrow> QrOk b | Inl e \<Rightarrow> QrErr e), sv, [])
      | Some i \<Rightarrow>
          (case resolve_target i (sv_registry sv) of
             None \<Rightarrow> (RespQuery QrNotConnected, sv, [])
           | Some token \<Rightarrow>
               (case registry_query (cv_ts cv) (cv_waiter cv) (cv_other1 cv) (cv_send_ok cv) (cv_other2 cv)
                       (cv_query cv) token c args (cv_id cv) (sv_registry sv) of
                  (QueryOk b, r, fx) \<Rightarrow>
                    (RespQuery (QrOk b),
                     settle cv sv (confirm_support c args (hostname_of token (sv_registry sv)) b r), fx)
                | (QueryErr e, r, fx) \<Rightarrow> (RespQuery (QrErr e), settle cv sv r, fx)
                | (QueryDisconnected, r, fx) \<Rightarrow> (RespQuery QrNotConnected, settle cv sv r, fx))))"

definition unknown_session :: "string \<Rightarrow> error_body" where
  "unknown_session session =
     \<lparr>err_code = CODE_UNKNOWN_SESSION, err_cmd = None,
      err_message = Some (''unknown session: '' @ session)\<rparr>"

definition handle_say :: "conn_ctx \<Rightarrow> control_env \<Rightarrow> string \<Rightarrow> string \<Rightarrow> server \<Rightarrow> handled" where
  "handle_say cx cv session text sv =
     (case resolve_session (cv_now cv) session (sv_roster sv) of
        None \<Rightarrow> (RespSay (SyErr (unknown_session session)), sv, [])
      | Some token \<Rightarrow>
          (let log = snd (record_prompt (cx_talk cx) (cv_talk cv) (cv_id cv) session text (sv_talklog sv))
           in case registry_prompt (cv_ts cv) (cv_waiter cv) (cv_other1 cv) (cv_send_ok cv) (cv_other2 cv)
                     (cv_prompt cv) token (cv_id cv) session text None (sv_registry sv) of
                (outcome, r, fx) \<Rightarrow>
                  (RespSay (case outcome of
                       PromptDone t x \<Rightarrow> SyOk t x
                     | PromptErr e \<Rightarrow> SyErr e
                     | PromptCancelled \<Rightarrow> SyInterrupted
                     | PromptDisconnected \<Rightarrow>
                         SyErr \<lparr>err_code = CODE_UNKNOWN_SESSION, err_cmd = None,
                                err_message = Some (''session '' @ cx_quoted cx session @ [CHR 0x27] @
                                                    ''s connection is gone'')\<rparr>),
                   settle cv (sv\<lparr>sv_talklog := log\<rparr>) r, fx)))"

definition handle_interrupt :: "control_env \<Rightarrow> string \<Rightarrow> server \<Rightarrow> handled" where
  "handle_interrupt cv session sv =
     (case resolve_session (cv_now cv) session (sv_roster sv) of
        None \<Rightarrow> (RespInterrupt (IrErr (unknown_session session)), sv, [])
      | Some token \<Rightarrow>
          (case registry_interrupt (cv_ts cv) (cv_waiter cv) (cv_other1 cv) (cv_send_ok cv) (cv_other2 cv)
                  (cv_other3 cv) (cv_interrupt cv) token (cv_id cv) session (sv_registry sv) of
             (outcome, r, fx) \<Rightarrow>
               (RespInterrupt (case outcome of
                    InterruptAcked \<Rightarrow> IrOk
                  | InterruptTimedOut \<Rightarrow> IrTimedOut
                  | InterruptDisconnected \<Rightarrow> IrDisconnected),
                settle cv sv r, fx)))"

definition handle_answer :: "control_env \<Rightarrow> string \<Rightarrow> string \<Rightarrow> server \<Rightarrow> handled" where
  "handle_answer cv session choice sv =
     (case resolve_session (cv_now cv) session (sv_roster sv) of
        None \<Rightarrow> (RespAnswer (ArErr (unknown_session session)), sv, [])
      | Some token \<Rightarrow>
          (case registry_answer (cv_ts cv) (cv_waiter cv) (cv_other1 cv) (cv_send_ok cv) (cv_other2 cv)
                  (cv_other3 cv) (cv_answer cv) token (cv_id cv) session choice (sv_registry sv) of
             (outcome, r, fx) \<Rightarrow>
               (RespAnswer (case outcome of
                    AnswerAcked \<Rightarrow> ArOk
                  | AnswerErr e \<Rightarrow> ArErr e
                  | AnswerTimedOut \<Rightarrow> ArTimedOut
                  | AnswerDisconnected \<Rightarrow> ArDisconnected),
                settle cv sv r, fx)))"

definition handle_revoke :: "control_env \<Rightarrow> string \<Rightarrow> server \<Rightarrow> handled" where
  "handle_revoke cv token sv =
     (case registry_remove token (sv_registry sv) of
        (closed, r, fx) \<Rightarrow>
          (let sv' = cv_between cv (sv\<lparr>sv_registry := r\<rparr>)
           in (RespRevoke \<lparr>rv_closed = closed\<rparr>,
               sv'\<lparr>sv_roster := mark_gone token (sv_roster sv')\<rparr>, fx)))"

fun handle_request :: "conn_ctx \<Rightarrow> control_env \<Rightarrow> request \<Rightarrow> server \<Rightarrow> handled" where
  "handle_request cx cv ReqStatus sv = handle_status cx sv"
| "handle_request cx cv (ReqPing t) sv = handle_ping cx cv t sv"
| "handle_request cx cv ReqRoster sv = handle_roster cv sv"
| "handle_request cx cv (ReqQuery target c args) sv = handle_query cx cv target c args sv"
| "handle_request cx cv (ReqSay s t) sv = handle_say cx cv s t sv"
| "handle_request cx cv (ReqInterrupt s) sv = handle_interrupt cv s sv"
| "handle_request cx cv (ReqAnswer s c) sv = handle_answer cv s c sv"
| "handle_request cx cv (ReqRevoke t) sv = handle_revoke cv t sv"

text \<open>One line of the connection: blank and unreadable lines get no answer.\<close>

definition handle_control_line ::
  "conn_ctx \<Rightarrow> control_env \<Rightarrow> string \<Rightarrow> server \<Rightarrow> (unit, string option \<times> server \<times> effect list) exec" where
  "handle_control_line cx cv line sv =
     (if trim line = [] then Ret (None, sv, [])
      else case jl_from_str (cx_json cx) line of
             Inl _ \<Rightarrow> Ret (None, sv, [])
           | Inr j \<Rightarrow>
               (case request_from j of
                  None \<Rightarrow> Ret (None, sv, [])
                | Some req \<Rightarrow>
                    (case handle_request cx cv req sv of
                       (resp, sv', fx) \<Rightarrow>
                         (case response_json resp of
                            None \<Rightarrow> Panic
                          | Some out \<Rightarrow> Ret (Some (jl_to_string (cx_json cx) out), sv', fx)))))"

text \<open>
  A control connection: the lines it sends, each handled before the next is read, with whatever the
  other tasks do in between.  The connection ends with its input or with the first answer that cannot
  be written.
\<close>

fun handle_control_conn ::
  "conn_ctx \<Rightarrow> (control_env \<times> bool \<times> string) list \<Rightarrow> server
   \<Rightarrow> (unit, string list \<times> server \<times> effect list) exec" where
  "handle_control_conn cx [] sv = Ret ([], sv, [])"
| "handle_control_conn cx ((cv, write_ok, line) # rest) sv =
     exec_bind (handle_control_line cx cv line (cv_before cv sv)) (\<lambda>(out, sv', fx).
       case out of
         None \<Rightarrow>
           exec_bind (handle_control_conn cx rest sv') (\<lambda>(outs, sv'', fx'). Ret (outs, sv'', fx @ fx'))
       | Some s \<Rightarrow>
           if \<not> write_ok then Ret ([], sv', fx)
           else exec_bind (handle_control_conn cx rest sv')
                  (\<lambda>(outs, sv'', fx'). Ret ((s @ [CHR 0x0A]) # outs, sv'', fx @ fx')))"

section \<open>Client side\<close>

datatype client_query_outcome = Reached string | NotReachable | ClientTimedOut

text \<open>
  What the dial met: no runtime, the connect timed out or failed, a write failed, the read timed
  out or failed, or a (possibly empty) line arrived.  A \<open>dial\<close> says so for each request line and
  read timeout.
\<close>

datatype socket_io = NoRuntime | ConnectTimeout | ConnectFailed | WriteFailed | ReadTimeout | ReadFailed
  | ReadEof | ReadLine string

type_synonym dial = "string \<Rightarrow> duration \<Rightarrow> socket_io"

definition run_client_query_with_timeout ::
  "json_lib \<Rightarrow> dial \<Rightarrow> request \<Rightarrow> duration \<Rightarrow> client_query_outcome" where
  "run_client_query_with_timeout lib dial req read_timeout =
     (case dial (jl_to_string lib (request_json req)) read_timeout of
        ReadTimeout \<Rightarrow> ClientTimedOut
      | ReadLine response \<Rightarrow> if trim response = [] then NotReachable else Reached response
      | _ \<Rightarrow> NotReachable)"

definition run_client_query :: "json_lib \<Rightarrow> dial \<Rightarrow> request \<Rightarrow> string option" where
  "run_client_query lib dial req =
     (case run_client_query_with_timeout lib dial req CLIENT_TIMEOUT of Reached s \<Rightarrow> Some s | _ \<Rightarrow> None)"

definition read_doc :: "json_lib \<Rightarrow> (json \<Rightarrow> 'a option) \<Rightarrow> string \<Rightarrow> 'a option" where
  "read_doc lib f line = (case jl_from_str lib line of Inl _ \<Rightarrow> None | Inr j \<Rightarrow> f j)"

definition query_status :: "json_lib \<Rightarrow> dial \<Rightarrow> status_doc option" where
  "query_status lib dial = Option.bind (run_client_query lib dial ReqStatus) (read_doc lib status_doc_from)"

definition query_roster :: "json_lib \<Rightarrow> dial \<Rightarrow> roster_row_doc list" where
  "query_roster lib dial =
     (case run_client_query lib dial ReqRoster of
        None \<Rightarrow> []
      | Some line \<Rightarrow> unwrap_or (read_doc lib (list_from roster_row_doc_from) line) [])"

definition run_query ::
  "json_lib \<Rightarrow> dial \<Rightarrow> string option \<Rightarrow> string \<Rightarrow> string list \<Rightarrow> query_reply_doc option" where
  "run_query lib dial target c args =
     Option.bind (run_client_query lib dial (ReqQuery target c args)) (read_doc lib query_reply_from)"

datatype 'a control_outcome = OReached 'a | ONotReachable | OTimedOut

definition slow_reply ::
  "json_lib \<Rightarrow> dial \<Rightarrow> (json \<Rightarrow> 'a option) \<Rightarrow> request \<Rightarrow> 'a control_outcome" where
  "slow_reply lib dial f req =
     (case run_client_query_with_timeout lib dial req REPLY_TIMEOUT of
        Reached line \<Rightarrow> (case read_doc lib f line of Some reply \<Rightarrow> OReached reply | None \<Rightarrow> ONotReachable)
      | NotReachable \<Rightarrow> ONotReachable
      | ClientTimedOut \<Rightarrow> OTimedOut)"

definition run_say :: "json_lib \<Rightarrow> dial \<Rightarrow> string \<Rightarrow> string \<Rightarrow> say_reply control_outcome" where
  "run_say lib dial session text = slow_reply lib dial say_reply_from (ReqSay session text)"

definition run_interrupt :: "json_lib \<Rightarrow> dial \<Rightarrow> string \<Rightarrow> interrupt_reply control_outcome" where
  "run_interrupt lib dial session = slow_reply lib dial interrupt_reply_from (ReqInterrupt session)"

definition run_answer :: "json_lib \<Rightarrow> dial \<Rightarrow> string \<Rightarrow> string \<Rightarrow> answer_reply control_outcome" where
  "run_answer lib dial session choice = slow_reply lib dial answer_reply_from (ReqAnswer session choice)"

definition run_revoke :: "json_lib \<Rightarrow> dial \<Rightarrow> string \<Rightarrow> revoke_reply option" where
  "run_revoke lib dial token =
     Option.bind (run_client_query lib dial (ReqRevoke token)) (read_doc lib revoke_reply_from)"

definition live_probe :: "json_lib \<Rightarrow> dial \<Rightarrow> string \<Rightarrow> connection_status" where
  "live_probe lib dial token =
     (case Option.bind (run_client_query lib dial (ReqPing token)) (read_doc lib ping_reply_from) of
        Some reply \<Rightarrow>
          if pg_connected reply
          then StatusConnected (unwrap_or (pg_hostname reply) []) (unwrap_or (pg_rtt_ms reply) 0)
          else StatusDisconnected
      | None \<Rightarrow> StatusDisconnected)"

section \<open>Lemmas\<close>

lemma canon_tagged:
  "canon (tagged_json tag variant ms) =
     JObject (obj_of ((tag, JString variant) #
       map (\<lambda>(k, v). (k, canon v)) (List.map_filter (\<lambda>(k, j). map_option (Pair k) j) ms)))"
  by (simp add: tagged_json_def struct_json_def)

lemma tagged_roundtrip:
  assumes "tag \<notin> fst ` set ms"
  shows "tagged_content tag (canon (tagged_json tag variant ms)) = Some (variant, JObject (canon_members ms))"
proof -
  let ?kvs = "map (\<lambda>(k, v). (k, canon v)) (List.map_filter (\<lambda>(k, j). map_option (Pair k) j) ms)"
  have tag: "tag \<notin> fst ` set ?kvs" using assms keys_map_filter [of ms] by force
  then have "map_of (rev ?kvs) tag = None" by (simp add: map_of_eq_None_iff)
  then have "map_of (obj_of ((tag, JString variant) # ?kvs)) tag = Some (JString variant)"
    by (simp add: map_add_def)
  then show ?thesis
    using filter_obj_of_Cons [OF tag, of "JString variant"]
    by (simp add: canon_tagged tagged_content_def canon_members_def del: map_of_obj_of)
qed

interpretation u64_codec: json_codec JPos as_u64 "\<lambda>_. True"
  by unfold_locales simp

lemmas doc_simps =
  tagged_roundtrip codec_simps i64_json_not_null string_codec.dec_those u64_codec.dec_opt_member error_codec.dec_enc

interpretation request_codec: json_codec request_json request_from "\<lambda>_. True"
proof
  fix r :: request
  show "request_from (canon (request_json r)) = Some r"
    by (cases r) (simp_all add: request_from_def request_variant_def doc_simps)
qed

interpretation ping_reply_codec: json_codec ping_reply_json ping_reply_from "\<lambda>_. True"
  by unfold_locales (simp add: ping_reply_json_def ping_reply_from_def doc_simps)

interpretation say_reply_codec: json_codec say_reply_json say_reply_from
  "\<lambda>r. case r of SyOk t x \<Rightarrow> pred_option in_i64 x | _ \<Rightarrow> True"
proof
  fix r :: say_reply
  assume "case r of SyOk t x \<Rightarrow> pred_option in_i64 x | _ \<Rightarrow> True"
  then show "say_reply_from (canon (say_reply_json r)) = Some r"
    by (cases r) (simp_all add: say_reply_from_def doc_simps)
qed

interpretation interrupt_reply_codec: json_codec interrupt_reply_json interrupt_reply_from "\<lambda>_. True"
proof
  fix r :: interrupt_reply
  show "interrupt_reply_from (canon (interrupt_reply_json r)) = Some r"
    by (cases r) (simp_all add: interrupt_reply_from_def doc_simps)
qed

interpretation answer_reply_codec: json_codec answer_reply_json answer_reply_from "\<lambda>_. True"
proof
  fix r :: answer_reply
  show "answer_reply_from (canon (answer_reply_json r)) = Some r"
    by (cases r) (simp_all add: answer_reply_from_def doc_simps)
qed

interpretation revoke_reply_codec: json_codec revoke_reply_json revoke_reply_from "\<lambda>_. True"
  by unfold_locales (simp add: revoke_reply_json_def revoke_reply_from_def doc_simps)

interpretation status_doc_codec: json_codec status_doc_json status_doc_from "\<lambda>_. True"
  by unfold_locales (simp add: status_doc_json_def status_doc_from_def doc_simps)

interpretation roster_row_doc_codec: json_codec roster_row_doc_json roster_row_doc_from
  "\<lambda>r. rd_last_seen_ms r < 2 ^ 64"
proof
  fix r :: roster_row_doc
  assume "rd_last_seen_ms r < 2 ^ 64"
  then have "unat (of_nat (rd_last_seen_ms r) :: u64) = rd_last_seen_ms r"
    by (simp add: unat_of_nat)
  then show "roster_row_doc_from (canon (roster_row_doc_json r)) = Some r"
    by (simp add: roster_row_doc_json_def roster_row_doc_from_def doc_simps)
qed

lemma query_reply_roundtrip:
  assumes "case r of QrOk b \<Rightarrow> query_ok_wf b | _ \<Rightarrow> True"
  shows "\<exists>j. query_reply_json r = Some j \<and> query_reply_from (canon j) = Some r"
proof (cases r)
  case (QrOk b)
  with assms obtain j where "query_ok_json b = Some j" "query_ok_from (canon j) = Some b"
    using query_ok_roundtrip by auto
  with QrOk show ?thesis by (simp add: query_reply_from_def doc_simps)
qed (simp_all add: query_reply_from_def doc_simps)

text \<open>What the command line's parser for the matching request makes of a response document.\<close>

fun reads_as :: "response \<Rightarrow> json \<Rightarrow> bool" where
  "reads_as (RespStatus d) j \<longleftrightarrow> status_doc_from j = Some d"
| "reads_as (RespPing r) j \<longleftrightarrow> ping_reply_from j = Some r"
| "reads_as (RespRoster rs) j \<longleftrightarrow> list_from roster_row_doc_from j = Some rs"
| "reads_as (RespQuery r) j \<longleftrightarrow> query_reply_from j = Some r"
| "reads_as (RespSay r) j \<longleftrightarrow> say_reply_from j = Some r"
| "reads_as (RespInterrupt r) j \<longleftrightarrow> interrupt_reply_from j = Some r"
| "reads_as (RespAnswer r) j \<longleftrightarrow> answer_reply_from j = Some r"
| "reads_as (RespRevoke r) j \<longleftrightarrow> revoke_reply_from j = Some r"

fun response_ok :: "response \<Rightarrow> bool" where
  "response_ok (RespRoster rs) \<longleftrightarrow> list_all (\<lambda>r. rd_last_seen_ms r < 2 ^ 64) rs"
| "response_ok (RespQuery (QrOk b)) \<longleftrightarrow> query_ok_wf b"
| "response_ok (RespSay (SyOk t x)) \<longleftrightarrow> pred_option in_i64 x"
| "response_ok _ \<longleftrightarrow> True"

lemma response_reads_back:
  assumes "response_ok resp"
  shows "\<exists>j. response_json resp = Some j \<and> reads_as resp (canon j)"
proof (cases resp)
  case (RespRoster rs)
  with assms roster_row_doc_codec.dec_list [of rs] show ?thesis by (simp add: comp_def)
next
  case (RespQuery r)
  with assms query_reply_roundtrip [of r] show ?thesis by (cases r) auto
next
  case (RespSay r)
  with assms say_reply_codec.dec_enc [of r] show ?thesis by (cases r) auto
qed (simp_all add: status_doc_codec.dec_enc ping_reply_codec.dec_enc interrupt_reply_codec.dec_enc
      answer_reply_codec.dec_enc revoke_reply_codec.dec_enc)

text \<open>
  The documents of one exchange survive the JSON library: it reads back what it printed, with or
  without the line end, and prints no blank line.
\<close>

definition json_line :: "json_lib \<Rightarrow> json \<Rightarrow> bool" where
  "json_line lib j \<longleftrightarrow>
     (\<forall>line \<in> {jl_to_string lib j, jl_to_string lib j @ [CHR 0x0A]}.
        trim line \<noteq> [] \<and> jl_from_str lib line = Inr (canon j))"

text \<open>A dial that reaches this server and waits for its answer.\<close>

definition served_dial :: "conn_ctx \<Rightarrow> control_env \<Rightarrow> server \<Rightarrow> dial" where
  "served_dial cx cv sv line read_timeout =
     (case handle_control_line cx cv line sv of
        Ret (Some out, sv', fx) \<Rightarrow> ReadLine (out @ [CHR 0x0A])
      | Ret (None, sv', fx) \<Rightarrow> ReadTimeout
      | _ \<Rightarrow> ReadEof)"

text \<open>One exchange: the client reads back exactly the response the handler computed.\<close>

lemma served_exchange:
  assumes "json_line (cx_json cx) (request_json req)" and "handle_request cx cv req sv = (resp, sv', fx)"
    and "response_json resp = Some j" and "json_line (cx_json cx) j"
  shows "\<exists>line. run_client_query_with_timeout (cx_json cx) (served_dial cx cv sv) req t = Reached line \<and>
           read_doc (cx_json cx) f line = f (canon j)"
  using assms request_codec.dec_enc [of req]
  by (auto simp: run_client_query_with_timeout_def served_dial_def handle_control_line_def json_line_def
      read_doc_def)

lemma handled_say:
  assumes "resolve_session (cv_now cv) session (sv_roster sv) = Some t"
    and "hm_get (rg_entries (sv_registry sv)) t \<noteq> None"
    and "hm_get (rg_entries (cv_other1 cv (sv_registry sv))) t \<noteq> None" and "cv_send_ok cv"
  shows "\<exists>sv' fx. handle_say cx cv session msg sv =
           (RespSay (case prompt_loop [] (cv_prompt cv) of
                PromptDone t x \<Rightarrow> SyOk t x
              | PromptErr e \<Rightarrow> SyErr e
              | PromptCancelled \<Rightarrow> SyInterrupted
              | PromptDisconnected \<Rightarrow>
                  SyErr \<lparr>err_code = CODE_UNKNOWN_SESSION, err_cmd = None,
                         err_message = Some (''session '' @ cx_quoted cx session @ [CHR 0x27] @
                                             ''s connection is gone'')\<rparr>), sv', fx) \<and>
         sv_talklog sv' = sv_talklog (cv_rest cv (sv\<lparr>sv_talklog :=
           snd (record_prompt (cx_talk cx) (cv_talk cv) (cv_id cv) session msg (sv_talklog sv))\<rparr>))"
proof -
  obtain e e1 where "hm_get (rg_entries (sv_registry sv)) t = Some e"
      "hm_get (rg_entries (cv_other1 cv (sv_registry sv))) t = Some e1"
    using assms(2,3) by auto
  with assms(1,4) show ?thesis
    by (auto simp: handle_say_def registry_prompt_def register_prompt_def settle_def Let_def split: prod.splits)
qed

lemma prompt_loop_collects:
  assumes "list_all (\<lambda>b. \<not> rp_done b) partial" and "rp_done final"
  shows "prompt_loop [] (map (Got \<circ> EvReply) partial @ Got (EvReply final) # rest) =
           PromptDone (concat (concat (map reply_pieces (partial @ [final])))) (rp_exit final)"
proof -
  have "prompt_loop ps (map (Got \<circ> EvReply) partial @ evs) =
      prompt_loop (ps @ concat (map reply_pieces partial)) evs" for ps evs
    using assms(1) by (induction partial arbitrary: ps) simp_all
  with assms(2) show ?thesis by simp
qed

section \<open>Properties\<close>

text \<open>
  Client and server speak the same language.  Every request the command line can make is read
  by the server as that request, and every response the server writes is read back by that
  request's parser as the same answer (when a relayed document is one that decoding accepts, exit
  codes fit 64 bits and ages fit 64 bits); writing it cannot panic.
\<close>

lemma control_documents_roundtrip:
  assumes "response_ok resp"
  shows "request_from (canon (request_json req)) = Some req \<and>
         (\<exists>j. response_json resp = Some j \<and> reads_as resp (canon j))"
  using request_codec.dec_enc response_reads_back [OF assms] by simp

lemma control_documents_roundtrip_at_work:
  "request_from (canon (request_json (ReqQuery (Some ''box'') ''support'' [''pi'']))) =
     Some (ReqQuery (Some ''box'') ''support'' [''pi'']) \<and>
   (\<exists>j. response_json (RespSay (SyOk ''hi'' (Some 0))) = Some j \<and> say_reply_from (canon j) = Some (SyOk ''hi'' (Some 0)))"
  using control_documents_roundtrip [of "RespSay (SyOk ''hi'' (Some 0))"
      "ReqQuery (Some ''box'') ''support'' [''pi'']"]
  by (simp add: in_i64_def del: request_json.simps say_reply_json.simps)

text \<open>
  C5: \<open>say\<close> from end to end.  When the named session resolves to a connected client that answers a
  prompt with partial replies and a final one, the command line gets back exactly the concatenated
  text and the exit code, through both JSON encodings, and the prompt was put in the talk log, where
  other tasks (\<open>cv_rest\<close>) found it.
\<close>

theorem say_end_to_end:
  assumes "resolve_session (cv_now cv) session (sv_roster sv) = Some t"
    and "hm_get (rg_entries (sv_registry sv)) t \<noteq> None"
    and "hm_get (rg_entries (cv_other1 cv (sv_registry sv))) t \<noteq> None" and "cv_send_ok cv"
    and "cv_prompt cv = map (Got \<circ> EvReply) partial @ Got (EvReply final) # rest"
    and "list_all (\<lambda>b. \<not> rp_done b) partial" and "rp_done final" and "pred_option in_i64 (rp_exit final)"
    and "answer = SyOk (concat (concat (map reply_pieces (partial @ [final])))) (rp_exit final)"
    and "json_line (cx_json cx) (request_json (ReqSay session msg))"
    and "json_line (cx_json cx) (say_reply_json answer)"
  shows "run_say (cx_json cx) (served_dial cx cv sv) session msg = OReached answer \<and>
         sv_talklog (fst (snd (handle_request cx cv (ReqSay session msg) sv))) =
           sv_talklog (cv_rest cv (sv\<lparr>sv_talklog :=
             snd (record_prompt (cx_talk cx) (cv_talk cv) (cv_id cv) session msg (sv_talklog sv))\<rparr>))"
proof -
  obtain sv' fx where h: "handle_say cx cv session msg sv = (RespSay answer, sv', fx)"
      "sv_talklog sv' = sv_talklog (cv_rest cv (sv\<lparr>sv_talklog :=
         snd (record_prompt (cx_talk cx) (cv_talk cv) (cv_id cv) session msg (sv_talklog sv))\<rparr>))"
    using handled_say [OF assms(1-4), of cx msg] prompt_loop_collects [OF assms(6,7), of rest] assms(5,9)
    by auto
  obtain line where "run_client_query_with_timeout (cx_json cx) (served_dial cx cv sv) (ReqSay session msg)
      REPLY_TIMEOUT = Reached line" "read_doc (cx_json cx) say_reply_from line =
      say_reply_from (canon (say_reply_json answer))"
    using served_exchange [OF assms(10), of cv sv "RespSay answer" sv' fx "say_reply_json answer" REPLY_TIMEOUT
        say_reply_from] h(1) assms(11) by (auto simp del: request_json.simps say_reply_json.simps)
  moreover have "say_reply_from (canon (say_reply_json answer)) = Some answer"
    using say_reply_codec.dec_enc [of answer] assms(8,9) by simp
  ultimately show ?thesis using h by (simp add: run_say_def slow_reply_def)
qed

text \<open>A server with one connected client, and a library that knows the two documents of one exchange.\<close>

definition demo_live_server :: server where
  "demo_live_server = demo_server\<lparr>sv_registry := demo_registry, sv_roster := demo_roster\<rparr>"

definition demo_exchange_lib :: "json \<Rightarrow> json \<Rightarrow> json_lib" where
  "demo_exchange_lib question answer =
     \<lparr>jl_from_str = (\<lambda>s. if s = [] then Inl ''eof'' else if hd s = CHR ''q'' then Inr (canon question)
                         else Inr (canon answer)),
      jl_to_string = (\<lambda>j. if j = question then ''q'' else ''a''), jl_value_error = (\<lambda>_ _. ''bad body'')\<rparr>"

definition demo_control_env :: "prompt_event wait_result list \<Rightarrow> control_env" where
  "demo_control_env evs =
     \<lparr>cv_now = 100, cv_ts = ''t'', cv_id = ''c1'', cv_waiter = 9, cv_send_ok = True, cv_other1 = id, cv_other2 = id,
      cv_other3 = id, cv_rest = id, cv_between = id, cv_before = id, cv_ping = Closed, cv_query = Closed, cv_prompt = evs, cv_interrupt = Closed,
      cv_answer = Closed, cv_talk = talk_ok ''t''\<rparr>"

definition demo_say_ctx :: conn_ctx where
  "demo_say_ctx = demo_ctx (demo_exchange_lib (request_json (ReqSay ''alpha'' ''go''))
                             (say_reply_json (SyOk ''one two'' (Some 0))))"

lemma demo_line_chars:
  "\<not> is_whitespace ''q''" "\<not> is_whitespace ''a''" "\<not> is_cont_byte (CHR 0x0A)" "is_whitespace [CHR 0x0A]"
  by code_simp+

lemma demo_exchange_lines:
  assumes "canon question \<noteq> canon answer"
  shows "json_line (demo_exchange_lib question answer) question"
    and "json_line (demo_exchange_lib question answer) answer"
  using assms by (auto simp: json_line_def demo_exchange_lib_def trim_def demo_line_chars)

theorem say_end_to_end_witness:
  "run_say (cx_json demo_say_ctx)
     (served_dial demo_say_ctx (demo_control_env [Got (EvReply demo_partial), Got (EvReply demo_final)])
        demo_live_server) ''alpha'' ''go'' = OReached (SyOk ''one two'' (Some 0))"
proof -
  have "canon (request_json (ReqSay ''alpha'' ''go'')) \<noteq> canon (say_reply_json (SyOk ''one two'' (Some 0)))"
    by (simp add: canon_tagged obj_of_def)
  note lines = demo_exchange_lines [OF this]
  show ?thesis
    using say_end_to_end [of "demo_control_env [Got (EvReply demo_partial), Got (EvReply demo_final)]"
        "''alpha''" demo_live_server "''tok_1''" "[demo_partial]" demo_final "[]" "SyOk ''one two'' (Some 0)"
        demo_say_ctx "''go''"] lines demo_roster_resolves demo_registry_connected
    by (simp add: demo_live_server_def demo_control_env_def demo_say_ctx_def demo_ctx_def demo_partial_def
        demo_final_def reply_pieces_def in_i64_def del: request_json.simps say_reply_json.simps)
qed

text \<open>
  A session nobody hosts is an error and nothing more.  When the roster has no live row of the
  given name, \<open>say\<close>, \<open>interrupt\<close> and \<open>answer\<close> are answered \<open>unknown_session\<close> with the name in the
  message, and neither the registry, the roster, the talk log nor any channel is touched.
\<close>

lemma control_unknown_session:
  assumes "resolve_session (cv_now cv) session (sv_roster sv) = None"
  shows "handle_request cx cv (ReqSay session msg) sv = (RespSay (SyErr (unknown_session session)), sv, []) \<and>
         handle_request cx cv (ReqInterrupt session) sv =
           (RespInterrupt (IrErr (unknown_session session)), sv, []) \<and>
         handle_request cx cv (ReqAnswer session choice) sv =
           (RespAnswer (ArErr (unknown_session session)), sv, []) \<and>
         err_code (unknown_session session) = CODE_UNKNOWN_SESSION"
  using assms by (simp add: handle_say_def handle_interrupt_def handle_answer_def unknown_session_def)

lemma control_unknown_session_at_work:
  "handle_request demo_say_ctx (demo_control_env []) (ReqSay ''nobody'' ''go'') demo_live_server =
     (RespSay (SyErr (unknown_session ''nobody'')), demo_live_server, [])"
  using control_unknown_session [of "demo_control_env []" "''nobody''" demo_live_server demo_say_ctx "''go''" "''y''"]
  by (simp add: demo_live_server_def demo_control_env_def resolve_session_def demo_simps hm_get_def)

text \<open>
  C9: revoking a token takes effect at once.  The handler reports whether there was a connection and
  drops that connection's channel and every waiter on it.  Whatever other tasks do between its two
  lock sections, no session name routes to the token afterwards, at any time, and the token is
  registered only if one of them registered it anew; what they did to other tokens' connections and
  routes is kept.  With nothing in between, the token is not registered, and other tokens'
  connections and the routes of their sessions are as before.
\<close>

theorem control_revoke_final:
  "(case handle_request cx cv (ReqRevoke token) sv of
     (resp, sv', fx) \<Rightarrow>
       \<exists>r. reg_step (RegRemove token) (sv_registry sv) = (r, fx) \<and> hm_get (rg_entries r) token = None \<and>
         resp = RespRevoke \<lparr>rv_closed = (hm_get (rg_entries (sv_registry sv)) token \<noteq> None)\<rparr> \<and>
         fx = (case hm_get (rg_entries (sv_registry sv)) token of None \<Rightarrow> [] | Some e \<Rightarrow> drop_entry e) \<and>
         sv_registry sv' = sv_registry (cv_between cv (sv\<lparr>sv_registry := r\<rparr>)) \<and>
         resolve_session now name (sv_roster sv') \<noteq> Some token \<and>
         (t = token \<or>
            (resolve_session now name (sv_roster sv') = Some t \<longleftrightarrow>
             resolve_session now name (sv_roster (cv_between cv (sv\<lparr>sv_registry := r\<rparr>))) = Some t))) \<and>
   (case handle_request cx (cv\<lparr>cv_between := id\<rparr>) (ReqRevoke token) sv of
     (resp, sv', fx) \<Rightarrow>
       resp = RespRevoke \<lparr>rv_closed = (hm_get (rg_entries (sv_registry sv)) token \<noteq> None)\<rparr> \<and>
       hm_get (rg_entries (sv_registry sv')) token = None \<and>
       resolve_session now name (sv_roster sv') \<noteq> Some token \<and>
       (t = token \<or> hm_get (rg_entries (sv_registry sv')) t = hm_get (rg_entries (sv_registry sv)) t \<and>
                    (resolve_session now name (sv_roster sv') = Some t \<longleftrightarrow>
                     resolve_session now name (sv_roster sv) = Some t)) \<and>
       fx = (case hm_get (rg_entries (sv_registry sv)) token of None \<Rightarrow> [] | Some e \<Rightarrow> drop_entry e))"
  by (cases "hm_get (rg_entries (sv_registry sv)) token")
     (auto simp: handle_revoke_def registry_remove_def mark_gone_resolves hm_simps Let_def)

end
