(* ===== verification/Debug.thy ===== *)
theory Debug
  imports Proto "HOL-Library.Sublist"
begin

text \<open>
  Debug levels, log lines and secret redaction of \<open>src/src/debug.rs\<close>.

  \<^item> A log line is the record \<open>event\<close>, built field by field as the source's builder is; \<open>emit\<close> gives
    the line written to stderr, or nothing.
  \<^item> The clock is the record \<open>utc_time\<close> of the calendar fields the \<open>time\<close> library hands out.  JSON
    text goes through \<open>json_lib\<close>; \<open>quoted\<close> is the standard library's \<open>{:?}\<close> of a string.
\<close>

section \<open>Levels and formats\<close>

datatype debug_level = LevelNone | LevelQuiet | LevelNoisy

datatype log_format = FormatText | FormatJson

definition debug_level_error_display :: "(string \<Rightarrow> string) \<Rightarrow> string \<Rightarrow> string" where
  "debug_level_error_display quoted v =
     ''invalid debug level '' @ quoted v @ '': expected one of none, quiet, noisy''"

definition debug_level_parse :: "string \<Rightarrow> string + debug_level" where
  "debug_level_parse v =
     (let s = to_ascii_lowercase v
      in if s = ''none'' then Inr LevelNone
         else if s = ''quiet'' then Inr LevelQuiet
         else if s = ''noisy'' then Inr LevelNoisy
         else Inl v)"

definition debug_level_resolve :: "string option \<Rightarrow> string option \<Rightarrow> string + debug_level" where
  "debug_level_resolve flag env =
     (case flag of
        Some v \<Rightarrow> debug_level_parse v
      | None \<Rightarrow> (case env of Some v \<Rightarrow> debug_level_parse v | None \<Rightarrow> Inr LevelNone))"

fun debug_level_as_str :: "debug_level \<Rightarrow> string" where
  "debug_level_as_str LevelNone = ''none''"
| "debug_level_as_str LevelQuiet = ''quiet''"
| "debug_level_as_str LevelNoisy = ''noisy''"

fun log_format_display :: "log_format \<Rightarrow> string" where
  "log_format_display FormatText = ''text''"
| "log_format_display FormatJson = ''json''"

definition log_format_error_display :: "(string \<Rightarrow> string) \<Rightarrow> string \<Rightarrow> string" where
  "log_format_error_display quoted v =
     ''invalid log format '' @ quoted v @ '': expected one of text, json''"

definition log_format_parse :: "string \<Rightarrow> string + log_format" where
  "log_format_parse v =
     (let s = to_ascii_lowercase v
      in if s = ''text'' then Inr FormatText else if s = ''json'' then Inr FormatJson else Inl v)"

definition log_format_resolve :: "string option \<Rightarrow> string option \<Rightarrow> string + log_format" where
  "log_format_resolve flag env =
     (case flag of
        Some v \<Rightarrow> log_format_parse v
      | None \<Rightarrow> (case env of Some v \<Rightarrow> log_format_parse v | None \<Rightarrow> Inr FormatText))"

record debug_config =
  dc_level :: debug_level
  dc_format :: log_format

definition is_on :: "debug_config \<Rightarrow> bool" where
  "is_on cfg \<longleftrightarrow> dc_level cfg \<noteq> LevelNone"

datatype severity = SevDebug | SevInfo | SevWarn

fun severity_as_str :: "severity \<Rightarrow> string" where
  "severity_as_str SevDebug = ''debug''"
| "severity_as_str SevInfo = ''info''"
| "severity_as_str SevWarn = ''warn''"

fun severity_as_text :: "severity \<Rightarrow> string" where
  "severity_as_text SevDebug = ''DEBUG''"
| "severity_as_text SevInfo = ''INFO ''"
| "severity_as_text SevWarn = ''WARN ''"

datatype direction = DirOut | DirIn | DirLocal

fun direction_as_text :: "direction \<Rightarrow> string" where
  "direction_as_text DirOut = ''->''"
| "direction_as_text DirIn = ''<-''"
| "direction_as_text DirLocal = ''  ''"

fun direction_as_json :: "direction \<Rightarrow> string option" where
  "direction_as_json DirOut = Some ''out''"
| "direction_as_json DirIn = Some ''in''"
| "direction_as_json DirLocal = None"

definition TYPE_COLUMN_WIDTH :: nat where
  "TYPE_COLUMN_WIDTH = 10"

definition COMPONENT_COLUMN_WIDTH :: nat where
  "COMPONENT_COLUMN_WIDTH = 16"

definition SHORT_ID_LEN :: nat where
  "SHORT_ID_LEN = 12"

definition short :: "string \<Rightarrow> string" where
  "short s = concat (take SHORT_ID_LEN (utf8_chars s))"

section \<open>Redaction\<close>

definition NEVER_PRINT_FIELDS :: "string list" where
  "NEVER_PRINT_FIELDS =
     [''join secret'', ''join_secret'', ''client credential'', ''client_credential'', ''connect ticket'',
      ''connect_ticket'', ''authorization'', ''pepper'']"

definition REDACTED :: string where
  "REDACTED = ''[redacted]''"

definition redact :: "string \<Rightarrow> string \<Rightarrow> string" where
  "redact field_name v =
     (if to_ascii_lowercase field_name \<in> set NEVER_PRINT_FIELDS then REDACTED else v)"

text \<open>\<open>str::replace\<close> of a nonempty pattern: matches from left to right, not overlapping.\<close>

function replace_all :: "string \<Rightarrow> string \<Rightarrow> string \<Rightarrow> string" where
  "replace_all p q s =
     (if p \<noteq> [] \<and> prefix p s then q @ replace_all p q (drop (length p) s)
      else case s of [] \<Rightarrow> [] | c # cs \<Rightarrow> c # replace_all p q cs)"
  by pat_completeness auto
termination
  by (relation "measure (\<lambda>(p, q, s). length s)") (auto simp: prefix_def)

declare replace_all.simps [simp del]

definition redact_secret :: "string \<Rightarrow> string \<Rightarrow> string" where
  "redact_secret s secret = (if secret = [] then s else replace_all secret REDACTED s)"

text \<open>\<open>str::find\<close> of a pattern: the first byte offset at which it occurs.\<close>

fun find_sub :: "string \<Rightarrow> string \<Rightarrow> nat option" where
  "find_sub p [] = (if p = [] then Some 0 else None)"
| "find_sub p (c # cs) = (if prefix p (c # cs) then Some 0 else map_option Suc (find_sub p cs))"

definition HLR_PREFIX :: string where
  "HLR_PREFIX = ''hlr_''"

definition is_token_char :: "char \<Rightarrow> bool" where
  "is_token_char c \<longleftrightarrow> is_ascii_alphanumeric c \<or> c = CHR ''-'' \<or> c = CHR ''_''"

lemma find_sub_length: "find_sub p s = Some i \<Longrightarrow> i + length p \<le> length s"
  by (induction s arbitrary: i) (auto split: if_splits dest: prefix_length_le)

function redact_hlr_loop :: "string \<Rightarrow> string \<Rightarrow> string" where
  "redact_hlr_loop result rest =
     (case find_sub HLR_PREFIX rest of
        None \<Rightarrow> result @ rest
      | Some start \<Rightarrow>
          let after_prefix = drop (start + length HLR_PREFIX) rest;
              token_len = length (takeWhile is_token_char after_prefix)
          in redact_hlr_loop
               (result @ take start rest @ (if token_len = 0 then HLR_PREFIX else REDACTED))
               (drop token_len after_prefix))"
  by pat_completeness auto
termination
proof (relation "measure (\<lambda>(result, rest). length rest)")
  fix result rest start after_prefix token_len
  assume "find_sub HLR_PREFIX rest = Some start"
    and "after_prefix = drop (start + length HLR_PREFIX) rest"
  then have "length after_prefix < length rest"
    using find_sub_length [of HLR_PREFIX rest start] by (simp add: HLR_PREFIX_def)
  then show "((result @ take start rest @ (if token_len = 0 then HLR_PREFIX else REDACTED),
      drop token_len after_prefix), result, rest) \<in> measure (\<lambda>(result, rest). length rest)"
    by simp
qed simp

declare redact_hlr_loop.simps [simp del]

definition redact_hlr_tokens :: "string \<Rightarrow> string" where
  "redact_hlr_tokens s = redact_hlr_loop [] s"

section \<open>Log lines\<close>

record event =
  lv_cfg :: debug_config
  lv_severity :: severity
  lv_dir :: direction
  lv_component :: string
  lv_kind :: string
  lv_id :: "string option"
  lv_peer :: "string option"
  lv_fields :: "(string \<times> string) list"
  lv_frame :: "string option"

definition event_new :: "debug_config \<Rightarrow> severity \<Rightarrow> direction \<Rightarrow> string \<Rightarrow> string \<Rightarrow> event" where
  "event_new cfg sev dir component kind =
     \<lparr>lv_cfg = cfg, lv_severity = sev, lv_dir = dir, lv_component = component, lv_kind = kind,
      lv_id = None, lv_peer = None, lv_fields = [], lv_frame = None\<rparr>"

definition event_outgoing :: "debug_config \<Rightarrow> string \<Rightarrow> string \<Rightarrow> event" where
  "event_outgoing cfg component kind = event_new cfg SevDebug DirOut component kind"

definition event_incoming :: "debug_config \<Rightarrow> string \<Rightarrow> string \<Rightarrow> event" where
  "event_incoming cfg component kind = event_new cfg SevDebug DirIn component kind"

definition event_local :: "debug_config \<Rightarrow> string \<Rightarrow> string \<Rightarrow> event" where
  "event_local cfg component kind = event_new cfg SevDebug DirLocal component kind"

definition event_info :: "debug_config \<Rightarrow> string \<Rightarrow> string \<Rightarrow> event" where
  "event_info cfg component kind = event_new cfg SevInfo DirLocal component kind"

definition event_warn :: "debug_config \<Rightarrow> string \<Rightarrow> string \<Rightarrow> event" where
  "event_warn cfg component kind = event_new cfg SevWarn DirLocal component kind"

definition will_emit :: "event \<Rightarrow> bool" where
  "will_emit e = (case lv_severity e of SevDebug \<Rightarrow> is_on (lv_cfg e) | SevInfo \<Rightarrow> True | SevWarn \<Rightarrow> True)"

definition event_id :: "string \<Rightarrow> event \<Rightarrow> event" where
  "event_id i e = e\<lparr>lv_id := Some i\<rparr>"

definition event_peer :: "string \<Rightarrow> event \<Rightarrow> event" where
  "event_peer p e = e\<lparr>lv_peer := Some p\<rparr>"

definition event_field :: "string \<Rightarrow> string \<Rightarrow> event \<Rightarrow> event" where
  "event_field k v e = (if will_emit e then e\<lparr>lv_fields := lv_fields e @ [(k, v)]\<rparr> else e)"

definition event_frame :: "string \<Rightarrow> event \<Rightarrow> event" where
  "event_frame rendered e =
     (if dc_level (lv_cfg e) = LevelNoisy then e\<lparr>lv_frame := Some rendered\<rparr> else e)"

text \<open>A value that does not serialize (\<open>None\<close>) drops the frame.\<close>

definition event_frame_of :: "json_lib \<Rightarrow> json option \<Rightarrow> event \<Rightarrow> event" where
  "event_frame_of lib v e =
     (if dc_level (lv_cfg e) = LevelNoisy then
        (case v of
           None \<Rightarrow> e
         | Some j \<Rightarrow> e\<lparr>lv_frame := Some (redact_hlr_tokens (jl_to_string lib j))\<rparr>)
      else e)"

record utc_time =
  ut_year :: int
  ut_month :: nat
  ut_day :: nat
  ut_hour :: nat
  ut_minute :: nat
  ut_second :: nat
  ut_microsecond :: nat

text \<open>\<open>{:0w}\<close> of an integer and \<open>{:<w}\<close> of a string.\<close>

definition zero_pad :: "nat \<Rightarrow> int \<Rightarrow> string" where
  "zero_pad w i =
     (if i < 0 then CHR ''-'' # replicate (w - 1 - length (show_nat (nat (- i)))) CHR ''0'' @ show_nat (nat (- i))
      else replicate (w - length (show_nat (nat i))) CHR ''0'' @ show_nat (nat i))"

definition pad_right :: "nat \<Rightarrow> string \<Rightarrow> string" where
  "pad_right w s = s @ replicate (w - length (utf8_chars s)) CHR '' ''"

definition emission_ts :: "utc_time \<Rightarrow> string" where
  "emission_ts now =
     zero_pad 4 (ut_year now) @ ''-'' @ zero_pad 2 (int (ut_month now)) @ ''-'' @ zero_pad 2 (int (ut_day now)) @
     ''T'' @ zero_pad 2 (int (ut_hour now)) @ '':'' @ zero_pad 2 (int (ut_minute now)) @ '':'' @
     zero_pad 2 (int (ut_second now)) @ ''.'' @ zero_pad 6 (int (ut_microsecond now)) @ ''Z''"

definition render_text :: "utc_time \<Rightarrow> event \<Rightarrow> string" where
  "render_text now e =
     emission_ts now @ '' '' @ severity_as_text (lv_severity e) @ '' '' @ direction_as_text (lv_dir e) @ '' '' @
     pad_right COMPONENT_COLUMN_WIDTH (lv_component e) @ '' '' @ pad_right TYPE_COLUMN_WIDTH (lv_kind e) @
     (case lv_id e of None \<Rightarrow> [] | Some i \<Rightarrow> '' id='' @ short i) @
     (case lv_peer e of None \<Rightarrow> [] | Some p \<Rightarrow> '' peer='' @ short p) @
     concat (map (\<lambda>(k, v). '' '' @ k @ ''='' @ v) (lv_fields e)) @
     (case lv_frame e of None \<Rightarrow> [] | Some f \<Rightarrow> '' '' @ f)"

text \<open>The members of a JSON line; the extra fields are a sorted map, a repeated key keeping its last value.\<close>

definition json_line_members :: "json_lib \<Rightarrow> utc_time \<Rightarrow> event \<Rightarrow> (string \<times> json option) list" where
  "json_line_members lib now e =
     [(''ts'', Some (JString (emission_ts now))), (''level'', Some (JString (severity_as_str (lv_severity e)))),
      (''verbosity'', Some (JString (debug_level_as_str (dc_level (lv_cfg e))))),
      (''component'', Some (JString (lv_component e))), (''dir'', map_option JString (direction_as_json (lv_dir e))),
      (''type'', Some (JString (lv_kind e))), (''id'', map_option JString (lv_id e)),
      (''peer'', map_option JString (lv_peer e))] @
     map (\<lambda>(k, j). (k, Some j)) (obj_of (map (\<lambda>(k, v). (k, JString v)) (lv_fields e))) @
     [(''frame'', map_option (\<lambda>raw. case jl_from_str lib raw of Inr j \<Rightarrow> j | Inl _ \<Rightarrow> JString raw) (lv_frame e))]"

definition render_json :: "json_lib \<Rightarrow> utc_time \<Rightarrow> event \<Rightarrow> string" where
  "render_json lib now e = jl_to_string lib (struct_json (json_line_members lib now e))"

text \<open>The line written to stderr.\<close>

definition emit :: "json_lib \<Rightarrow> utc_time \<Rightarrow> event \<Rightarrow> string option" where
  "emit lib now e =
     (if \<not> will_emit e then None
      else Some (case dc_format (lv_cfg e) of
                   FormatText \<Rightarrow> render_text now e
                 | FormatJson \<Rightarrow> render_json lib now e))"

text \<open>The line \<open>Registry::prompt\<close> logs when it sends a prompt.\<close>

definition trace_prompt ::
  "json_lib \<Rightarrow> debug_config \<Rightarrow> string \<Rightarrow> string \<Rightarrow> string \<Rightarrow> string \<Rightarrow> envelope \<Rightarrow> event" where
  "trace_prompt lib cfg prompt_id token_id session msg envelope =
     event_frame_of lib (envelope_json envelope)
       (event_field ''text'' msg
         (event_field ''session'' session
           (event_peer token_id (event_id prompt_id (event_outgoing cfg ''registry'' ''prompt'')))))"

text \<open>The line of a talk log whose file could not be written (\<open>TalkLog::warn_persist_failed\<close>).\<close>

definition warn_persist_failed :: "debug_config \<Rightarrow> string \<Rightarrow> string \<Rightarrow> event" where
  "warn_persist_failed cfg session e =
     event_field ''reason'' e
       (event_field ''session'' session
         (event_field ''event'' ''persist_failed'' (event_warn cfg ''talklog'' ''talklog'')))"

section \<open>Flag over environment\<close>

text \<open>
  The contract of both settings: a present flag decides alone, then the environment, then the
  default; an invalid value is an error naming that value and never turns into a default.
\<close>

locale setting =
  fixes parse :: "string \<Rightarrow> string + 'a" and resolve :: "string option \<Rightarrow> string option \<Rightarrow> string + 'a"
    and dflt :: 'a and name_of :: "'a \<Rightarrow> string"
  assumes resolve_none: "resolve None None = Inr dflt"
    and resolve_flag: "resolve (Some v) env = parse v"
    and resolve_env: "resolve None (Some v) = parse v"
    and parse_error: "parse v = Inl e \<Longrightarrow> e = v"
    and parse_name: "parse v = Inr x \<Longrightarrow> to_ascii_lowercase v = name_of x"
begin

definition winner :: "string option \<Rightarrow> string option \<Rightarrow> string option" where
  "winner flag env = (case flag of Some v \<Rightarrow> Some v | None \<Rightarrow> env)"

lemma resolve_cases:
  "(case resolve flag env of
      Inr x \<Rightarrow> (case winner flag env of None \<Rightarrow> x = dflt | Some v \<Rightarrow> to_ascii_lowercase v = name_of x)
    | Inl e \<Rightarrow> winner flag env = Some e \<and> parse e = Inl e)"
proof (cases flag)
  case (Some v)
  then show ?thesis
    using parse_error [of v] parse_name [of v] by (cases "parse v") (auto simp: winner_def resolve_flag)
next
  case None
  then show ?thesis
  proof (cases env)
    case (Some v)
    with None show ?thesis
      using parse_error [of v] parse_name [of v] by (cases "parse v") (auto simp: winner_def resolve_env)
  qed (simp add: winner_def resolve_none)
qed

end

interpretation level_setting: setting debug_level_parse debug_level_resolve LevelNone debug_level_as_str
  by unfold_locales
     (auto simp: debug_level_resolve_def debug_level_parse_def Let_def split: if_splits)

interpretation format_setting: setting log_format_parse log_format_resolve FormatText log_format_display
  by unfold_locales
     (auto simp: log_format_resolve_def log_format_parse_def Let_def split: if_splits)

section \<open>Lemmas\<close>

subsection \<open>Redaction\<close>

text \<open>Where token material starts: the prefix with at least one token character after it.\<close>

definition hlr_at :: "string \<Rightarrow> bool" where
  "hlr_at s \<longleftrightarrow> (\<exists>c t. s = HLR_PREFIX @ c # t \<and> is_token_char c)"

fun has_hlr_token :: "string \<Rightarrow> bool" where
  "has_hlr_token [] \<longleftrightarrow> False"
| "has_hlr_token (c # cs) \<longleftrightarrow> hlr_at (c # cs) \<or> has_hlr_token cs"

text \<open>The loop, character by character.\<close>

function scrub :: "string \<Rightarrow> string" where
  "scrub s =
     (if prefix HLR_PREFIX s then
        let a = drop (length HLR_PREFIX) s
        in (if takeWhile is_token_char a = [] then HLR_PREFIX else REDACTED) @ scrub (dropWhile is_token_char a)
      else case s of [] \<Rightarrow> [] | c # cs \<Rightarrow> c # scrub cs)"
  by pat_completeness auto
termination
proof (relation "measure length")
  fix s a assume "prefix HLR_PREFIX s" "a = drop (length HLR_PREFIX) s"
  then have "length a < length s" by (auto simp: prefix_def HLR_PREFIX_def)
  then show "(dropWhile is_token_char a, s) \<in> measure length"
    using length_dropWhile_le [of is_token_char a] by simp
qed auto

declare scrub.simps [simp del]

lemma scrub_Nil [simp]: "scrub [] = []"
  by (simp add: scrub.simps [of "[]"] HLR_PREFIX_def)

lemma scrub_skip: "\<not> prefix HLR_PREFIX (c # cs) \<Longrightarrow> scrub (c # cs) = c # scrub cs"
  by (simp add: scrub.simps [of "c # cs"])

lemma scrub_match:
  "scrub (HLR_PREFIX @ a) =
     (if takeWhile is_token_char a = [] then HLR_PREFIX else REDACTED) @ scrub (dropWhile is_token_char a)"
  by (simp add: scrub.simps [of "HLR_PREFIX @ a"] Let_def)

lemma scrub_find:
  "scrub s =
     (case find_sub HLR_PREFIX s of
        None \<Rightarrow> s
      | Some i \<Rightarrow> take i s @ scrub (drop i s))"
  by (induction s) (auto simp: scrub_skip HLR_PREFIX_def split: option.splits)

lemma find_sub_prefix: "find_sub p s = Some i \<Longrightarrow> prefix p (drop i s)"
  by (induction s arbitrary: i) (auto split: if_splits)

lemma drop_takeWhile: "drop (length (takeWhile P xs)) xs = dropWhile P xs"
  by (induction xs) simp_all

lemma redact_loop_scrub: "redact_hlr_loop result rest = result @ scrub rest"
proof (induction result rest rule: redact_hlr_loop.induct)
  case (1 result rest)
  show ?case
  proof (cases "find_sub HLR_PREFIX rest")
    case None
    then show ?thesis by (simp add: redact_hlr_loop.simps [of result] scrub_find [of rest])
  next
    case (Some start)
    then obtain a where a: "drop start rest = HLR_PREFIX @ a"
      using find_sub_prefix [OF Some] by (auto simp: prefix_def)
    then have after: "drop (start + length HLR_PREFIX) rest = a"
      by (metis add.commute append_eq_conv_conj drop_drop)
    have "scrub rest = take start rest @ scrub (HLR_PREFIX @ a)"
      using Some a by (simp add: scrub_find [of rest])
    with 1 [OF Some refl refl] Some after show ?thesis
      by (simp add: redact_hlr_loop.simps [of result] Let_def drop_takeWhile scrub_match)
  qed
qed

lemma not_token_bracket: "\<not> is_token_char (CHR ''['')"
  by code_simp

text \<open>A character of the result that is not an opening bracket is the text's own.\<close>

lemma scrub_Cons:
  assumes "scrub s = x # t" "x \<noteq> CHR ''[''"
  shows "\<exists>s'. s = x # s' \<and> (x \<noteq> CHR ''h'' \<longrightarrow> t = scrub s')"
proof (cases "prefix HLR_PREFIX s")
  case True
  then obtain a where "s = HLR_PREFIX @ a" by (auto simp: prefix_def)
  with assms scrub_match [of a] show ?thesis by (auto simp: HLR_PREFIX_def REDACTED_def split: if_splits)
next
  case False
  with assms show ?thesis by (cases s) (auto simp: scrub_skip)
qed

lemma hlr_at_skip: "\<not> prefix HLR_PREFIX (c # cs) \<Longrightarrow> \<not> hlr_at (c # scrub cs)"
proof
  assume no: "\<not> prefix HLR_PREFIX (c # cs)" and "hlr_at (c # scrub cs)"
  then obtain d t where c: "c = CHR ''h''" and s: "scrub cs = ''lr_'' @ d # t"
    by (auto simp: hlr_at_def HLR_PREFIX_def)
  from s obtain c1 where c1: "cs = CHR ''l'' # c1" "scrub c1 = ''r_'' @ d # t"
    using scrub_Cons [of cs "CHR ''l''"] by auto
  then obtain c2 where c2: "c1 = CHR ''r'' # c2" "scrub c2 = ''_'' @ d # t"
    using scrub_Cons [of c1 "CHR ''r''"] by auto
  then obtain c3 where "c2 = CHR ''_'' # c3"
    using scrub_Cons [of c2 "CHR ''_''"] by auto
  with c c1 c2 no show False by (simp add: HLR_PREFIX_def)
qed

lemma has_hlr_token_Cons: "c \<noteq> CHR ''h'' \<Longrightarrow> has_hlr_token (c # cs) = has_hlr_token cs"
  by (simp add: hlr_at_def HLR_PREFIX_def)

lemma scrub_clean: "\<not> has_hlr_token (scrub s)"
proof (induction s rule: scrub.induct)
  case (1 s)
  show ?case
  proof (cases "prefix HLR_PREFIX s")
    case True
    then obtain a where s: "s = HLR_PREFIX @ a" by (auto simp: prefix_def)
    have IH: "\<not> has_hlr_token (scrub (dropWhile is_token_char a))" using 1(1) [OF True refl] s by simp
    show ?thesis
    proof (cases "takeWhile is_token_char a = []")
      case True
      then have a: "dropWhile is_token_char a = a" "a = [] \<or> \<not> is_token_char (hd a)"
        by (cases a; auto split: if_splits)+
      have "\<not> hlr_at (HLR_PREFIX @ scrub a)"
      proof
        assume "hlr_at (HLR_PREFIX @ scrub a)"
        then obtain c t where c: "scrub a = c # t" "is_token_char c" by (auto simp: hlr_at_def)
        with not_token_bracket have "c \<noteq> CHR ''[''" by auto
        with scrub_Cons [OF c(1)] a(2) c(2) show False by auto
      qed
      moreover have "scrub s = HLR_PREFIX @ scrub a" using s True a by (simp add: scrub_match)
      ultimately show ?thesis using IH a by (auto simp: HLR_PREFIX_def hlr_at_def)
    next
      case False
      then have "scrub s = REDACTED @ scrub (dropWhile is_token_char a)" using s by (simp add: scrub_match)
      with IH show ?thesis by (simp add: REDACTED_def has_hlr_token_Cons del: has_hlr_token.simps)
    qed
  next
    case False
    with 1(2) [OF False] show ?thesis by (cases s) (simp_all add: scrub_skip hlr_at_skip)
  qed
qed

lemma scrub_unchanged: "\<not> has_hlr_token s \<Longrightarrow> scrub s = s"
proof (induction s rule: scrub.induct)
  case (1 s)
  show ?case
  proof (cases "prefix HLR_PREFIX s")
    case True
    then obtain a where s: "s = HLR_PREFIX @ a" by (auto simp: prefix_def)
    with "1.prems" have "\<not> hlr_at (HLR_PREFIX @ a)" and a: "\<not> has_hlr_token a" by (auto simp: HLR_PREFIX_def)
    then have "takeWhile is_token_char a = []" "dropWhile is_token_char a = a"
      by (cases a; auto simp: hlr_at_def)+
    with 1(1) [OF True refl] s a show ?thesis by (simp add: scrub_match)
  next
    case False
    with 1(2) [OF False] "1.prems" show ?thesis by (cases s) (auto simp: scrub_skip)
  qed
qed

text \<open>Replacement: a bracket-free start of the result is a start of the text.\<close>

lemma replace_all_Nil [simp]: "replace_all p q [] = []"
  by (simp add: replace_all.simps [of p q "[]"])

lemma replace_all_skip: "\<not> prefix p (c # cs) \<Longrightarrow> replace_all p q (c # cs) = c # replace_all p q cs"
  by (simp add: replace_all.simps [of p q "c # cs"])

lemma replace_all_match: "p \<noteq> [] \<Longrightarrow> replace_all p q (p @ t) = q @ replace_all p q t"
  by (simp add: replace_all.simps [of p q "p @ t"])

lemma replace_all_prefix:
  assumes "prefix p' (replace_all p REDACTED s)" "CHR ''['' \<notin> set p'" "p \<noteq> []"
  shows "prefix p' s"
  using assms
proof (induction p' arbitrary: s)
  case (Cons x p')
  show ?case
  proof (cases "prefix p s")
    case True
    then obtain t where "s = p @ t" by (auto simp: prefix_def)
    with Cons.prems show ?thesis by (auto simp: replace_all_match REDACTED_def)
  next
    case False
    with Cons show ?thesis by (cases s) (auto simp: replace_all_skip)
  qed
qed simp

lemma sublist_Cons_iff: "sublist p (c # cs) \<longleftrightarrow> prefix p (c # cs) \<or> sublist p cs"
  by (rule sublist_Cons_right)

lemma sublist_widen: "sublist p t \<Longrightarrow> sublist p (s @ t)" "sublist p s \<Longrightarrow> sublist p (s @ t)"
  by (simp_all add: sublist_append)

lemma prefix_in_redacted:
  assumes "prefix p (w @ CHR '']'' # t)" "CHR '']'' \<notin> set p"
  shows "prefix p w"
  using assms
proof (induction p arbitrary: w)
  case (Cons x p)
  show ?case
  proof (cases w)
    case (Cons y w')
    then show ?thesis using Cons.prems Cons.IH [of w'] by simp
  qed (use Cons.prems in auto)
qed simp

lemma redacted_hides:
  assumes "sublist p (REDACTED @ t)" "p \<noteq> []" "CHR ''['' \<notin> set p" "CHR '']'' \<notin> set p"
    and "\<not> sublist p ''redacted''"
  shows "sublist p t"
proof -
  have "\<not> sublist p (w @ CHR '']'' # t)" if "\<not> sublist p t" "suffix w ''redacted''" for w
    using that
  proof (induction w)
    case Nil
    then show ?case using assms(2,4) by (cases p) (auto simp: sublist_Cons_iff)
  next
    case (Cons c w)
    have "suffix w ''redacted''" using Cons.prems(2) by (rule suffix_ConsD)
    moreover have "\<not> prefix p (c # w)"
      using assms(5) sublist_order.order_trans [OF prefix_imp_sublist suffix_imp_sublist [OF Cons.prems(2)]] by blast
    ultimately show ?case
      using Cons prefix_in_redacted [of p "c # w" t] assms(4) by (auto simp: sublist_Cons_iff)
  qed
  from this [of "''redacted''"] have "sublist p t \<or> \<not> sublist p (''redacted'' @ CHR '']'' # t)"
    by (metis suffix_order.order_refl)
  moreover have "sublist p (''redacted'' @ CHR '']'' # t)"
    using assms(1-3) unfolding REDACTED_def by (cases p) (auto simp: sublist_Cons_iff [of _ "CHR ''[''"])
  ultimately show ?thesis by blast
qed

subsection \<open>Time stamps\<close>

lemma append_less_append:
  fixes xs ys us vs :: string
  assumes "length xs = length ys"
  shows "xs @ us < ys @ vs \<longleftrightarrow> xs < ys \<or> xs = ys \<and> us < vs"
  using assms by (induction xs ys rule: list_induct2) auto

text \<open>The \<open>w\<close> last decimal digits.\<close>

fun digits :: "nat \<Rightarrow> nat \<Rightarrow> string" where
  "digits 0 n = []"
| "digits (Suc w) n = digits w (n div 10) @ [char_of (48 + n mod 10)]"

lemma length_digits [simp]: "length (digits w n) = w"
  by (induction w arbitrary: n) simp_all

lemma digits_zero: "digits w 0 = replicate w CHR ''0''"
proof (induction w)
  case (Suc w)
  have "char_of (48 :: nat) = CHR ''0''" by code_simp
  with Suc show ?case by (simp add: replicate_append_same)
qed simp

lemma show_nat_digits_eq:
  assumes "n < 10 ^ w" "0 < w"
  shows "replicate (w - length (show_nat n)) CHR ''0'' @ show_nat n = digits w n \<and> length (show_nat n) \<le> w"
  using assms
proof (induction w arbitrary: n)
  case (Suc w)
  show ?case
  proof (cases "n < 10")
    case True
    then show ?thesis by (simp add: show_nat.simps [of n] digits_zero)
  next
    case False
    with Suc.prems have "0 < w" "n div 10 < 10 ^ w" by (auto intro: gr0I)
    with Suc.IH [of "n div 10"] False show ?thesis by (simp add: show_nat.simps [of n])
  qed
qed simp

lemma zero_pad_digits: "n < 10 ^ w \<Longrightarrow> 0 < w \<Longrightarrow> zero_pad w (int n) = digits w n"
  using show_nat_digits_eq [of n w] by (simp add: zero_pad_def)

lemma digit_compare:
  fixes d e :: nat
  assumes "d < 10" "e < 10"
  shows "(char_of (48 + d) :: char) < char_of (48 + e) \<longleftrightarrow> d < e"
    and "(char_of (48 + d) :: char) = char_of (48 + e) \<longleftrightarrow> d = e"
proof -
  have "of_char (char_of (48 + d)) = 48 + d" "of_char (char_of (48 + e)) = 48 + e"
    using assms by simp_all
  then show "(char_of (48 + d) :: char) < char_of (48 + e) \<longleftrightarrow> d < e"
    and "(char_of (48 + d) :: char) = char_of (48 + e) \<longleftrightarrow> d = e"
    by (metis less_char_def nat_add_left_cancel_less, metis add_left_cancel)
qed

lemma singleton_less: "[a] < [b] \<longleftrightarrow> a < (b :: char)"
  by (simp only: Cons_less_Cons) simp

lemma decimal_compare:
  fixes q r q' r' :: nat
  assumes "r < 10" "r' < 10"
  shows "q < q' \<or> q = q' \<and> r < r' \<longleftrightarrow> q * 10 + r < q' * 10 + r'"
    and "q = q' \<and> r = r' \<longleftrightarrow> q * 10 + r = q' * 10 + r'"
  using assms by (cases q q' rule: linorder_cases; auto)+

lemma digits_compare:
  assumes "n < 10 ^ w" "m < 10 ^ w"
  shows "(digits w n < digits w m \<longleftrightarrow> n < m) \<and> (digits w n = digits w m \<longleftrightarrow> n = m)"
  using assms
proof (induction w arbitrary: n m)
  case (Suc w)
  have "n div 10 < 10 ^ w" "m div 10 < 10 ^ w"
    using Suc.prems by (simp_all add: less_mult_imp_div_less mult.commute)
  note IH = Suc.IH [OF this]
  have digit: "n mod 10 < 10" "m mod 10 < 10" by simp_all
  have "digits (Suc w) n < digits (Suc w) m \<longleftrightarrow>
      n div 10 < m div 10 \<or> n div 10 = m div 10 \<and> n mod 10 < m mod 10"
    by (simp only: digits.simps append_less_append length_digits singleton_less IH digit_compare [OF digit])
  also have "\<dots> \<longleftrightarrow> n < m"
    using decimal_compare(1) [OF digit, of "n div 10" "m div 10"] by (simp only: div_mult_mod_eq)
  finally have less: "digits (Suc w) n < digits (Suc w) m \<longleftrightarrow> n < m" .
  have "digits (Suc w) n = digits (Suc w) m \<longleftrightarrow> n div 10 = m div 10 \<and> n mod 10 = m mod 10"
    by (simp only: digits.simps append1_eq_conv IH digit_compare [OF digit])
  also have "\<dots> \<longleftrightarrow> n = m"
    using decimal_compare(2) [OF digit, of "n div 10" "m div 10"] by (simp only: div_mult_mod_eq)
  finally show ?case using less by simp
qed simp

text \<open>Calendar fields as the \<open>time\<close> library hands them out, for years the format is fixed-width in.\<close>

definition time_wf :: "utc_time \<Rightarrow> bool" where
  "time_wf t \<longleftrightarrow> 0 \<le> ut_year t \<and> ut_year t < 10000 \<and> ut_month t < 100 \<and> ut_day t < 100 \<and>
     ut_hour t < 100 \<and> ut_minute t < 100 \<and> ut_second t < 100 \<and> ut_microsecond t < 1000000"

definition time_key :: "utc_time \<Rightarrow> nat list" where
  "time_key t =
     [nat (ut_year t), ut_month t, ut_day t, ut_hour t, ut_minute t, ut_second t, ut_microsecond t]"

lemma emission_ts_digits:
  assumes "time_wf t"
  shows "emission_ts t =
     digits 4 (nat (ut_year t)) @ ''-'' @ digits 2 (ut_month t) @ ''-'' @ digits 2 (ut_day t) @
     ''T'' @ digits 2 (ut_hour t) @ '':'' @ digits 2 (ut_minute t) @ '':'' @ digits 2 (ut_second t) @
     ''.'' @ digits 6 (ut_microsecond t) @ ''Z''"
proof -
  have "zero_pad 4 (ut_year t) = digits 4 (nat (ut_year t))"
    using assms zero_pad_digits [of "nat (ut_year t)" 4] by (simp add: time_wf_def nat_less_iff)
  moreover have "zero_pad 2 (int (ut_month t)) = digits 2 (ut_month t)" "zero_pad 2 (int (ut_day t)) = digits 2 (ut_day t)"
    "zero_pad 2 (int (ut_hour t)) = digits 2 (ut_hour t)" "zero_pad 2 (int (ut_minute t)) = digits 2 (ut_minute t)"
    "zero_pad 2 (int (ut_second t)) = digits 2 (ut_second t)"
    "zero_pad 6 (int (ut_microsecond t)) = digits 6 (ut_microsecond t)"
    using assms by (intro zero_pad_digits; simp add: time_wf_def)+
  ultimately show ?thesis by (simp only: emission_ts_def)
qed

text \<open>Blocks of equal width with equal separators compare field by field.\<close>

lemma block_less:
  assumes "n < 10 ^ w" "m < 10 ^ w"
  shows "digits w n @ [c] @ s < digits w m @ [c] @ t \<longleftrightarrow> n < m \<or> n = m \<and> s < t"
  using digits_compare [OF assms] by (simp add: append_less_append)

section \<open>Properties\<close>

text \<open>
  C38: logged frames carry no token material.  At \<open>noisy\<close>, whatever value is logged as a frame, the
  text kept for the line contains no \<open>hlr_\<close> followed by a token character, and it is the serialized
  value itself when that had none; at every other level no frame is kept.
\<close>

theorem log_frames_redacted:
  "case lv_frame (event_frame_of lib v (event_new cfg sev dir component kind)) of
     None \<Rightarrow> dc_level cfg = LevelNone \<or> dc_level cfg = LevelQuiet \<or> v = None
   | Some f \<Rightarrow>
       dc_level cfg = LevelNoisy \<and> \<not> has_hlr_token f \<and>
       (\<exists>j. v = Some j \<and> (f = jl_to_string lib j \<longleftrightarrow> \<not> has_hlr_token (jl_to_string lib j)))"
proof (cases v)
  case (Some j)
  have "redact_hlr_tokens s = s \<longleftrightarrow> \<not> has_hlr_token s" for s
    using scrub_clean [of s] scrub_unchanged [of s] by (auto simp: redact_hlr_tokens_def redact_loop_scrub)
  with Some scrub_clean show ?thesis
    by (cases "dc_level cfg") (auto simp: event_frame_of_def event_new_def redact_hlr_tokens_def redact_loop_scrub)
qed (simp add: event_frame_of_def event_new_def)

text \<open>
  Scrubbing a known secret leaves no occurrence of it in the text, also none formed across a
  replacement, for every secret without square brackets that does not occur in the word \<open>redacted\<close>.
\<close>

lemma redact_secret_scrubs:
  assumes "secret \<noteq> []" and "CHR ''['' \<notin> set secret" and "CHR '']'' \<notin> set secret"
    and "\<not> sublist secret ''redacted''"
  shows "\<not> sublist secret (redact_secret s secret)"
proof -
  have "\<not> sublist secret (replace_all secret REDACTED s)"
  proof (induction "length s" arbitrary: s rule: less_induct)
    case less
    show ?case
    proof (cases "prefix secret s")
      case True
      then obtain t where s: "s = secret @ t" by (auto simp: prefix_def)
      with assms(1) less [of t] show ?thesis
        using redacted_hides [of secret "replace_all secret REDACTED t"] assms by (auto simp: replace_all_match)
    next
      case False
      show ?thesis
      proof (cases s)
        case (Cons c cs)
        have "\<not> prefix secret (c # replace_all secret REDACTED cs)"
          using False Cons assms(1,2) replace_all_prefix [of "tl secret" secret cs]
          by (cases secret) auto
        with False Cons less [of cs] show ?thesis by (simp add: replace_all_skip sublist_Cons_iff)
      qed (use assms(1) in simp)
    qed
  qed
  with assms(1) show ?thesis by (simp add: redact_secret_def)
qed

lemma redact_secret_scrubs_at_work:
  "\<not> sublist ''s3cret'' (redact_secret ''key=s3cret;s3cret'' ''s3cret'')"
  using redact_secret_scrubs [of "''s3cret''" "''key=s3cret;s3cret''"] by (simp add: sublist_Cons_right)

text \<open>
  C39: a log can be sorted by its emission time stamps.  For the years 0 to 9999 every stamp is 27
  characters long and comparing stamps as text compares the moments, field by field.
\<close>

theorem emission_ts_sortable:
  assumes "time_wf a" and "time_wf b"
  shows "length (emission_ts a) = 27 \<and> (emission_ts a < emission_ts b \<longleftrightarrow> time_key a < time_key b)"
proof -
  have bounds: "nat (ut_year t) < 10 ^ 4" "ut_month t < 10 ^ 2" "ut_day t < 10 ^ 2" "ut_hour t < 10 ^ 2"
    "ut_minute t < 10 ^ 2" "ut_second t < 10 ^ 2" "ut_microsecond t < 10 ^ 6" if "time_wf t" for t
    using that by (simp_all add: time_wf_def nat_less_iff)
  note blocks = block_less [OF bounds(1) [OF assms(1)] bounds(1) [OF assms(2)]]
    block_less [OF bounds(2) [OF assms(1)] bounds(2) [OF assms(2)]]
    block_less [OF bounds(3) [OF assms(1)] bounds(3) [OF assms(2)]]
    block_less [OF bounds(4) [OF assms(1)] bounds(4) [OF assms(2)]]
    block_less [OF bounds(5) [OF assms(1)] bounds(5) [OF assms(2)]]
    block_less [OF bounds(6) [OF assms(1)] bounds(6) [OF assms(2)]]
    block_less [OF bounds(7) [OF assms(1)] bounds(7) [OF assms(2)], of _ "[]" "[]"]
  have "emission_ts a < emission_ts b \<longleftrightarrow> time_key a < time_key b"
    unfolding emission_ts_digits [OF assms(1)] emission_ts_digits [OF assms(2)] time_key_def Cons_less_Cons
    using blocks(7) [of "CHR ''Z''"] by (simp only: blocks(1-6) append_Nil2 less_irrefl simp_thms)
  moreover have "length (emission_ts a) = 27"
    by (simp only: emission_ts_digits [OF assms(1)] length_append length_digits) simp
  ultimately show ?thesis by simp
qed

text \<open>
  A lost write is always reported: at every level and in both formats a line is written, it is a
  warning, and it carries the session and the reason.
\<close>

lemma persist_failure_always_logged:
  "emit lib now (warn_persist_failed cfg session e) \<noteq> None \<and>
   lv_severity (warn_persist_failed cfg session e) = SevWarn \<and>
   lv_fields (warn_persist_failed cfg session e) =
     [(''event'', ''persist_failed''), (''session'', session), (''reason'', e)]"
  by (simp add: warn_persist_failed_def emit_def event_field_def event_warn_def event_new_def will_emit_def)

text \<open>
  Message text is logged in the clear.  At every level but \<open>none\<close> the text-format line for an
  outgoing prompt contains the prompt's text unchanged, token material included: only frames are
  redacted, fields are not.
\<close>

lemma prompt_text_logged_in_clear:
  assumes "dc_level cfg \<noteq> LevelNone" and "dc_format cfg = FormatText"
  shows "\<exists>line. emit lib now (trace_prompt lib cfg prompt_id token_id session msg e) = Some line \<and> sublist msg line"
proof -
  let ?e = "trace_prompt lib cfg prompt_id token_id session msg e"
  have cfg: "lv_cfg ?e = cfg" "lv_severity ?e = SevDebug"
    by (auto simp: trace_prompt_def event_frame_of_def event_field_def event_peer_def event_id_def
        event_outgoing_def event_new_def split: option.splits)
  have "lv_fields ?e = [(''session'', session), (''text'', msg)]"
    using assms(1)
    by (auto simp: trace_prompt_def event_frame_of_def event_field_def event_peer_def event_id_def
        event_outgoing_def event_new_def will_emit_def is_on_def split: option.splits)
  then have "concat (map (\<lambda>(k, v). '' '' @ k @ ''='' @ v) (lv_fields ?e)) =
      ('' session='' @ session @ '' text='') @ msg"
    by simp
  then have "sublist msg (concat (map (\<lambda>(k, v). '' '' @ k @ ''='' @ v) (lv_fields ?e)))"
    by (simp only: sublist_append_leftI)
  then have "sublist msg (render_text now ?e)"
    unfolding render_text_def append_assoc [symmetric]
    by (intro sublist_widen(2) [OF sublist_widen(1)])
  with cfg assms show ?thesis by (simp add: emit_def will_emit_def is_on_def)
qed

lemma prompt_text_logged_in_clear_at_work:
  "\<exists>line. emit (demo_lib JNull)
      \<lparr>ut_year = 2026, ut_month = 1, ut_day = 31, ut_hour = 23, ut_minute = 59, ut_second = 59, ut_microsecond = 7\<rparr>
      (trace_prompt (demo_lib JNull) \<lparr>dc_level = LevelQuiet, dc_format = FormatText\<rparr> ''p1'' ''tok_1'' ''alpha''
         ''use hlr_live_00ff'' demo_prompt) = Some line \<and> sublist ''use hlr_live_00ff'' line"
  by (rule prompt_text_logged_in_clear) simp_all

theorem emission_ts_sortable_witness:
  "length (emission_ts \<lparr>ut_year = 2026, ut_month = 1, ut_day = 31, ut_hour = 23, ut_minute = 59, ut_second = 59,
                        ut_microsecond = 7\<rparr>) = 27 \<and>
   emission_ts \<lparr>ut_year = 2026, ut_month = 1, ut_day = 31, ut_hour = 23, ut_minute = 59, ut_second = 59,
                ut_microsecond = 7\<rparr> <
   emission_ts \<lparr>ut_year = 2026, ut_month = 2, ut_day = 1, ut_hour = 0, ut_minute = 0, ut_second = 0,
                ut_microsecond = 0\<rparr>"
  using emission_ts_sortable
    [of "\<lparr>ut_year = 2026, ut_month = 1, ut_day = 31, ut_hour = 23, ut_minute = 59, ut_second = 59,
          ut_microsecond = 7\<rparr>"
        "\<lparr>ut_year = 2026, ut_month = 2, ut_day = 1, ut_hour = 0, ut_minute = 0, ut_second = 0,
          ut_microsecond = 0\<rparr>"]
  by (simp add: time_wf_def time_key_def)

end
