(* ===== verification/Address.thy ===== *)
theory Address
  imports Prelude "HOL-Library.Monad_Syntax"
begin

unbundle bit_operations_syntax

text \<open>
  Socket addresses with the standard library's text forms, and the listen specification of
  \<open>src/src/wire/mod.rs\<close>: the library's recursive descent parser on the left-over input (a reader
  that fails consumes nothing), and its \<open>Display\<close>.  An IPv6 address has eight groups.
\<close>

section \<open>Socket addresses\<close>

datatype ip_addr = IpV4 u8 u8 u8 u8 | IpV6 "u16 list"

record socket_addr =
  sa_ip :: ip_addr
  sa_scope :: u32
  sa_port :: u16

definition LOCALHOST :: ip_addr where
  "LOCALHOST = IpV4 127 0 0 1"

fun is_loopback :: "ip_addr \<Rightarrow> bool" where
  "is_loopback (IpV4 a b c d) \<longleftrightarrow> a = 127"
| "is_loopback (IpV6 gs) \<longleftrightarrow> gs = [0, 0, 0, 0, 0, 0, 0, 1]"

fun is_unspecified :: "ip_addr \<Rightarrow> bool" where
  "is_unspecified (IpV4 a b c d) \<longleftrightarrow> a = 0 \<and> b = 0 \<and> c = 0 \<and> d = 0"
| "is_unspecified (IpV6 gs) \<longleftrightarrow> gs = [0, 0, 0, 0, 0, 0, 0, 0]"

subsection \<open>Display\<close>

definition hex_char :: "nat \<Rightarrow> char" where
  "hex_char n = char_of (if n < 10 then 48 + n else 87 + n)"

fun show_hex :: "nat \<Rightarrow> string" where
  "show_hex n = (if n < 16 then [hex_char n] else show_hex (n div 16) @ [hex_char (n mod 16)])"

declare show_hex.simps [simp del]

definition show_ipv4 :: "u8 \<Rightarrow> u8 \<Rightarrow> u8 \<Rightarrow> u8 \<Rightarrow> string" where
  "show_ipv4 a b c d =
     show_nat (unat a) @ ''.'' @ show_nat (unat b) @ ''.'' @ show_nat (unat c) @ ''.'' @ show_nat (unat d)"

fun show_groups :: "u16 list \<Rightarrow> string" where
  "show_groups [] = []"
| "show_groups [g] = show_hex (unat g)"
| "show_groups (g # gs) = show_hex (unat g) @ '':'' @ show_groups gs"

text \<open>The first longest run of zero groups, as start and length, by one pass over the groups.\<close>

fun zero_span :: "nat \<Rightarrow> u16 list \<Rightarrow> nat \<times> nat \<Rightarrow> nat \<times> nat \<Rightarrow> nat \<times> nat" where
  "zero_span i [] cur best = best"
| "zero_span i (g # gs) cur best =
     (if g = 0 then
        (let cur = (if snd cur = 0 then i else fst cur, snd cur + 1)
         in zero_span (i + 1) gs cur (if snd cur > snd best then cur else best))
      else zero_span (i + 1) gs (0, 0) best)"

definition show_ipv6 :: "u16 list \<Rightarrow> string" where
  "show_ipv6 gs =
     (if take 6 gs = [0, 0, 0, 0, 0, 0xffff] then
        (let ab = gs ! 6; cd = gs ! 7
         in ''::ffff:'' @ show_ipv4 (ucast (drop_bit 8 ab)) (ucast ab) (ucast (drop_bit 8 cd)) (ucast cd))
      else
        (case zero_span 0 gs (0, 0) (0, 0) of
           (start, len) \<Rightarrow>
             if len > 1 then show_groups (take start gs) @ ''::'' @ show_groups (drop (start + len) gs)
             else show_groups gs))"

fun show_socket_addr :: "socket_addr \<Rightarrow> string" where
  "show_socket_addr a =
     (case sa_ip a of
        IpV4 p q r s \<Rightarrow> show_ipv4 p q r s
      | IpV6 gs \<Rightarrow>
          ''['' @ show_ipv6 gs @ (if sa_scope a = 0 then [] else ''%'' @ show_nat (unat (sa_scope a))) @ '']'') @
     '':'' @ show_nat (unat (sa_port a))"

subsection \<open>Parsing\<close>

type_synonym 'a reader = "string \<Rightarrow> ('a \<times> string) option"

definition to_digit :: "nat \<Rightarrow> char \<Rightarrow> nat option" where
  "to_digit radix c =
     (let b = byte_of c;
          v = (if 48 \<le> b \<and> b \<le> 57 then Some (b - 48)
               else if 97 \<le> b \<and> b \<le> 122 then Some (b - 87)
               else if 65 \<le> b \<and> b \<le> 90 then Some (b - 55)
               else None)
      in Option.bind v (\<lambda>d. if d < radix then Some d else None))"

definition read_given_char :: "char \<Rightarrow> unit reader" where
  "read_given_char c s = (case s of x # r \<Rightarrow> if x = c then Some ((), r) else None | [] \<Rightarrow> None)"

definition digit_run :: "nat \<Rightarrow> string \<Rightarrow> string" where
  "digit_run radix s = takeWhile (\<lambda>c. to_digit radix c \<noteq> None) s"

definition run_value :: "nat \<Rightarrow> string \<Rightarrow> nat" where
  "run_value radix ds = foldl (\<lambda>n c. radix * n + the (to_digit radix c)) 0 ds"

text \<open>
  A number of type \<open>T\<close> (of \<open>w\<close> bits): with a digit limit the value is converted at the end,
  without one the arithmetic is checked; both fail exactly when the value needs more bits.
\<close>

definition read_number :: "nat \<Rightarrow> nat option \<Rightarrow> bool \<Rightarrow> nat \<Rightarrow> nat reader" where
  "read_number radix max_digits allow_zero_prefix w s =
     (let ds = digit_run radix s; v = run_value radix ds
      in if (case max_digits of Some m \<Rightarrow> length ds > m | None \<Rightarrow> False) then None
         else if ds = [] \<or> (\<not> allow_zero_prefix \<and> hd ds = CHR ''0'' \<and> length ds > 1) \<or> v \<ge> 2 ^ w then None
         else Some (v, drop (length ds) s))"

definition read_separator :: "char \<Rightarrow> bool \<Rightarrow> 'a reader \<Rightarrow> 'a reader" where
  "read_separator sep first inner s =
     (if first then inner s else Option.bind (read_given_char sep s) (\<lambda>(_, r). inner r))"

definition read_octet :: "bool \<Rightarrow> nat reader" where
  "read_octet first = read_separator CHR ''.'' first (read_number 10 (Some 3) False 8)"

definition read_ipv4_addr :: "(u8 \<times> u8 \<times> u8 \<times> u8) reader" where
  "read_ipv4_addr s =
     do { (a, r) \<leftarrow> read_octet True s;
          (b, r) \<leftarrow> read_octet False r;
          (c, r) \<leftarrow> read_octet False r;
          (d, r) \<leftarrow> read_octet False r;
          Some ((of_nat a, of_nat b, of_nat c, of_nat d), r) }"

text \<open>Up to \<open>k\<close> groups; the flag says that the last two came from an embedded IPv4 address.\<close>

fun read_groups :: "bool \<Rightarrow> nat \<Rightarrow> string \<Rightarrow> u16 list \<times> bool \<times> string" where
  "read_groups first 0 s = ([], False, s)"
| "read_groups first (Suc k) s =
     (case (if k \<ge> 1 then read_separator CHR '':'' first read_ipv4_addr s else None) of
        Some ((a, b, c, d), r) \<Rightarrow>
          ([push_bit 8 (ucast a) OR ucast b, push_bit 8 (ucast c) OR ucast d], True, r)
      | None \<Rightarrow>
          (case read_separator CHR '':'' first (read_number 16 (Some 4) True 16) s of
             None \<Rightarrow> ([], False, s)
           | Some (g, r) \<Rightarrow> (case read_groups False k r of (gs, v4, r') \<Rightarrow> (of_nat g # gs, v4, r'))))"

definition read_ipv6_addr :: "u16 list reader" where
  "read_ipv6_addr s =
     (case read_groups True 8 s of
        (head, v4, r) \<Rightarrow>
          if length head = 8 then Some (head, r)
          else if v4 then None
          else
            do { (_, r) \<leftarrow> read_given_char CHR '':'' r;
                 (_, r) \<leftarrow> read_given_char CHR '':'' r;
                 (case read_groups True (8 - (length head + 1)) r of
                    (tail, _, r) \<Rightarrow> Some (head @ replicate (8 - length head - length tail) 0 @ tail, r)) })"

definition read_port :: "nat reader" where
  "read_port s = Option.bind (read_given_char CHR '':'' s) (\<lambda>(_, r). read_number 10 None True 16 r)"

definition read_scope_id :: "nat reader" where
  "read_scope_id s = Option.bind (read_given_char CHR ''%'' s) (\<lambda>(_, r). read_number 10 None True 32 r)"

definition read_socket_addr_v4 :: "socket_addr reader" where
  "read_socket_addr_v4 s =
     do { ((a, b, c, d), r) \<leftarrow> read_ipv4_addr s;
          (port, r) \<leftarrow> read_port r;
          Some (\<lparr>sa_ip = IpV4 a b c d, sa_scope = 0, sa_port = of_nat port\<rparr>, r) }"

definition read_socket_addr_v6 :: "socket_addr reader" where
  "read_socket_addr_v6 s =
     do { (_, r) \<leftarrow> read_given_char CHR ''['' s;
          (ip, r) \<leftarrow> read_ipv6_addr r;
          (case (case read_scope_id r of Some (n, r') \<Rightarrow> (n, r') | None \<Rightarrow> (0, r)) of
             (scope, r) \<Rightarrow>
               do { (_, r) \<leftarrow> read_given_char CHR '']'' r;
                    (port, r) \<leftarrow> read_port r;
                    Some (\<lparr>sa_ip = IpV6 ip, sa_scope = of_nat scope, sa_port = of_nat port\<rparr>, r) }) }"

definition parse_socket_addr :: "string \<Rightarrow> socket_addr option" where
  "parse_socket_addr s =
     (case (case read_socket_addr_v4 s of Some x \<Rightarrow> Some x | None \<Rightarrow> read_socket_addr_v6 s) of
        Some (a, []) \<Rightarrow> Some a
      | _ \<Rightarrow> None)"

definition parse_listen_spec :: "string \<Rightarrow> string + socket_addr" where
  "parse_listen_spec spec =
     (case parse_socket_addr spec of
        Some addr \<Rightarrow> Inr addr
      | None \<Rightarrow>
          (case parse_unsigned 16 spec of
             Some port \<Rightarrow> Inr \<lparr>sa_ip = LOCALHOST, sa_scope = 0, sa_port = of_nat port\<rparr>
           | None \<Rightarrow> Inl spec))"

definition listen_parse_error_display :: "(string \<Rightarrow> string) \<Rightarrow> string \<Rightarrow> string" where
  "listen_parse_error_display quoted v =
     ''invalid --listen value '' @ quoted v @
     '' (expected `host:port`, `[ipv6]:port`, or a bare port)''"

section \<open>Lemmas\<close>

subsection \<open>Numerals read back\<close>

text \<open>
  What both numeral systems promise the address parser: the digits of a number, written most
  significant first, read back as that number and stop before anything that is not a digit.
\<close>

definition stops :: "nat \<Rightarrow> string \<Rightarrow> bool" where
  "stops radix s \<longleftrightarrow> (case s of [] \<Rightarrow> True | c # _ \<Rightarrow> to_digit radix c = None)"

locale numeral_text =
  fixes radix :: nat and digit :: "nat \<Rightarrow> char" and shown :: "nat \<Rightarrow> string"
  assumes radix: "2 \<le> radix"
    and shown: "shown n = (if n < radix then [digit n] else shown (n div radix) @ [digit (n mod radix)])"
    and to_digit: "d < radix \<Longrightarrow> to_digit radix (digit d) = Some d"
    and zero: "digit 0 = CHR ''0''"
begin

lemma shown_digits: "shown n \<noteq> [] \<and> list_all (\<lambda>c. to_digit radix c \<noteq> None) (shown n)"
proof (induction n rule: less_induct)
  case (less n)
  show ?case
  proof (cases "n < radix")
    case False
    with radix have "n div radix < n" "n mod radix < radix" by simp_all
    with less [of "n div radix"] False show ?thesis by (simp add: shown [of n] to_digit)
  qed (simp add: shown [of n] to_digit)
qed

lemma run_value_shown: "run_value radix (shown n) = n"
proof (induction n rule: less_induct)
  case (less n)
  show ?case
  proof (cases "n < radix")
    case False
    with radix have "n div radix < n" "n mod radix < radix" by simp_all
    with less [of "n div radix"] False show ?thesis
      by (simp add: shown [of n] run_value_def to_digit)
  qed (simp add: shown [of n] run_value_def to_digit)
qed

lemma length_shown: "n < radix ^ k \<Longrightarrow> 0 < k \<Longrightarrow> length (shown n) \<le> k"
proof (induction k arbitrary: n)
  case (Suc k)
  show ?case
  proof (cases "n < radix")
    case False
    then have "0 < k" using Suc.prems by (cases k) simp_all
    moreover have "n div radix < radix ^ k" using Suc.prems by (simp add: less_mult_imp_div_less mult.commute)
    ultimately show ?thesis using Suc.IH [of "n div radix"] False by (simp add: shown [of n])
  qed (simp add: shown [of n])
qed simp

lemma shown_leading_zero: "hd (shown n) = CHR ''0'' \<Longrightarrow> length (shown n) = 1"
proof -
  have "n = 0 \<or> hd (shown n) \<noteq> CHR ''0''"
  proof (induction n rule: less_induct)
    case (less n)
    show ?case
    proof (cases "n < radix")
      case True
      have "digit n = digit 0 \<Longrightarrow> n = 0" using to_digit [OF True] to_digit [of 0] radix by simp
      with True show ?thesis by (auto simp: shown [of n] simp flip: zero)
    next
      case False
      with radix have "n div radix < n" "n div radix \<noteq> 0" by (simp_all add: div_eq_0_iff)
      with less [of "n div radix"] shown_digits [of "n div radix"] False show ?thesis
        by (simp add: shown [of n])
    qed
  qed
  then show "hd (shown n) = CHR ''0'' \<Longrightarrow> length (shown n) = 1" using radix by (auto simp: shown [of 0])
qed

lemma read_shown:
  assumes "n < 2 ^ w" and "stops radix rest" and "pred_option (\<lambda>k. n < radix ^ k \<and> 0 < k) m"
  shows "read_number radix m z w (shown n @ rest) = Some (n, rest)"
proof -
  have "takeWhile (\<lambda>c. to_digit radix c \<noteq> None) rest = []"
    using assms(2) by (cases rest) (simp_all add: stops_def)
  then have run: "digit_run radix (shown n @ rest) = shown n"
    using shown_digits [of n] by (simp add: digit_run_def takeWhile_append list_all_iff)
  have "\<not> (case m of Some k \<Rightarrow> length (shown n) > k | None \<Rightarrow> False)"
    using assms(3) length_shown [of n] by (cases m) (auto simp: not_less)
  with run shown_digits [of n] shown_leading_zero [of n] assms(1) show ?thesis
    by (auto simp: read_number_def Let_def run_value_shown)
qed

end

interpretation decimal: numeral_text 10 "\<lambda>d. char_of (48 + d)" show_nat
proof
  show "to_digit 10 (char_of (48 + d)) = Some d" if "d < 10" for d
    using that by (simp add: to_digit_def Let_def)
  show "char_of (48 + 0 :: nat) = CHR ''0''" by code_simp
qed (simp_all add: show_nat.simps)

interpretation hexadecimal: numeral_text 16 hex_char show_hex
proof
  show "to_digit 16 (hex_char d) = Some d" if "d < 16" for d
    using that by (simp add: to_digit_def hex_char_def Let_def)
  show "hex_char 0 = CHR ''0''" by code_simp
qed (simp_all add: show_hex.simps)

subsection \<open>Addresses read back\<close>

lemma read_given_char_Cons [simp]: "read_given_char c (c # r) = Some ((), r)"
  by (simp add: read_given_char_def)

lemma read_given_char_neq: "x \<noteq> c \<Longrightarrow> read_given_char c (x # r) = None"
  by (simp add: read_given_char_def)

lemma stops_simps [simp]:
  "stops 10 (CHR ''.'' # r)" "stops 10 (CHR '':'' # r)" "stops 10 (CHR '']'' # r)" "stops 10 (CHR ''%'' # r)"
  "stops 16 (CHR '':'' # r)" "stops 16 (CHR '']'' # r)" "stops 16 (CHR ''%'' # r)" "stops radix []"
proof -
  have "to_digit 10 CHR ''.'' = None" "to_digit 10 CHR '':'' = None" "to_digit 10 CHR '']'' = None"
    "to_digit 10 CHR ''%'' = None" "to_digit 16 CHR '':'' = None" "to_digit 16 CHR '']'' = None"
    "to_digit 16 CHR ''%'' = None" by code_simp+
  then show "stops 10 (CHR ''.'' # r)" "stops 10 (CHR '':'' # r)" "stops 10 (CHR '']'' # r)" "stops 10 (CHR ''%'' # r)"
    "stops 16 (CHR '':'' # r)" "stops 16 (CHR '']'' # r)" "stops 16 (CHR ''%'' # r)" "stops radix []"
    by (simp_all add: stops_def)
qed

lemma read_number_stops: "stops radix s \<Longrightarrow> read_number radix m z w s = None"
  by (cases s) (simp_all add: stops_def read_number_def digit_run_def Let_def)

declare unat_u8_less [simp] unat_u16_less [simp]

lemma read_octet_shown:
  "stops 10 rest \<Longrightarrow> read_octet True (show_nat (unat (a :: u8)) @ rest) = Some (unat a, rest)"
  "stops 10 rest \<Longrightarrow> read_octet False (CHR ''.'' # show_nat (unat a) @ rest) = Some (unat a, rest)"
  using decimal.read_shown [of "unat a" 8 rest "Some 3" False] unat_u8_less [of a]
  by (simp_all add: read_octet_def read_separator_def)

lemma read_ipv4_shown: "stops 10 rest \<Longrightarrow> read_ipv4_addr (show_ipv4 a b c d @ rest) = Some ((a, b, c, d), rest)"
  by (simp add: read_ipv4_addr_def show_ipv4_def read_octet_shown)

lemma read_number_set: "read_number radix m z w s = Some (v, r) \<Longrightarrow> set r \<subseteq> set s"
  by (auto simp: read_number_def Let_def split: if_splits option.splits dest: in_set_dropD)

lemma read_octet_dot: "read_octet False s = Some (v, r) \<Longrightarrow> CHR ''.'' \<in> set s"
  by (cases s) (auto simp: read_octet_def read_separator_def read_given_char_def bind_eq_Some_conv split: if_splits)

lemma read_ipv4_dot: "CHR ''.'' \<notin> set s \<Longrightarrow> read_ipv4_addr s = None"
proof (rule ccontr)
  assume "CHR ''.'' \<notin> set s" "read_ipv4_addr s \<noteq> None"
  then obtain v r where "read_octet True s = Some (v, r)" "read_octet False r \<noteq> None"
    by (auto simp: read_ipv4_addr_def bind_eq_Some_conv split: Option.bind_splits prod.splits)
  with read_octet_dot [of r] read_number_set [of 10 "Some 3" False 8 s v r] \<open>CHR ''.'' \<notin> set s\<close>
  show False by (auto simp: read_octet_def read_separator_def)
qed

text \<open>Groups, each behind its colon.\<close>

definition colon_groups :: "u16 list \<Rightarrow> string" where
  "colon_groups gs = concat (map (\<lambda>g. CHR '':'' # show_hex (unat g)) gs)"

lemma show_groups_Cons: "show_groups (g # gs) = show_hex (unat g) @ colon_groups gs"
  by (induction gs arbitrary: g) (simp_all add: colon_groups_def)

lemma show_hex_no_dot: "CHR ''.'' \<notin> set (show_hex n)"
proof
  assume "CHR ''.'' \<in> set (show_hex n)"
  with hexadecimal.shown_digits [of n] have "to_digit 16 CHR ''.'' \<noteq> None" by (auto simp: list_all_iff)
  moreover have "to_digit 16 CHR ''.'' = None" by code_simp
  ultimately show False by simp
qed

lemma colon_groups_no_dot: "CHR ''.'' \<notin> set (colon_groups gs)"
  by (auto simp: colon_groups_def show_hex_no_dot)

lemma colon_groups_stops: "stops 16 rest \<Longrightarrow> stops 16 (colon_groups gs @ rest)"
  by (cases gs) (simp_all add: colon_groups_def)

text \<open>What may follow a sequence of groups: nothing that reads as another one.\<close>

definition ends_groups :: "string \<Rightarrow> bool" where
  "ends_groups s \<longleftrightarrow> stops 16 s \<and> CHR ''.'' \<notin> set s \<and> (\<forall>r. s = CHR '':'' # r \<longrightarrow> stops 16 r)"

lemma read_group_shown:
  "stops 16 rest \<Longrightarrow> read_number 16 (Some 4) True 16 (show_hex (unat (g :: u16)) @ rest) = Some (unat g, rest)"
  using hexadecimal.read_shown [of "unat g" 16 rest "Some 4" True] by simp

lemma read_groups_pos:
  "1 < k \<Longrightarrow> read_groups b k s =
     (case read_separator CHR '':'' b read_ipv4_addr s of
        Some ((a, b, c, d), r) \<Rightarrow>
          ([push_bit 8 (ucast a) OR ucast b, push_bit 8 (ucast c) OR ucast d], True, r)
      | None \<Rightarrow>
          (case read_separator CHR '':'' b (read_number 16 (Some 4) True 16) s of
             None \<Rightarrow> ([], False, s)
           | Some (g, r) \<Rightarrow> (case read_groups False (k - 1) r of (gs, v4, r') \<Rightarrow> (of_nat g # gs, v4, r'))))"
  by (cases k) (auto split: option.splits)

lemma read_groups_end: "ends_groups s \<Longrightarrow> read_groups b k s = ([], False, s)"
proof (cases k)
  case (Suc j)
  assume s: "ends_groups s"
  have "read_separator CHR '':'' b read_ipv4_addr s = None"
    using s by (cases s) (auto simp: ends_groups_def read_separator_def read_given_char_def read_ipv4_dot
        read_ipv4_dot [of "[]"])
  moreover have "read_separator CHR '':'' b (read_number 16 (Some 4) True 16) s = None"
    using s by (cases s) (auto simp: ends_groups_def read_separator_def read_given_char_def read_number_stops)
  ultimately show ?thesis using Suc by simp
qed simp

lemma read_colon_groups:
  assumes "ends_groups rest" "length gs \<le> k"
  shows "read_groups False k (colon_groups gs @ rest) = (gs, False, rest)"
  using assms(2)
proof (induction gs arbitrary: k)
  case Nil
  then show ?case using read_groups_end [OF assms(1)] by (simp add: colon_groups_def)
next
  case (Cons g gs)
  then obtain j where k: "k = Suc j" "length gs \<le> j" by (cases k) auto
  have shape: "colon_groups (g # gs) @ rest = CHR '':'' # show_hex (unat g) @ colon_groups gs @ rest"
    by (simp add: colon_groups_def)
  have "read_ipv4_addr (show_hex (unat g) @ colon_groups gs @ rest) = None"
    using assms(1) show_hex_no_dot colon_groups_no_dot by (intro read_ipv4_dot) (auto simp: ends_groups_def)
  moreover have "read_number 16 (Some 4) True 16 (show_hex (unat g) @ colon_groups gs @ rest) =
      Some (unat g, colon_groups gs @ rest)"
    using assms(1) by (intro read_group_shown colon_groups_stops) (simp add: ends_groups_def)
  ultimately show ?case
    using Cons.IH [OF k(2)] by (simp add: k shape read_separator_def)
qed

lemma read_show_groups:
  assumes "ends_groups rest" "length gs \<le> k"
  shows "read_groups True k (show_groups gs @ rest) = (gs, False, rest)"
proof (cases gs)
  case Nil
  then show ?thesis using read_groups_end [OF assms(1)] by simp
next
  case (Cons g gs')
  then obtain j where k: "k = Suc j" "length gs' \<le> j" using assms(2) by (cases k) auto
  have "read_ipv4_addr (show_hex (unat g) @ colon_groups gs' @ rest) = None"
    using assms(1) show_hex_no_dot colon_groups_no_dot by (intro read_ipv4_dot) (auto simp: ends_groups_def)
  moreover have "read_number 16 (Some 4) True 16 (show_hex (unat g) @ colon_groups gs' @ rest) =
      Some (unat g, colon_groups gs' @ rest)"
    using assms(1) by (intro read_group_shown colon_groups_stops) (simp add: ends_groups_def)
  ultimately show ?thesis
    using read_colon_groups [OF assms(1) k(2)] by (simp add: Cons k show_groups_Cons read_separator_def)
qed

text \<open>The printed span really is a run of zero groups.\<close>

definition zeros_at :: "u16 list \<Rightarrow> nat \<times> nat \<Rightarrow> bool" where
  "zeros_at gs sp \<longleftrightarrow> fst sp + snd sp \<le> length gs \<and> (\<forall>i. fst sp \<le> i \<and> i < fst sp + snd sp \<longrightarrow> gs ! i = 0)"

lemma zeros_at_append: "zeros_at gs sp \<Longrightarrow> zeros_at (gs @ hs) sp"
  by (auto simp: zeros_at_def nth_append)

lemma zero_span_zeros:
  assumes "zeros_at pre cur" "zeros_at pre best" "snd cur = 0 \<or> fst cur + snd cur = length pre"
  shows "zeros_at (pre @ gs) (zero_span (length pre) gs cur best)"
  using assms
proof (induction gs arbitrary: pre cur best)
  case (Cons g gs)
  show ?case
  proof (cases "g = 0")
    case True
    define cur' where "cur' = (if snd cur = 0 then length pre else fst cur, snd cur + 1)"
    have cur': "zeros_at (pre @ [g]) cur'" "fst cur' + snd cur' = length (pre @ [g])"
      using Cons.prems True by (auto simp: cur'_def zeros_at_def nth_append less_Suc_eq)
    moreover have "zeros_at (pre @ [g]) (if snd cur' > snd best then cur' else best)"
      using cur' Cons.prems zeros_at_append by auto
    moreover have "zero_span (length pre) (g # gs) cur best =
        zero_span (length (pre @ [g])) gs cur' (if snd cur' > snd best then cur' else best)"
      using True by (simp add: cur'_def Let_def)
    ultimately show ?thesis
      using Cons.IH [of "pre @ [g]" cur' "if snd cur' > snd best then cur' else best"] by simp
  next
    case False
    have "zeros_at (pre @ [g]) (0, 0)" by (simp add: zeros_at_def)
    with Cons.IH [of "pre @ [g]" "(0, 0)" best] Cons.prems zeros_at_append False show ?thesis by simp
  qed
qed simp

lemma zero_span_split:
  assumes "zero_span 0 gs (0, 0) (0, 0) = (i, n)"
  shows "gs = take i gs @ replicate n 0 @ drop (i + n) gs" and "i + n \<le> length gs"
proof -
  have "zeros_at gs (i, n)"
    using zero_span_zeros [of "[]" "(0, 0)" "(0, 0)" gs] assms by (simp add: zeros_at_def)
  then have len: "i + n \<le> length gs" and z: "\<And>j. j < n \<Longrightarrow> gs ! (i + j) = 0" by (auto simp: zeros_at_def)
  then have "take n (drop i gs) = replicate n 0" by (intro nth_equalityI) auto
  then show "gs = take i gs @ replicate n 0 @ drop (i + n) gs"
    by (metis add.commute append_take_drop_id drop_drop)
  show "i + n \<le> length gs" by (rule len)
qed

lemma split_bytes: "push_bit 8 (ucast (ucast (drop_bit 8 x) :: u8)) OR ucast (ucast x :: u8) = (x :: u16)"
  by (rule bit_word_eqI) (auto simp: bit_simps)

lemma ends_groups_bracket: "CHR ''.'' \<notin> set r \<Longrightarrow> ends_groups (CHR '']'' # r) \<and> ends_groups (CHR ''%'' # r)"
  by (simp add: ends_groups_def)

lemma ends_groups_colons: "CHR ''.'' \<notin> set r \<Longrightarrow> ends_groups (CHR '':'' # CHR '':'' # r)"
  by (simp add: ends_groups_def)

text \<open>Inside the brackets of an IPv6 socket address.\<close>

lemma read_ipv6_shown:
  assumes "length gs = 8" and rest: "rest = CHR '']'' # r \<or> rest = CHR ''%'' # r" and dot: "CHR ''.'' \<notin> set r"
  shows "read_ipv6_addr (show_ipv6 gs @ rest) = Some (gs, rest)"
proof (cases "take 6 gs = [0, 0, 0, 0, 0, 0xffff]")
  case True
  define ab cd where "ab = gs ! 6" and "cd = gs ! 7"
  have gs: "gs = [0, 0, 0, 0, 0, 0xffff, ab, cd]"
  proof -
    have "drop 6 gs = [ab, cd]"
      using assms(1) by (intro nth_equalityI) (auto simp: ab_def cd_def less_Suc_eq numeral_2_eq_2)
    with True append_take_drop_id [of 6 gs] show ?thesis by simp
  qed
  let ?v4 = "show_ipv4 (ucast (drop_bit 8 ab)) (ucast ab) (ucast (drop_bit 8 cd)) (ucast cd) @ rest"
  have v4: "read_ipv4_addr ?v4 = Some ((ucast (drop_bit 8 ab), ucast ab, ucast (drop_bit 8 cd), ucast cd), rest)"
    using rest by (intro read_ipv4_shown) auto
  have f: "read_number 16 (Some 4) True 16 (''ffff:'' @ ?v4) = Some (0xffff, CHR '':'' # ?v4)"
  proof -
    have "hex_char 15 = CHR ''f''" by code_simp
    then have "show_hex (unat (0xffff :: u16)) = ''ffff''"
      by (simp add: show_hex.simps [of 65535] show_hex.simps [of 4095] show_hex.simps [of 255] show_hex.simps [of 15])
    with read_group_shown [of "CHR '':'' # ?v4" "0xffff"] show ?thesis by simp
  qed
  have no4: "read_ipv4_addr (CHR ''f'' # s) = None" "read_ipv4_addr (CHR '':'' # s) = None" for s
  proof -
    have "stops 10 (CHR ''f'' # s)" by (simp add: stops_def) code_simp
    then show "read_ipv4_addr (CHR ''f'' # s) = None" "read_ipv4_addr (CHR '':'' # s) = None"
      by (simp_all add: read_ipv4_addr_def read_octet_def read_separator_def read_number_stops)
  qed
  have head: "read_groups True 8 (''::ffff:'' @ ?v4) = ([], False, ''::ffff:'' @ ?v4)"
    by (simp add: read_groups_pos [of 8] read_separator_def no4 read_number_stops)
  have "read_groups False 6 (CHR '':'' # ?v4) = ([ab, cd], True, rest)"
    using v4 by (simp add: read_groups_pos [of 6] read_separator_def split_bytes)
  then have tail: "read_groups True 7 (''ffff:'' @ ?v4) = ([0xffff, ab, cd], True, rest)"
    using f by (simp add: read_groups_pos [of 7] read_separator_def no4)
  have "show_ipv6 gs @ rest = ''::ffff:'' @ ?v4" by (simp add: gs show_ipv6_def)
  moreover have "replicate 5 (0 :: u16) = [0, 0, 0, 0, 0]" by (simp add: numeral_eq_Suc)
  ultimately show ?thesis using head tail by (simp add: read_ipv6_addr_def gs)
next
  case False
  have ends: "ends_groups rest" using rest dot by (auto simp: ends_groups_bracket)
  obtain i n where span: "zero_span 0 gs (0, 0) (0, 0) = (i, n)" by fastforce
  note split = zero_span_split [OF span]
  show ?thesis
  proof (cases "n > 1")
    case True
    let ?head = "take i gs" and ?tail = "drop (i + n) gs"
    have "CHR ''.'' \<notin> set (show_groups gs')" for gs'
      by (cases gs') (simp_all add: show_groups_Cons show_hex_no_dot colon_groups_no_dot)
    then have "ends_groups (CHR '':'' # CHR '':'' # show_groups ?tail @ rest)"
      using rest dot by (intro ends_groups_colons) auto
    then have head: "read_groups True 8 (show_groups ?head @ CHR '':'' # CHR '':'' # show_groups ?tail @ rest) =
        (?head, False, CHR '':'' # CHR '':'' # show_groups ?tail @ rest)"
      using assms(1) by (intro read_show_groups) simp_all
    have tail: "read_groups True (8 - (length ?head + 1)) (show_groups ?tail @ rest) = (?tail, False, rest)"
      using assms(1) split(2) True by (intro read_show_groups [OF ends]) simp
    have "?head @ replicate (8 - length ?head - length ?tail) 0 @ ?tail = gs"
      using split assms(1) by (metis Nat.add_diff_assoc2 add_diff_cancel_left' add_diff_cancel_right' append.assoc
          length_append length_replicate)
    moreover have "length ?head \<noteq> 8" using assms(1) split(2) True by simp
    moreover have "show_ipv6 gs @ rest = show_groups ?head @ CHR '':'' # CHR '':'' # show_groups ?tail @ rest"
      using \<open>take 6 gs \<noteq> _\<close> span True by (simp add: show_ipv6_def)
    ultimately show ?thesis using head tail by (simp add: read_ipv6_addr_def)
  next
    case False
    with \<open>take 6 gs \<noteq> _\<close> span have "show_ipv6 gs = show_groups gs" by (simp add: show_ipv6_def)
    with read_show_groups [OF ends, of gs 8] assms(1) show ?thesis by (simp add: read_ipv6_addr_def)
  qed
qed

text \<open>Addresses the types of the source can hold: eight groups, and no scope on IPv4.\<close>

definition addr_wf :: "socket_addr \<Rightarrow> bool" where
  "addr_wf a \<longleftrightarrow> (case sa_ip a of IpV4 p q r s \<Rightarrow> sa_scope a = 0 | IpV6 gs \<Rightarrow> length gs = 8)"

lemma show_nat_no_dot: "CHR ''.'' \<notin> set (show_nat n)"
proof
  assume "CHR ''.'' \<in> set (show_nat n)"
  with decimal.shown_digits [of n] have "to_digit 10 CHR ''.'' \<noteq> None" by (auto simp: list_all_iff)
  moreover have "to_digit 10 CHR ''.'' = None" by code_simp
  ultimately show False by simp
qed

lemma read_port_shown: "read_port (CHR '':'' # show_nat (unat (p :: u16))) = Some (unat p, [])"
  using decimal.read_shown [of "unat p" 16 "[]" None True] by (simp add: read_port_def)

lemma read_scope_shown:
  "read_scope_id (CHR ''%'' # show_nat (unat (x :: u32)) @ CHR '']'' # r) = Some (unat x, CHR '']'' # r)"
proof -
  have "unat x < 2 ^ 32" using unsigned_less [of x, where 'a = nat] by simp
  then show ?thesis
    using decimal.read_shown [of "unat x" 32 "CHR '']'' # r" None True] by (simp add: read_scope_id_def)
qed

lemma parse_shown_socket_addr: "addr_wf a \<Longrightarrow> parse_socket_addr (show_socket_addr a) = Some a"
proof (cases "sa_ip a")
  case (IpV4 p q r s)
  assume "addr_wf a"
  with IpV4 show ?thesis
    by (simp add: parse_socket_addr_def read_socket_addr_v4_def read_ipv4_shown read_port_shown addr_wf_def)
next
  case (IpV6 gs)
  assume "addr_wf a"
  with IpV6 have len: "length gs = 8" by (simp add: addr_wf_def)
  let ?port = "CHR '':'' # show_nat (unat (sa_port a))"
  have "stops 10 (CHR ''['' # s)" for s by (simp add: stops_def) code_simp
  then have "read_socket_addr_v4 (CHR ''['' # s) = None" for s
    by (simp add: read_socket_addr_v4_def read_ipv4_addr_def read_octet_def read_separator_def read_number_stops)
  moreover have "read_socket_addr_v6 (show_socket_addr a) = Some (a, [])"
  proof (cases "sa_scope a = 0")
    case True
    have "read_ipv6_addr (show_ipv6 gs @ CHR '']'' # ?port) = Some (gs, CHR '']'' # ?port)"
      using len show_nat_no_dot by (intro read_ipv6_shown) auto
    with True IpV6 show ?thesis
      by (simp add: read_socket_addr_v6_def read_scope_id_def read_given_char_neq read_port_shown)
  next
    case False
    let ?scope = "CHR ''%'' # show_nat (unat (sa_scope a)) @ CHR '']'' # ?port"
    have "read_ipv6_addr (show_ipv6 gs @ ?scope) = Some (gs, ?scope)"
      using len show_nat_no_dot by (intro read_ipv6_shown) auto
    with False IpV6 show ?thesis by (simp add: read_socket_addr_v6_def read_scope_shown read_port_shown)
  qed
  ultimately show ?thesis using IpV6 by (simp add: parse_socket_addr_def)
qed

lemma parse_socket_addr_plain:
  assumes "CHR ''.'' \<notin> set s" "s = [] \<or> hd s \<noteq> CHR ''[''"
  shows "parse_socket_addr s = None"
  using assms
  by (cases s) (simp_all add: parse_socket_addr_def read_socket_addr_v4_def read_socket_addr_v6_def
      read_ipv4_dot read_given_char_def read_ipv4_dot [of "[]"])

lemma parse_bare_port:
  "parse_listen_spec (show_nat (unat port)) = Inr \<lparr>sa_ip = LOCALHOST, sa_scope = 0, sa_port = port\<rparr>"
proof -
  have "hd (show_nat (unat port)) \<noteq> CHR ''[''"
  proof
    assume h: "hd (show_nat (unat port)) = CHR ''[''"
    with decimal.shown_digits [of "unat port"] have "to_digit 10 CHR ''['' \<noteq> None"
      by (cases "show_nat (unat port)") auto
    moreover have "to_digit 10 CHR ''['' = None" by code_simp
    ultimately show False by simp
  qed
  then have "parse_socket_addr (show_nat (unat port)) = None"
    by (intro parse_socket_addr_plain) (simp_all add: show_nat_no_dot)
  moreover have "parse_unsigned 16 (show_nat (unat port)) = Some (unat port)"
    by (rule parse_unsigned_show_nat) simp
  ultimately show ?thesis by (simp add: parse_listen_spec_def)
qed

section \<open>Properties\<close>

text \<open>
  C40: listen addresses survive their text form.  What the server prints for an address (in its
  listening URLs and the advertised address) parses back to that address, IPv4 and IPv6, with the
  zero run compressed or an embedded IPv4 address and with a scope; and a bare port is that port of
  the IPv4 loopback address.
\<close>

theorem listen_spec_roundtrip:
  assumes "addr_wf a"
  shows "parse_listen_spec (show_socket_addr a) = Inr a \<and>
         parse_listen_spec (show_nat (unat port)) = Inr \<lparr>sa_ip = LOCALHOST, sa_scope = 0, sa_port = port\<rparr>"
  using parse_shown_socket_addr [OF assms] parse_bare_port
  by (simp add: parse_listen_spec_def del: show_socket_addr.simps)

theorem listen_spec_roundtrip_witness:
  "parse_listen_spec (show_socket_addr \<lparr>sa_ip = IpV6 [1, 0, 0, 2, 0, 0, 0, 3], sa_scope = 4, sa_port = 41807\<rparr>) =
     Inr \<lparr>sa_ip = IpV6 [1, 0, 0, 2, 0, 0, 0, 3], sa_scope = 4, sa_port = 41807\<rparr>"
  using listen_spec_roundtrip [of "\<lparr>sa_ip = IpV6 [1, 0, 0, 2, 0, 0, 0, 3], sa_scope = 4, sa_port = 41807\<rparr>" 0]
  by (simp add: addr_wf_def del: show_socket_addr.simps)

end
