(* ===== verification/Serve.thy ===== *)
theory Serve
  imports Server Control Debug Address
begin

text \<open>
  Starting and stopping the server: \<open>serve\<close>, its loops and \<open>shutdown\<close> of \<open>src/src/wire/mod.rs\<close>,
  and the advertised address of \<open>src/src/advertise.rs\<close>.

  \<^item> What the operating system answers while the server starts (hostname, state directory, control
    socket, TCP binds, environment) is the record \<open>serve_os\<close>.  The result lists what was done, in
    order, before the outcome.
  \<^item> A successful start gives the initial state \<open>sys_init\<close> of theory Server, so that its theorems
    are about what \<open>serve\<close> runs.
\<close>

section \<open>The advertised address\<close>

datatype advertise_state = Reachable string | LoopbackOnly | UnknownAddress

definition ADVERTISE_FILE :: string where
  "ADVERTISE_FILE = ''advertise.json''"

definition advertise_record_json :: "string option \<Rightarrow> json" where
  "advertise_record_json address =
     JObject [(''address'', case address of None \<Rightarrow> JNull | Some a \<Rightarrow> JString a)]"

definition advertise_record_from :: "json \<Rightarrow> string option option" where
  "advertise_record_from j = Option.bind (struct_members [''address''] j) (optional ''address'' as_str)"

definition is_advertisable_ip :: "ip_addr \<Rightarrow> bool" where
  "is_advertisable_ip ip \<longleftrightarrow> \<not> is_loopback ip \<and> \<not> is_unspecified ip"

definition resolve_advertise :: "string option \<Rightarrow> socket_addr list \<Rightarrow> string option" where
  "resolve_advertise advertise_flag listen_addrs =
     (case advertise_flag of
        Some explicit \<Rightarrow> Some explicit
      | None \<Rightarrow> map_option show_socket_addr (find (\<lambda>a. is_advertisable_ip (sa_ip a)) listen_addrs))"

text \<open>
  Writing the file: a failed write (\<open>Some\<close> error and what the file is then) leaves whatever the
  file system leaves.  \<open>pretty\<close> is the library's pretty printer.
\<close>

definition persist ::
  "(json \<Rightarrow> string) \<Rightarrow> (string \<times> string option) option \<Rightarrow> string option \<Rightarrow> (string + unit) \<times> string option" where
  "persist pretty write_failure address =
     (case write_failure of
        None \<Rightarrow> (Inr (), Some (pretty (advertise_record_json address)))
      | Some (e, left) \<Rightarrow> (Inl e, left))"

definition advertise_read :: "json_lib \<Rightarrow> string option \<Rightarrow> advertise_state" where
  "advertise_read lib file =
     (case file of
        None \<Rightarrow> UnknownAddress
      | Some s \<Rightarrow>
          (case read_doc lib advertise_record_from s of
             Some (Some addr) \<Rightarrow> Reachable addr
           | Some None \<Rightarrow> LoopbackOnly
           | None \<Rightarrow> UnknownAddress))"

section \<open>Starting\<close>

definition non_loopback_display :: "socket_addr \<Rightarrow> string" where
  "non_loopback_display a =
     ''refusing to bind non-loopback address '' @ show_socket_addr a @
     '' as plain `ws`: TLS (`wss`) is not yet implemented (ADR 0004/0010 require `wss` off loopback); '' @
     ''use a loopback address (127.0.0.1 / ::1) for now''"

datatype serve_error =
    NonLoopbackWithoutTls socket_addr
  | ServeIo string
  | ServeStore string
  | ServeControl bind_error

datatype serve_act = OpenStore | RemoveStaleSocket | BindControl | BindTcp nat socket_addr

record serve_os =
  so_hostname :: "string + string"
  so_store_error :: "string option"
  so_control :: bind_probe
  so_bind_error :: "nat \<Rightarrow> string option"
  so_local_addr :: "nat \<Rightarrow> string + socket_addr"
  so_env :: "string \<Rightarrow> string option"
  so_tokens :: token_store
  so_talk :: talk_log

record server_handle =
  sh_addrs :: "socket_addr list"
  sh_ctx :: conn_ctx
  sh_system :: system

fun bind_all :: "serve_os \<Rightarrow> nat \<Rightarrow> socket_addr list \<Rightarrow> serve_act list \<times> string option" where
  "bind_all os i [] = ([], None)"
| "bind_all os i (a # as) =
     (case so_bind_error os i of
        Some e \<Rightarrow> ([], Some e)
      | None \<Rightarrow> (case bind_all os (Suc i) as of (acts, r) \<Rightarrow> (BindTcp i a # acts, r)))"

fun local_addrs :: "serve_os \<Rightarrow> nat \<Rightarrow> nat \<Rightarrow> string + socket_addr list" where
  "local_addrs os i 0 = Inr []"
| "local_addrs os i (Suc n) =
     (case so_local_addr os i of
        Inl e \<Rightarrow> Inl e
      | Inr a \<Rightarrow> (case local_addrs os (Suc i) n of Inl e \<Rightarrow> Inl e | Inr as \<Rightarrow> Inr (a # as)))"

text \<open>The runtime's semaphore refuses to be created with more permits than this (it panics).\<close>

definition MAX_PERMITS :: nat where
  "MAX_PERMITS = 2 ^ 61 - 1"

text \<open>Opening the store creates the state directory; the acts before the control socket's outcome.\<close>

definition control_acts :: "bool \<Rightarrow> bool \<Rightarrow> serve_act list" where
  "control_acts removed bound =
     OpenStore # (if removed then [RemoveStaleSocket] else []) @ (if bound then [BindControl] else [])"

definition serve ::
  "conn_ctx \<Rightarrow> serve_os \<Rightarrow> string \<Rightarrow> socket_addr list
   \<Rightarrow> serve_act list \<times> (serve_error, server_handle) exec" where
  "serve cx0 os dir listen_addrs =
     (case find (\<lambda>a. \<not> is_loopback (sa_ip a)) listen_addrs of
        Some a \<Rightarrow> ([], Raise (NonLoopbackWithoutTls a))
      | None \<Rightarrow>
          (case so_hostname os of
             Inl e \<Rightarrow> ([], Raise (ServeIo e))
           | Inr hostname \<Rightarrow>
               (case so_store_error os of
                  Some e \<Rightarrow> ([OpenStore], Raise (ServeStore e))
                | None \<Rightarrow>
                    (case bind_control_socket dir (so_control os) of
                       (removed, bound, Inl e) \<Rightarrow> (control_acts removed bound, Raise (ServeControl e))
                     | (removed, bound, Inr _) \<Rightarrow>
                         let acts = control_acts removed bound
                         in case bind_all os 0 listen_addrs of
                              (binds, Some e) \<Rightarrow> (acts @ binds, Raise (ServeIo e))
                            | (binds, None) \<Rightarrow>
                                (acts @ binds,
                                 case local_addrs os 0 (length listen_addrs) of
                                   Inl e \<Rightarrow> Raise (ServeIo e)
                                 | Inr bound \<Rightarrow>
                                     let limits = connection_limits_from_env (so_env os);
                                         cx = cx0\<lparr>cx_hostname := hostname,
                                                  cx_listening := map (\<lambda>a. ''ws://'' @ show_socket_addr a) bound,
                                                  cx_limits := limits\<rparr>
                                     in if MAX_PERMITS < cl_max_unauth_connections limits then Panic
                                        else Ret \<lparr>sh_addrs = bound, sh_ctx = cx,
                                                  sh_system = sys_init cx (roster_config_from_env (so_env os))
                                                                (so_tokens os) (so_talk os)\<rparr>)))))"

section \<open>Running until shutdown\<close>

text \<open>
  The loops of the server wait for their own work or for the shutdown flag.  A change that reports
  the flag set, or whose sender is gone, ends the loop; any other change is ignored.  The result
  tells whether the loop has ended.
\<close>

datatype 'a wake = ShutdownChanged bool bool | Woken 'a

fun until_shutdown :: "('a \<Rightarrow> 's \<Rightarrow> 's) \<Rightarrow> 'a wake list \<Rightarrow> 's \<Rightarrow> 's \<times> bool" where
  "until_shutdown act [] s = (s, False)"
| "until_shutdown act (ShutdownChanged ok flag # ws) s =
     (if \<not> ok \<or> flag then (s, True) else until_shutdown act ws s)"
| "until_shutdown act (Woken x # ws) s = until_shutdown act ws (act x s)"

text \<open>An accepted socket (its task and peer), or a failed accept, which is skipped.\<close>

definition accept_loop :: "(nat \<times> string) option wake list \<Rightarrow> system \<Rightarrow> system \<times> bool" where
  "accept_loop =
     until_shutdown (\<lambda>accepted s. case accepted of None \<Rightarrow> s | Some (i, ip) \<Rightarrow> accept i ip s)"

text \<open>The runtime's interval timer panics when its period is zero.\<close>

definition roster_prune_loop :: "instant wake list \<Rightarrow> roster \<Rightarrow> (unit, roster \<times> bool) exec" where
  "roster_prune_loop ticks r =
     (if sweep_interval (ro_config r) = 0 then Panic else Ret (until_shutdown prune ticks r))"

text \<open>
  The control socket's loop hands every accepted socket to a task of its own, which runs
  \<open>handle_control_conn\<close>, and removes the socket file once it has ended.  The result: the sockets
  handed over, whether the loop has ended, and whether the file is still there.
\<close>

definition serve_control_socket :: "bool \<Rightarrow> nat option wake list \<Rightarrow> nat list \<times> bool \<times> bool" where
  "serve_control_socket removed wakes =
     (case until_shutdown (\<lambda>accepted conns. case accepted of None \<Rightarrow> conns | Some c \<Rightarrow> conns @ [c]) wakes [] of
        (conns, ended) \<Rightarrow> (conns, ended, \<not> (ended \<and> removed)))"

text \<open>\<open>ServerHandle::shutdown\<close> sets the flag: what every loop sees next.\<close>

definition shutdown_wake :: "'a wake" where
  "shutdown_wake = ShutdownChanged True True"

section \<open>Lemmas\<close>

lemma bind_all_done: "bind_all os i as = (acts, None) \<Longrightarrow> acts = map2 BindTcp [i..<i + length as] as"
proof (induction as arbitrary: i acts)
  case (Cons a as)
  then obtain rest where "so_bind_error os i = None" "bind_all os (Suc i) as = (rest, None)" "acts = BindTcp i a # rest"
    by (auto split: option.splits prod.splits)
  moreover have "[i..<i + length (a # as)] = i # [Suc i..<Suc i + length as]"
    by (simp add: upt_conv_Cons del: upt_Suc)
  ultimately show ?case using Cons.IH [of "Suc i" rest] by (simp del: upt_Suc)
qed simp

lemma length_local_addrs: "local_addrs os i n = Inr bound \<Longrightarrow> length bound = n"
  by (induction n arbitrary: i bound) (auto split: sum.splits)

text \<open>What a start that succeeds has checked, done and set up.\<close>

lemma serve_Ret:
  assumes "serve cx0 os dir addrs = (acts, Ret h)"
  shows "list_all (\<lambda>a. is_loopback (sa_ip a)) addrs"
    and "\<exists>hostname cfg. sh_ctx h = cx0\<lparr>cx_hostname := hostname,
           cx_listening := map (\<lambda>a. ''ws://'' @ show_socket_addr a) (sh_addrs h),
           cx_limits := connection_limits_from_env (so_env os)\<rparr> \<and>
         sh_system h = sys_init (sh_ctx h) cfg (so_tokens os) (so_talk os)"
    and "acts = control_acts (bp_exists (so_control os)) True @ map2 BindTcp [0..<length addrs] addrs"
    and "length (sh_addrs h) = length addrs" and "\<not> (bp_exists (so_control os) \<and> bp_live (so_control os))"
    and "cl_max_unauth_connections (connection_limits_from_env (so_env os)) \<le> MAX_PERMITS"
proof -
  from assms have none: "find (\<lambda>a. \<not> is_loopback (sa_ip a)) addrs = None"
    by (auto simp: serve_def split: option.splits)
  then show "list_all (\<lambda>a. is_loopback (sa_ip a)) addrs" by (auto simp: find_None_iff list_all_iff)
  obtain hostname where host: "so_hostname os = Inr hostname" and store: "so_store_error os = None"
    using assms none by (auto simp: serve_def split: sum.splits option.splits)
  obtain removed bound where bc: "bind_control_socket dir (so_control os) = (removed, bound, Inr ())"
    using assms none host store by (auto simp: serve_def split: prod.splits sum.splits)
  then have removed: "removed = bp_exists (so_control os)" "\<not> (bp_exists (so_control os) \<and> bp_live (so_control os))"
      "bound"
    by (auto simp: bind_control_socket_def split: if_splits option.splits)
  obtain binds where ba: "bind_all os 0 addrs = (binds, None)"
    using assms none host store bc by (auto simp: serve_def Let_def split: prod.splits option.splits)
  obtain here where la: "local_addrs os 0 (length addrs) = Inr here"
    using assms none host store bc ba by (auto simp: serve_def Let_def split: sum.splits)
  have fit: "\<not> MAX_PERMITS < cl_max_unauth_connections (connection_limits_from_env (so_env os))"
    using assms none host store bc ba la by (auto simp: serve_def Let_def split: if_splits)
  from assms none host store bc ba la fit have
    h: "h = \<lparr>sh_addrs = here, sh_ctx = cx0\<lparr>cx_hostname := hostname,
             cx_listening := map (\<lambda>a. ''ws://'' @ show_socket_addr a) here,
             cx_limits := connection_limits_from_env (so_env os)\<rparr>,
           sh_system = sys_init (cx0\<lparr>cx_hostname := hostname,
             cx_listening := map (\<lambda>a. ''ws://'' @ show_socket_addr a) here,
             cx_limits := connection_limits_from_env (so_env os)\<rparr>) (roster_config_from_env (so_env os))
             (so_tokens os) (so_talk os)\<rparr>"
    and acts: "acts = control_acts removed bound @ binds"
    by (simp_all add: serve_def Let_def)
  show "\<exists>hostname cfg. sh_ctx h = cx0\<lparr>cx_hostname := hostname,
           cx_listening := map (\<lambda>a. ''ws://'' @ show_socket_addr a) (sh_addrs h),
           cx_limits := connection_limits_from_env (so_env os)\<rparr> \<and>
         sh_system h = sys_init (sh_ctx h) cfg (so_tokens os) (so_talk os)"
    unfolding h by auto
  show "acts = control_acts (bp_exists (so_control os)) True @ map2 BindTcp [0..<length addrs] addrs"
    using acts bind_all_done [OF ba] removed(1,3) by simp
  show "length (sh_addrs h) = length addrs" using length_local_addrs [OF la] h by simp
  show "\<not> (bp_exists (so_control os) \<and> bp_live (so_control os))" by (rule removed(2))
  show "cl_max_unauth_connections (connection_limits_from_env (so_env os)) \<le> MAX_PERMITS" using fit by simp
qed

text \<open>Two reasons to refuse a start, both before a socket is touched.\<close>

lemma serve_refuses:
  assumes "a \<in> set addrs" "\<not> is_loopback (sa_ip a)"
  shows "\<exists>b. b \<in> set addrs \<and> \<not> is_loopback (sa_ip b) \<and> serve cx0 os dir addrs = ([], Raise (NonLoopbackWithoutTls b))"
proof -
  obtain b where b: "find (\<lambda>a. \<not> is_loopback (sa_ip a)) addrs = Some b"
    using assms by (cases "find (\<lambda>a. \<not> is_loopback (sa_ip a)) addrs") (auto simp: find_None_iff)
  then have "b \<in> set addrs" "\<not> is_loopback (sa_ip b)" by (auto simp: find_Some_iff)
  with b show ?thesis by (auto simp: serve_def)
qed

lemma serve_live_owner:
  assumes "bp_exists (so_control os)" "bp_live (so_control os)"
  shows "\<exists>acts e. serve cx0 os dir addrs = (acts, Raise e) \<and> set acts \<subseteq> {OpenStore}"
  using assms by (auto simp: serve_def bind_control_socket_def control_acts_def split: option.splits sum.splits)

lemma serve_refused:
  assumes "bp_exists (so_control os) \<and> bp_live (so_control os) \<or> \<not> list_all (\<lambda>a. is_loopback (sa_ip a)) addrs"
  shows "\<exists>acts e. serve cx0 os dir addrs = (acts, Raise e) \<and> set acts \<subseteq> {OpenStore}"
  using assms
proof
  assume "\<not> list_all (\<lambda>a. is_loopback (sa_ip a)) addrs"
  then obtain a where "a \<in> set addrs" "\<not> is_loopback (sa_ip a)" by (auto simp: list_all_iff)
  from serve_refuses [OF this, of cx0 os dir] show ?thesis by auto
qed (use serve_live_owner in blast)

section \<open>Properties\<close>

text \<open>A host on which everything the start asks for works, and a stale socket file is left over.\<close>

definition demo_os :: serve_os where
  "demo_os = \<lparr>so_hostname = Inr ''hub'', so_store_error = None,
     so_control = \<lparr>bp_exists = True, bp_live = False, bp_bind = None, bp_chmod = None\<rparr>,
     so_bind_error = (\<lambda>_. None), so_local_addr = (\<lambda>_. Inr \<lparr>sa_ip = LOCALHOST, sa_scope = 0, sa_port = 41807\<rparr>),
     so_env = (\<lambda>_. None), so_tokens = \<lparr>ts_file = None\<rparr>, so_talk = talk_log_new (\<lambda>_. None)\<rparr>"

definition demo_loopback :: socket_addr where
  "demo_loopback = \<lparr>sa_ip = LOCALHOST, sa_scope = 0, sa_port = 0\<rparr>"

lemma demo_serves:
  "\<exists>h. serve (demo_ctx (demo_lib JNull)) demo_os ''st'' [demo_loopback] =
     ([OpenStore, RemoveStaleSocket, BindControl, BindTcp 0 demo_loopback], Ret h)"
  by (simp add: serve_def control_acts_def demo_os_def demo_loopback_def LOCALHOST_def bind_control_socket_def Let_def
      connection_limits_from_env_def connection_limits_default_def env_parsed_def MAX_PERMITS_def)

text \<open>
  The advertised address is read back as it was recorded, and nothing unreachable is recorded
  by itself: without an explicit address, what is recorded is the text of a listen address that is
  neither loopback nor unspecified, and nothing when there is none.
\<close>

lemma advertise_roundtrip:
  assumes "jl_from_str lib (pretty (advertise_record_json (resolve_advertise flag addrs))) =
           Inr (canon (advertise_record_json (resolve_advertise flag addrs)))"
  shows "advertise_read lib (snd (persist pretty None (resolve_advertise flag addrs))) =
           (case resolve_advertise flag addrs of Some a \<Rightarrow> Reachable a | None \<Rightarrow> LoopbackOnly) \<and>
         (flag = None \<longrightarrow>
            (case resolve_advertise flag addrs of
               None \<Rightarrow> list_all (\<lambda>a. is_loopback (sa_ip a) \<or> is_unspecified (sa_ip a)) addrs
             | Some t \<Rightarrow> \<exists>a \<in> set addrs. t = show_socket_addr a \<and> \<not> is_loopback (sa_ip a) \<and>
                                       \<not> is_unspecified (sa_ip a)))"
proof -
  have "advertise_read lib (snd (persist pretty None (resolve_advertise flag addrs))) =
      (case resolve_advertise flag addrs of Some a \<Rightarrow> Reachable a | None \<Rightarrow> LoopbackOnly)"
    using assms by (cases "resolve_advertise flag addrs") (auto simp: advertise_read_def persist_def read_doc_def advertise_record_json_def
        advertise_record_from_def obj_of_def optional_def defaulted_def option_from_def)
  moreover have "case find (\<lambda>a. is_advertisable_ip (sa_ip a)) addrs of
      None \<Rightarrow> list_all (\<lambda>a. is_loopback (sa_ip a) \<or> is_unspecified (sa_ip a)) addrs
    | Some a \<Rightarrow> a \<in> set addrs \<and> \<not> is_loopback (sa_ip a) \<and> \<not> is_unspecified (sa_ip a)"
    by (auto simp: find_None_iff find_Some_iff list_all_iff is_advertisable_ip_def split: option.splits)
  ultimately show ?thesis
    by (auto simp: resolve_advertise_def simp del: show_socket_addr.simps split: option.splits)
qed

lemma advertise_roundtrip_at_work:
  "advertise_read (demo_lib (advertise_record_json (Some (show_socket_addr (demo_loopback\<lparr>sa_ip := IpV4 10 0 0 5\<rparr>)))))
     (snd (persist (\<lambda>_. ''frame'') None
        (resolve_advertise None [demo_loopback, demo_loopback\<lparr>sa_ip := IpV4 10 0 0 5\<rparr>]))) =
     Reachable (show_socket_addr (demo_loopback\<lparr>sa_ip := IpV4 10 0 0 5\<rparr>))"
proof -
  have r: "resolve_advertise None [demo_loopback, demo_loopback\<lparr>sa_ip := IpV4 10 0 0 5\<rparr>] =
      Some (show_socket_addr (demo_loopback\<lparr>sa_ip := IpV4 10 0 0 5\<rparr>))"
    by (simp add: resolve_advertise_def is_advertisable_ip_def demo_loopback_def LOCALHOST_def
        del: show_socket_addr.simps)
  from advertise_roundtrip [of "demo_lib (advertise_record_json (Some (show_socket_addr
        (demo_loopback\<lparr>sa_ip := IpV4 10 0 0 5\<rparr>))))" "\<lambda>_. ''frame''" None
      "[demo_loopback, demo_loopback\<lparr>sa_ip := IpV4 10 0 0 5\<rparr>]"]
  show ?thesis unfolding r by (simp add: demo_lib_def del: show_socket_addr.simps)
qed

section \<open>How the loops end\<close>

fun ends :: "'a wake \<Rightarrow> bool" where
  "ends (ShutdownChanged ok flag) \<longleftrightarrow> \<not> ok \<or> flag"
| "ends (Woken x) \<longleftrightarrow> False"

fun work :: "'a wake list \<Rightarrow> 'a list" where
  "work [] = []"
| "work (Woken x # ws) = x # work ws"
| "work (ShutdownChanged ok flag # ws) = work ws"

text \<open>The work of a loop is what woke it before the first notice that ends it.\<close>

definition work_before_end :: "'a wake list \<Rightarrow> 'a list" where
  "work_before_end ws = work (takeWhile (Not \<circ> ends) ws)"

lemma until_shutdown_fold: "until_shutdown act ws s = (fold act (work_before_end ws) s, list_ex ends ws)"
  by (induction act ws s rule: until_shutdown.induct) (simp_all add: work_before_end_def)

lemma work_before_end_stops: "ends w \<Longrightarrow> work_before_end (ws @ w # rest) = work_before_end ws"
proof (induction ws)
  case (Cons x ws)
  then show ?case by (cases x) (auto simp: work_before_end_def)
qed (auto simp: work_before_end_def elim: ends.elims)

lemma fold_accepted:
  "fold (\<lambda>accepted conns. case accepted of None \<Rightarrow> conns | Some c \<Rightarrow> conns @ [c]) xs cs =
   cs @ List.map_filter id xs"
  by (induction xs arbitrary: cs) (auto simp: map_filter_simps split: option.splits)

text \<open>
  Accepting is running the system's accept steps: as long as every accepted socket is a new one,
  the loop leaves the system where those steps lead, and it can always take them.
\<close>

lemma accept_loop_runs:
  assumes "distinct (map fst (List.map_filter id (work_before_end ws)))"
    and "\<forall>(i, ip) \<in> set (List.map_filter id (work_before_end ws)). sy_phase s i = CIdle"
  shows "sys_run cx (map (\<lambda>(i, ip). SAccept i ip) (List.map_filter id (work_before_end ws))) s =
         Some (fst (accept_loop ws s))"
proof -
  have "sys_run cx (map (\<lambda>(i, ip). SAccept i ip) (List.map_filter id xs)) s =
      Some (fold (\<lambda>accepted s. case accepted of None \<Rightarrow> s | Some (i, ip) \<Rightarrow> accept i ip s) xs s)"
    if "distinct (map fst (List.map_filter id xs))"
      and "\<forall>(i, ip) \<in> set (List.map_filter id xs). sy_phase s i = CIdle" for xs
    using that
  proof (induction xs arbitrary: s)
    case (Cons x xs)
    show ?case
    proof (cases x)
      case (Some c)
      obtain i ip where c: "c = (i, ip)" by (cases c)
      have "\<forall>(j, jp) \<in> set (List.map_filter id xs). sy_phase (accept i ip s) j = CIdle"
        using Cons.prems Some c by (force simp: accept_def map_filter_simps)
      with Cons Some c show ?thesis by (auto simp: map_filter_simps id_def)
    qed (use Cons in \<open>simp add: map_filter_simps\<close>)
  qed (simp add: map_filter_simps)
  from this [OF assms] show ?thesis by (simp add: accept_loop_def until_shutdown_fold)
qed

text \<open>
  Shutdown ends the loops it is meant to end, and nothing else does.  The accept loops, the control
  socket's loop and the prune loop each end exactly when the shutdown flag is seen set or its sender
  is gone, whatever else wakes them and however often the flag is seen unset; until then they handle
  everything that wakes them, in order, and afterwards nothing more, so what arrives later changes
  nothing.  The flag that \<open>shutdown\<close> sets is such a notice.  The control socket's file is removed
  when its loop ends and not before.  (The prune loop panics at its start instead when the sweep
  interval is zero.)
\<close>

lemma shutdown_ends_loops:
  "accept_loop ws s =
     (fold (\<lambda>accepted s. case accepted of None \<Rightarrow> s | Some (i, ip) \<Rightarrow> accept i ip s) (work_before_end ws) s,
      list_ex ends ws) \<and>
   serve_control_socket removed cs =
     (List.map_filter id (work_before_end cs), list_ex ends cs, \<not> (list_ex ends cs \<and> removed)) \<and>
   roster_prune_loop ts r =
     (if sweep_interval (ro_config r) = 0 then Panic
      else Ret (fold prune (work_before_end ts) r, list_ex ends ts)) \<and>
   accept_loop (ws @ shutdown_wake # later) s = (fst (accept_loop ws s), True) \<and>
   serve_control_socket removed (cs @ shutdown_wake # later') =
     (fst (serve_control_socket removed cs), True, \<not> removed)"
proof -
  have sw: "ends (shutdown_wake :: (nat \<times> string) option wake)" "ends (shutdown_wake :: nat option wake)"
    by (simp_all add: shutdown_wake_def)
  show ?thesis
    by (simp add: accept_loop_def serve_control_socket_def roster_prune_loop_def until_shutdown_fold
        fold_accepted work_before_end_stops sw)
qed

end
