(* ===== verification/Cli.thy ===== *)
theory Cli
  imports Serve
begin

text \<open>
  The command line of \<open>src/src/main.rs\<close>: every subcommand, from its parsed arguments to the lines
  it prints and how the process ends.

  \<^item> What the commands find outside (state directory, hostname, environment, the control socket, the
    advertise file, the clock and random bytes of the token store) is the record \<open>cli_env\<close>; the
    token file is passed and returned.
  \<^item> The result is the lines written to standard output and the end: success, an error (printed as
    \<open>error: ...\<close> and exit code 1), an explicit exit code, or a panic.
  \<^item> Parsing the arguments is the \<open>clap\<close> library's; the datatypes below are what it hands over.
\<close>

section \<open>Commands\<close>

datatype token_command =
    TokMint "string option" "string option"
  | TokList bool
  | TokDelete string
  | TokPing string
  | TokRedeem string string string

datatype client_command = CliList bool | CliDetach string

datatype command =
    CmdToken token_command
  | CmdClient client_command
  | CmdServe "string list" "string option"
  | CmdStatus "string option" bool
  | CmdSupport "string list" bool
  | CmdCaps "string option" bool
  | CmdQuery "string list" bool
  | CmdRoster bool
  | CmdSay string string
  | CmdInterrupt string
  | CmdAnswer string string

datatype cli_end = Done | Failed string | ExitWith int | Panicked

type_synonym cli_result = "string list \<times> cli_end"

record cli_env =
  ci_json :: json_lib
  ci_pretty :: "json \<Rightarrow> string"
  ci_quoted :: "string \<Rightarrow> string"
  ci_tokens :: token_lib
  ci_call :: token_call
  ci_vars :: "string \<Rightarrow> string option"
  ci_open_error :: "string option"
  ci_hostname :: "string + string"
  ci_dial :: dial
  ci_advertise :: "string option"

text \<open>The exit status a Unix parent sees: the low eight bits.\<close>

fun exit_status :: "cli_end \<Rightarrow> int" where
  "exit_status Done = 0"
| "exit_status (Failed e) = 1"
| "exit_status (ExitWith code) = code mod 256"
| "exit_status Panicked = 101"

definition KNOWN_QUERY_CMDS :: "string list" where
  "KNOWN_QUERY_CMDS = [''status'', ''caps'', ''support'', ''protocol'']"

text \<open>\<open>TokenStore::open\<close> creates the state directory first.\<close>

definition with_store :: "cli_env \<Rightarrow> cli_result \<Rightarrow> cli_result" where
  "with_store ce k =
     (case ci_open_error ce of
        Some m \<Rightarrow> ([], Failed (token_error_display (ci_quoted ce) (Io m)))
      | None \<Rightarrow> k)"

section \<open>Output\<close>

fun join_with :: "string \<Rightarrow> string list \<Rightarrow> string" where
  "join_with sep [] = []"
| "join_with sep [s] = s"
| "join_with sep (s # ss) = s @ sep @ join_with sep ss"

definition trim_end :: "string \<Rightarrow> string" where
  "trim_end s = concat (rev (dropWhile is_whitespace (rev (utf8_chars s))))"

text \<open>Columns as wide as their longest cell in bytes, two spaces apart.\<close>

definition column_widths :: "string list \<Rightarrow> string list list \<Rightarrow> nat list" where
  "column_widths headers rows =
     fold (\<lambda>row ws. map2 max ws (map length row)) rows (map length headers)"

definition table_row :: "nat list \<Rightarrow> string list \<Rightarrow> string" where
  "table_row widths cells = trim_end (join_with ''  '' (map2 pad_right widths cells))"

definition table_lines :: "string list \<Rightarrow> string list list \<Rightarrow> string list" where
  "table_lines headers rows = map (table_row (column_widths headers rows)) (headers # rows)"

definition print_table :: "token_view list \<Rightarrow> string list" where
  "print_table views =
     table_lines [''TOKEN_ID'', ''STATE'', ''CLIENT_ID'', ''MACHINE'', ''LABEL'', ''LAST_SEEN'', ''EXPIRES'']
       (map (\<lambda>v. [tv_token_id v, tv_state v, tv_client_id v, tv_machine v, tv_label v, tv_last_seen v,
                  tv_expires v]) views)"

definition print_roster_table :: "roster_row_doc list \<Rightarrow> string list" where
  "print_roster_table rows =
     table_lines [''SESSION'', ''HARNESS'', ''CLIENT_ID'', ''STATE'', ''LAST_SEEN'', ''MODE'', ''HARNESS_ID'', ''BLOCKED'']
       (map (\<lambda>r. [rd_name r, rd_harness r, rd_client_id r, rd_state r,
                  show_nat (rd_last_seen_ms r div 1000) @ ''s ago'', unwrap_or (rd_mode r) ''spawn'',
                  unwrap_or (rd_harness_session_id r) ''-'', if rd_blocked r then ''blocked'' else ''-'']) rows)"

definition token_view_json :: "token_view \<Rightarrow> json" where
  "token_view_json v =
     struct_json [(''token_id'', Some (JString (tv_token_id v))), (''state'', Some (JString (tv_state v))),
       (''machine'', Some (JString (tv_machine v))), (''client_id'', Some (JString (tv_client_id v))),
       (''label'', Some (JString (tv_label v))), (''last_seen'', Some (JString (tv_last_seen v))),
       (''expires'', Some (JString (tv_expires v)))]"

definition print_status_like :: "query_ok_body \<Rightarrow> string list" where
  "print_status_like b =
     (let rest = qok_rest b;
          get_str = (\<lambda>k. unwrap_or (Option.bind (json_get rest k) as_str) ''?'');
          get_num = (\<lambda>k. show_nat (unat (unwrap_or (Option.bind (json_get rest k) as_u64) 0)));
          listening = Option.bind (json_get rest ''listening'') as_array;
          up = (case listening of Some l \<Rightarrow> l \<noteq> [] | None \<Rightarrow> False)
      in [''role:      '' @ get_str ''role'', ''hostname:  '' @ get_str ''hostname'',
          ''protocol:  '' @ get_num ''protocol'' @ '' (min '' @ get_num ''protocol_min'' @ '' max '' @
            get_num ''protocol_max'' @ '')'',
          ''listening: '' @ (if up then join_with '', '' (List.map_filter as_str (the listening)) else ''not running''),
          ''clients:   '' @ get_num ''clients'',
          ''status:    '' @ (if up then ''healthy'' else ''not running'')] @
         (case json_get rest ''capabilities'' of
            Some (JObject caps) \<Rightarrow>
              ''capabilities:'' #
              map (\<lambda>i. ''  '' @ i @ '': '' @
                     (if Option.bind (Option.bind (map_of caps i) (\<lambda>c. json_get c ''ok'')) as_bool = Some True
                      then ''ok'' else ''no'')) (sort (map fst caps))
          | _ \<Rightarrow> []))"

definition print_generic :: "json_lib \<Rightarrow> query_ok_body \<Rightarrow> string list" where
  "print_generic lib b =
     (''cmd: '' @ qok_cmd b) #
     (case qok_rest b of
        JObject kvs \<Rightarrow> map (\<lambda>k. k @ '': '' @ jl_to_string lib (the (map_of kvs k))) (sort (map fst kvs))
      | _ \<Rightarrow> [])"

definition print_join_command :: "cli_env \<Rightarrow> string \<Rightarrow> string \<Rightarrow> string list" where
  "print_join_command ce token_id secret =
     (case advertise_read (ci_json ce) (ci_advertise ce) of
        Reachable address \<Rightarrow>
          [CHR 0x0A # ''Run on the joining machine:'',
           ''  holler join --server ws://'' @ address @ '' --token '' @ token_id @ '':'' @ secret]
      | _ \<Rightarrow>
          [CHR 0x0A # ''warning: server is bound to loopback only (or has not been started) '' @
           [CHR 0xE2, CHR 0x80, CHR 0x94] @
           '' no reachable address to advertise; set --advertise on `holler-server serve`, or '' @
           ''construct the join command manually with the correct address.''])"

definition print_redeem_result :: "redeem_result \<Rightarrow> string list" where
  "print_redeem_result r =
     [''token_id:   '' @ rr_token_id r, ''client_id:  '' @ rr_client_id r, ''credential: '' @ rr_credential r,
      CHR 0x0A # ''This credential is shown once and is not stored. Save it now.'']"

definition error_text :: "error_body \<Rightarrow> string" where
  "error_text e = err_code e @ '': '' @ unwrap_or (err_message e) []"

definition NO_SERVER :: string where
  "NO_SERVER = ''no live `holler-server serve` process is reachable on this host''"

section \<open>Queries\<close>

definition cli_query_command :: "cli_env \<Rightarrow> string \<Rightarrow> string option \<Rightarrow> string list \<Rightarrow> bool \<Rightarrow> cli_result" where
  "cli_query_command ce c target args json =
     with_store ce
       (let show = (\<lambda>b. if json then [ci_pretty ce (qok_rest b)]
                        else if qok_cmd b = ''status'' \<or> qok_cmd b = ''caps'' then print_status_like b
                        else print_generic (ci_json ce) b)
        in case run_query (ci_json ce) (ci_dial ce) target c args of
             Some (QrOk b) \<Rightarrow> (show b, Done)
           | Some (QrErr e) \<Rightarrow> ([], Failed (error_text e))
           | reply \<Rightarrow>
               (case target of
                  Some i \<Rightarrow>
                    ([], Failed (if reply = Some QrNotConnected
                                 then ''no live connection matches '' @ ci_quoted ce i else NO_SERVER))
                | None \<Rightarrow>
                    (case ci_hostname ce of
                       Inl e \<Rightarrow> ([], Failed e)
                     | Inr hostname \<Rightarrow>
                         (case dispatch (ci_quoted ce) c args hostname [] 0 0 [] of
                            Inr b \<Rightarrow> (show b, Done)
                          | Inl e \<Rightarrow> ([], Failed (error_text e))))))"

definition cli_status :: "cli_env \<Rightarrow> string option \<Rightarrow> bool \<Rightarrow> cli_result" where
  "cli_status ce i json = cli_query_command ce ''status'' i [] json"

text \<open>The argument parser hands over one or two arguments.\<close>

definition cli_support :: "cli_env \<Rightarrow> string list \<Rightarrow> bool \<Rightarrow> cli_result" where
  "cli_support ce args json =
     (case args of
        [target, feature] \<Rightarrow> cli_query_command ce ''support'' (Some target) [feature] json
      | feature # _ \<Rightarrow> cli_query_command ce ''support'' None [feature] json
      | [] \<Rightarrow> ([], Panicked))"

definition cli_caps :: "cli_env \<Rightarrow> string option \<Rightarrow> bool \<Rightarrow> cli_result" where
  "cli_caps ce i json = cli_query_command ce ''caps'' i [] json"

definition cli_query :: "cli_env \<Rightarrow> string list \<Rightarrow> bool \<Rightarrow> cli_result" where
  "cli_query ce args json =
     (case args of
        [] \<Rightarrow> ([], Panicked)
      | c # rest \<Rightarrow>
          (case rest of
             d # rest' \<Rightarrow>
               if c \<notin> set KNOWN_QUERY_CMDS then cli_query_command ce d (Some c) rest' json
               else cli_query_command ce c None rest json
           | [] \<Rightarrow> cli_query_command ce c None [] json))"

definition cli_roster :: "cli_env \<Rightarrow> bool \<Rightarrow> cli_result" where
  "cli_roster ce json =
     with_store ce
       (let rows = query_roster (ci_json ce) (ci_dial ce)
        in (if json then [ci_pretty ce (JArray (map roster_row_doc_json rows))] else print_roster_table rows, Done))"

section \<open>Sessions\<close>

definition clamp_i32 :: "int \<Rightarrow> int" where
  "clamp_i32 i = min (max i (- (2 ^ 31))) (2 ^ 31 - 1)"

definition cli_say :: "cli_env \<Rightarrow> string \<Rightarrow> string \<Rightarrow> cli_result" where
  "cli_say ce session msg =
     with_store ce
       (case run_say (ci_json ce) (ci_dial ce) session msg of
          OReached (SyOk answer code) \<Rightarrow>
            ([answer], case code of
                         Some n \<Rightarrow> if n \<noteq> 0 then ExitWith (clamp_i32 n) else Done
                       | None \<Rightarrow> Done)
        | OReached SyInterrupted \<Rightarrow> ([], Failed ''prompt was interrupted before it completed'')
        | OReached (SyErr e) \<Rightarrow> ([], Failed (error_text e))
        | OTimedOut \<Rightarrow>
            ([], Failed (''say to '' @ ci_quoted ce session @ '' timed out waiting for a reply '' @
                         [CHR 0xE2, CHR 0x80, CHR 0x94] @
                         '' the session may still be working; try `holler-server say` again or check `holler-server roster`''))
        | ONotReachable \<Rightarrow> ([], Failed NO_SERVER))"

definition connection_gone :: "cli_env \<Rightarrow> string \<Rightarrow> string" where
  "connection_gone ce session = ''session '' @ ci_quoted ce session @ [CHR 0x27] @ ''s connection is gone''"

definition no_answer :: "cli_env \<Rightarrow> string \<Rightarrow> string \<Rightarrow> string" where
  "no_answer ce what session =
     what @ '' to '' @ ci_quoted ce session @ '' timed out waiting for a reply from the server '' @
     [CHR 0xE2, CHR 0x80, CHR 0x94] @
     '' the session may still be working; try `holler-server status` to check whether the server is still up''"

definition cli_interrupt :: "cli_env \<Rightarrow> string \<Rightarrow> cli_result" where
  "cli_interrupt ce session =
     with_store ce
       (case run_interrupt (ci_json ce) (ci_dial ce) session of
          OReached IrOk \<Rightarrow> ([''interrupted '' @ session], Done)
        | OReached IrTimedOut \<Rightarrow>
            ([], Failed (''interrupt sent to '' @ ci_quoted ce session @ '', but no ack arrived in time '' @
                         [CHR 0xE2, CHR 0x80, CHR 0x94] @
                         '' the connection is alive but the cancel may not have landed''))
        | OReached IrDisconnected \<Rightarrow> ([], Failed (connection_gone ce session))
        | OReached (IrErr e) \<Rightarrow> ([], Failed (error_text e))
        | OTimedOut \<Rightarrow> ([], Failed (no_answer ce ''interrupt'' session))
        | ONotReachable \<Rightarrow> ([], Failed NO_SERVER))"

definition cli_answer :: "cli_env \<Rightarrow> string \<Rightarrow> string \<Rightarrow> cli_result" where
  "cli_answer ce session choice =
     with_store ce
       (case run_answer (ci_json ce) (ci_dial ce) session choice of
          OReached ArOk \<Rightarrow> ([''answered '' @ session], Done)
        | OReached ArTimedOut \<Rightarrow>
            ([], Failed (''answer sent to '' @ ci_quoted ce session @ '', but no ack arrived in time '' @
                         [CHR 0xE2, CHR 0x80, CHR 0x94] @
                         '' the connection is alive but the reply may not have landed''))
        | OReached ArDisconnected \<Rightarrow> ([], Failed (connection_gone ce session))
        | OReached (ArErr e) \<Rightarrow> ([], Failed (error_text e))
        | OTimedOut \<Rightarrow> ([], Failed (no_answer ce ''answer'' session))
        | ONotReachable \<Rightarrow> ([], Failed NO_SERVER))"

section \<open>Tokens and clients\<close>

definition token_failed :: "cli_env \<Rightarrow> token_error \<Rightarrow> cli_result" where
  "token_failed ce e = ([], Failed (token_error_display (ci_quoted ce) e))"

text \<open>What a store operation leaves for the rest of the command.\<close>

definition on_ret :: "cli_env \<Rightarrow> (token_error, 'a) exec \<Rightarrow> ('a \<Rightarrow> cli_result) \<Rightarrow> cli_result" where
  "on_ret ce r k =
     (case r of Ret x \<Rightarrow> k x | Raise e \<Rightarrow> token_failed ce e | Panic \<Rightarrow> ([], Panicked))"

text \<open>Asking a live server to close the connection too; whatever it answers is ignored.\<close>

definition notify_live_revoke :: "cli_env \<Rightarrow> string \<Rightarrow> unit" where
  "notify_live_revoke ce i = (case run_revoke (ci_json ce) (ci_dial ce) i of _ \<Rightarrow> ())"

definition cli_delete :: "cli_env \<Rightarrow> string \<Rightarrow> string \<Rightarrow> token_store \<Rightarrow> cli_result \<times> token_store" where
  "cli_delete ce what i st =
     (case delete (ci_tokens ce) (ci_call ce) i st of
        (r, st') \<Rightarrow>
          (on_ret ce r (\<lambda>new_state.
             case notify_live_revoke ce i of
               () \<Rightarrow> ([what @ '' '' @ i @ '' is now '' @ display_state_display new_state], Done)), st'))"

definition print_views :: "cli_env \<Rightarrow> bool \<Rightarrow> token_view list \<Rightarrow> cli_result" where
  "print_views ce json views =
     (if json then [ci_pretty ce (JArray (map token_view_json views))] else print_table views, Done)"

fun cli_token :: "cli_env \<Rightarrow> token_command \<Rightarrow> token_store \<Rightarrow> cli_result \<times> token_store" where
  "cli_token ce (TokMint label ttl) st =
     (case (case ttl of Some s \<Rightarrow> parse_ttl s | None \<Rightarrow> Ret DEFAULT_TTL) of
        Ret t \<Rightarrow>
          (case mint (ci_tokens ce) (ci_call ce) label t st of
             (r, st') \<Rightarrow>
               (on_ret ce r (\<lambda>minted.
                  ([''token_id: '' @ mr_token_id minted, ''secret:   '' @ mr_secret minted,
                    ''expires:  '' @ mr_expires minted,
                    CHR 0x0A # ''This secret is shown once and is not stored. Save it now.''] @
                   print_join_command ce (mr_token_id minted) (mr_secret minted), Done)), st'))
      | Raise e \<Rightarrow> (token_failed ce e, st)
      | Panic \<Rightarrow> (([], Panicked), st))"
| "cli_token ce (TokList json) st =
     (on_ret ce (list_tokens (ci_tokens ce) (ci_call ce) st) (print_views ce json), st)"
| "cli_token ce (TokDelete i) st = cli_delete ce ''token'' i st"
| "cli_token ce (TokPing i) st =
     (on_ret ce (token_ping (ci_tokens ce) (ci_call ce) i (live_probe (ci_json ce) (ci_dial ce)) st)
        (\<lambda>r. case r of PingConnected hostname rtt_ms \<Rightarrow>
               ([hostname @ '' rtt='' @ show_nat (unat rtt_ms) @ ''ms''], Done)), st)"
| "cli_token ce (TokRedeem i secret machine) st =
     (case redeem (ci_tokens ce) (ci_call ce) i secret machine st of
        (r, st') \<Rightarrow> (on_ret ce r (\<lambda>x. (print_redeem_result x, Done)), st'))"

fun cli_client :: "cli_env \<Rightarrow> client_command \<Rightarrow> token_store \<Rightarrow> cli_result \<times> token_store" where
  "cli_client ce (CliList json) st =
     (on_ret ce (list_tokens (ci_tokens ce) (ci_call ce) st)
        (\<lambda>views. print_views ce json (filter (\<lambda>v. tv_state v = ''bound'') views)), st)"
| "cli_client ce (CliDetach i) st = cli_delete ce ''client'' i st"

section \<open>Serving\<close>

fun split_on :: "char \<Rightarrow> string \<Rightarrow> string list" where
  "split_on c [] = [[]]"
| "split_on c (x # xs) =
     (if x = c then [] # split_on c xs
      else case split_on c xs of s # ss \<Rightarrow> (x # s) # ss | [] \<Rightarrow> [[x]])"

fun parse_specs :: "string list \<Rightarrow> string + socket_addr list" where
  "parse_specs [] = Inr []"
| "parse_specs (s # ss) =
     (case parse_listen_spec s of
        Inl e \<Rightarrow> Inl e
      | Inr a \<Rightarrow> (case parse_specs ss of Inl e \<Rightarrow> Inl e | Inr as \<Rightarrow> Inr (a # as)))"

definition resolve_listen_addrs :: "(string \<Rightarrow> string option) \<Rightarrow> string list \<Rightarrow> string + socket_addr list" where
  "resolve_listen_addrs vars flag_values =
     parse_specs
       (if flag_values \<noteq> [] then flag_values
        else case vars ''HOLLER_LISTEN'' of
               Some v \<Rightarrow> filter (\<lambda>s. s \<noteq> []) (map trim (split_on CHR '','' v))
             | None \<Rightarrow> [''127.0.0.1:41807''])"

definition resolve_debug_config ::
  "cli_env \<Rightarrow> string option \<Rightarrow> string option \<Rightarrow> string + debug_config" where
  "resolve_debug_config ce debug_flag format_flag =
     (case debug_level_resolve debug_flag (ci_vars ce ''HOLLER_DEBUG'') of
        Inl v \<Rightarrow> Inl (debug_level_error_display (ci_quoted ce) v)
      | Inr level \<Rightarrow>
          (case log_format_resolve format_flag (ci_vars ce ''HOLLER_LOG_FORMAT'') of
             Inl v \<Rightarrow> Inl (log_format_error_display (ci_quoted ce) v)
           | Inr fmt \<Rightarrow> Inr \<lparr>dc_level = level, dc_format = fmt\<rparr>))"

definition already_running_display :: "(string \<Rightarrow> string) \<Rightarrow> string \<Rightarrow> string" where
  "already_running_display quoted path =
     ''another holler-server serve process is already running against this state dir (a live process answered at '' @
     quoted path @ ''); stop it first, or point HOLLER_STATE_DIR at a different directory''"

fun serve_error_display :: "(string \<Rightarrow> string) \<Rightarrow> serve_error \<Rightarrow> string" where
  "serve_error_display quoted (NonLoopbackWithoutTls a) = non_loopback_display a"
| "serve_error_display quoted (ServeIo e) = e"
| "serve_error_display quoted (ServeStore e) = e"
| "serve_error_display quoted (ServeControl (AlreadyRunning path)) = already_running_display quoted path"
| "serve_error_display quoted (ServeControl (BindIo e)) = e"

text \<open>
  What a start does, in order: it opens the state directory, writes the advertise file (a failed write
  leaves the file as given) and does what \<open>serve\<close> does.
\<close>

datatype start_act =
    OpenStateDir
  | PersistAdvertise "string option"
  | AdvertiseLeft "string option"
  | ServeAct serve_act

text \<open>
  Until Ctrl-C.  The arguments after the system calls of \<open>serve\<close>: a failed write of the advertise
  file, a runtime that cannot be created, an error while waiting for Ctrl-C.
\<close>

definition cli_serve ::
  "cli_env \<Rightarrow> conn_ctx \<Rightarrow> serve_os \<Rightarrow> (string \<times> string option) option \<Rightarrow> string option \<Rightarrow> string option
   \<Rightarrow> string list \<Rightarrow> string option \<Rightarrow> start_act list \<times> cli_result" where
  "cli_serve ce cx0 os write_failure runtime_error signal_error listen advertise_flag =
     (case resolve_listen_addrs (ci_vars ce) listen of
        Inl v \<Rightarrow> ([], [], Failed (listen_parse_error_display (ci_quoted ce) v))
      | Inr addrs \<Rightarrow>
          (case ci_open_error ce of
             Some m \<Rightarrow> ([OpenStateDir], [], Failed (token_error_display (ci_quoted ce) (Io m)))
           | None \<Rightarrow>
               (let address = resolve_advertise advertise_flag addrs
                in case persist (ci_pretty ce) write_failure address of
                     (Inl e, left) \<Rightarrow> ([OpenStateDir, AdvertiseLeft left], [], Failed e)
                   | (Inr _, written) \<Rightarrow>
                       (case runtime_error of
                          Some e \<Rightarrow> ([OpenStateDir, PersistAdvertise address], [], Failed e)
                        | None \<Rightarrow>
                            (case serve cx0 os (state_dir (ci_vars ce)) addrs of
                               (acts, r) \<Rightarrow>
                                 ([OpenStateDir, PersistAdvertise address] @ map ServeAct acts,
                                  case r of
                                    Raise e \<Rightarrow> ([], Failed (serve_error_display (ci_quoted ce) e))
                                  | Panic \<Rightarrow> ([], Panicked)
                                  | Ret h \<Rightarrow>
                                      (let up = ''holler-server listening on: '' @
                                             join_with '', '' (map (\<lambda>a. ''ws://'' @ show_socket_addr a) (sh_addrs h))
                                       in case signal_error of
                                            Some e \<Rightarrow> ([up], Failed e)
                                          | None \<Rightarrow> ([up, ''holler-server: shutting down''], Done))))))))"

section \<open>The program\<close>

text \<open>
  \<open>main\<close>: the two debug settings are resolved before anything else.  The last component is what
  \<open>serve\<close> did to the host.
\<close>

definition cli_main ::
  "cli_env \<Rightarrow> conn_ctx \<Rightarrow> serve_os \<Rightarrow> (string \<times> string option) option \<Rightarrow> string option \<Rightarrow> string option
   \<Rightarrow> string option \<Rightarrow> string option \<Rightarrow> command \<Rightarrow> token_store \<Rightarrow> cli_result \<times> token_store \<times> start_act list" where
  "cli_main ce cx0 os write_failure runtime_error signal_error debug_flag format_flag cmd st =
     (case resolve_debug_config ce debug_flag format_flag of
        Inl e \<Rightarrow> (([], Failed e), st, [])
      | Inr cfg \<Rightarrow>
          (case cmd of
             CmdToken c \<Rightarrow>
               (case ci_open_error ce of
                  Some m \<Rightarrow> (token_failed ce (Io m), st, [])
                | None \<Rightarrow> (case cli_token ce c st of (r, st') \<Rightarrow> (r, st', [])))
           | CmdClient c \<Rightarrow>
               (case ci_open_error ce of
                  Some m \<Rightarrow> (token_failed ce (Io m), st, [])
                | None \<Rightarrow> (case cli_client ce c st of (r, st') \<Rightarrow> (r, st', [])))
           | CmdServe listen advertise_flag \<Rightarrow>
               (case cli_serve ce cx0 os write_failure runtime_error signal_error listen advertise_flag of
                  (acts, r) \<Rightarrow> (r, st, acts))
           | CmdStatus i json \<Rightarrow> (cli_status ce i json, st, [])
           | CmdSupport args json \<Rightarrow> (cli_support ce args json, st, [])
           | CmdCaps i json \<Rightarrow> (cli_caps ce i json, st, [])
           | CmdQuery args json \<Rightarrow> (cli_query ce args json, st, [])
           | CmdRoster json \<Rightarrow> (cli_roster ce json, st, [])
           | CmdSay session msg \<Rightarrow> (cli_say ce session msg, st, [])
           | CmdInterrupt session \<Rightarrow> (cli_interrupt ce session, st, [])
           | CmdAnswer session choice \<Rightarrow> (cli_answer ce session choice, st, [])))"

section \<open>Lemmas\<close>

lemma parse_specs_Nil: "list_all (\<lambda>s. trim s = []) ss \<Longrightarrow> filter (\<lambda>s. s \<noteq> []) (map trim ss) = []"
  by (induction ss) simp_all

text \<open>A query to a live server comes back as the handler's answer.\<close>

lemma served_query:
  assumes "json_line (cx_json cx) (request_json (ReqQuery target c args))"
    and "handle_query cx cv target c args sv = (RespQuery reply, sv', fx)"
    and "case reply of QrOk b \<Rightarrow> query_ok_wf b | _ \<Rightarrow> True"
    and "\<And>j. query_reply_json reply = Some j \<Longrightarrow> json_line (cx_json cx) j"
  shows "run_query (cx_json cx) (served_dial cx cv sv) target c args = Some reply"
proof -
  obtain j where j: "query_reply_json reply = Some j" "query_reply_from (canon j) = Some reply"
    using query_reply_roundtrip [OF assms(3)] by blast
  with assms(2) obtain line where
    "run_client_query_with_timeout (cx_json cx) (served_dial cx cv sv) (ReqQuery target c args) CLIENT_TIMEOUT =
       Reached line" "read_doc (cx_json cx) query_reply_from line = query_reply_from (canon j)"
    using served_exchange [OF assms(1), of cv sv "RespQuery reply" sv' fx j CLIENT_TIMEOUT query_reply_from] assms(4)
    by auto
  with j(2) show ?thesis by (simp add: run_query_def run_client_query_def)
qed

text \<open>A command line in a given environment, with a given library and control socket.\<close>

definition demo_cli :: "json_lib \<Rightarrow> dial \<Rightarrow> (string \<Rightarrow> string option) \<Rightarrow> cli_env" where
  "demo_cli lib d vars =
     \<lparr>ci_json = lib, ci_pretty = (\<lambda>_. ''doc''), ci_quoted = id, ci_tokens = demo_token_lib, ci_call = demo_call 5,
      ci_vars = vars, ci_open_error = None, ci_hostname = Inr ''hub'', ci_dial = d, ci_advertise = None\<rparr>"

section \<open>Properties\<close>

text \<open>
  C17: asking the live server.  \<open>status\<close>, \<open>support\<close>, \<open>caps\<close> and \<open>query\<close> without a target get back the
  answer of the running server's dispatcher about its own live connections, sessions and confirmed
  harnesses, through both JSON encodings of the control channel, or fail with exactly its error.  The
  answer is printed as the summary for \<open>status\<close> and \<open>caps\<close> and member by member for the others; with
  \<open>--json\<close> what is printed is the answer's document without its \<open>cmd\<close> member, which is not the whole
  \<open>query_ok\<close> body that section 8 of \<open>docs/protocol/v1.md\<close> promises.
\<close>

theorem cli_query_end_to_end:
  assumes "ci_open_error ce = None" and "ci_json ce = cx_json cx" and "ci_dial ce = served_dial cx cv sv"
    and "answer = dispatch (cx_quoted cx) c args (cx_hostname cx) (cx_listening cx)
           (of_nat (registry_len (sv_registry sv))) (of_nat (live_count (cv_now cv) (sv_roster sv)))
           (confirmed_harnesses_snapshot (sv_registry sv))"
    and "json_line (cx_json cx) (request_json (ReqQuery None c args))"
    and "\<forall>j. query_reply_json (case answer of Inr b \<Rightarrow> QrOk b | Inl e \<Rightarrow> QrErr e) = Some j \<longrightarrow> json_line (cx_json cx) j"
  shows "cli_query_command ce c None args json =
           (case answer of
              Inl e \<Rightarrow> ([], Failed (err_code e @ '': '' @ unwrap_or (err_message e) []))
            | Inr b \<Rightarrow>
                (if json then [ci_pretty ce (qok_rest b)]
                 else if qok_cmd b = ''status'' \<or> qok_cmd b = ''caps'' then print_status_like b
                 else print_generic (ci_json ce) b, Done))"
proof -
  let ?reply = "case answer of Inr b \<Rightarrow> QrOk b | Inl e \<Rightarrow> QrErr e"
  have "handle_query cx cv None c args sv = (RespQuery ?reply, sv, [])"
    by (simp add: handle_query_def assms(4))
  moreover have "case ?reply of QrOk b \<Rightarrow> query_ok_wf b | _ \<Rightarrow> True"
    using dispatch_wf assms(4) by (auto split: sum.splits)
  ultimately have "run_query (ci_json ce) (ci_dial ce) None c args = Some ?reply"
    using served_query [OF assms(5), of cv sv ?reply sv "[]"] assms(2,3,6) by simp
  with assms(1) show ?thesis
    by (simp add: cli_query_command_def with_store_def Let_def error_text_def split: sum.splits)
qed

theorem cli_query_end_to_end_witness:
  "let e = error_body_of CODE_UNKNOWN_CMD (Some ''bogus'') ''unknown query cmd: bogus'';
       cx = demo_ctx (demo_exchange_lib (request_json (ReqQuery None ''bogus'' []))
              (the (query_reply_json (QrErr e))))
   in cli_query_command (demo_cli (cx_json cx) (served_dial cx (demo_control_env []) demo_live_server) (\<lambda>_. None))
        ''bogus'' None [] False =
      ([], Failed (CODE_UNKNOWN_CMD @ '': unknown query cmd: bogus''))"
proof -
  define e where "e = error_body_of CODE_UNKNOWN_CMD (Some ''bogus'') ''unknown query cmd: bogus''"
  define q a where "q = request_json (ReqQuery None ''bogus'' [])" and "a = the (query_reply_json (QrErr e))"
  define cx where "cx = demo_ctx (demo_exchange_lib q a)"
  have "canon q \<noteq> canon a" by (simp add: q_def a_def canon_tagged obj_of_def List.map_filter_simps)
  note lines = demo_exchange_lines [OF this]
  have "cli_query_command (demo_cli (cx_json cx) (served_dial cx (demo_control_env []) demo_live_server) (\<lambda>_. None))
      ''bogus'' None [] False = ([], Failed (err_code e @ '': '' @ unwrap_or (err_message e) []))"
  proof (subst cli_query_end_to_end [where answer = "Inl e" and cx = cx and cv = "demo_control_env []"
        and sv = demo_live_server])
    show "json_line (cx_json cx) (request_json (ReqQuery None ''bogus'' []))"
      using lines(1) by (simp add: cx_def demo_ctx_def q_def)
    show "\<forall>j. query_reply_json (case Inl e of Inr b \<Rightarrow> QrOk b | Inl e \<Rightarrow> QrErr e) = Some j \<longrightarrow>
        json_line (cx_json cx) j"
      using lines(2) by (simp add: cx_def demo_ctx_def a_def)
  qed (simp_all add: demo_cli_def dispatch_def e_def)
  then show ?thesis by (simp add: Let_def e_def cx_def q_def a_def error_body_of_def)
qed

text \<open>
  C16: a start fails closed or serves only loopback.  When any listen address is not loopback, or a
  live server owns the state directory, \<open>serve\<close> prints nothing, ends with an error and touches no
  socket: all it may have done is to open the state directory and to write the advertised address (which
  it does before these checks, so that the record of the running server is replaced).  When it reports
  that it listens, every address is loopback, no live server owned the state directory, a leftover
  socket file was removed only when nobody answered on it, the control socket was bound before the
  first port, and each address was bound once, in order.
\<close>

theorem start_fails_closed:
  assumes "resolve_listen_addrs (ci_vars ce) listen = Inr addrs"
    and "cli_serve ce cx0 os write_failure runtime_error signal_error listen flag = (acts, out, fin)"
    and "owned \<longleftrightarrow> bp_exists (so_control os) \<and> bp_live (so_control os)"
    and "safe \<longleftrightarrow> list_all (\<lambda>a. is_loopback (sa_ip a)) addrs"
  shows "(owned \<or> \<not> safe \<longrightarrow>
            out = [] \<and> (\<exists>e. fin = Failed e) \<and>
            (\<forall>a \<in> set acts. a \<in> {OpenStateDir, PersistAdvertise (resolve_advertise flag addrs), ServeAct OpenStore} \<or>
                            (\<exists>left. a = AdvertiseLeft left))) \<and>
         (out \<noteq> [] \<longrightarrow>
            safe \<and> \<not> owned \<and>
            acts = [OpenStateDir, PersistAdvertise (resolve_advertise flag addrs), ServeAct OpenStore] @
                   (if bp_exists (so_control os) then [ServeAct RemoveStaleSocket] else []) @ [ServeAct BindControl] @
                   map ServeAct (map2 BindTcp [0..<length addrs] addrs))"
proof -
  obtain sacts r where s: "serve cx0 os (state_dir (ci_vars ce)) addrs = (sacts, r)"
    by (cases "serve cx0 os (state_dir (ci_vars ce)) addrs")
  have refused: "(\<exists>e. r = Raise e) \<and> set sacts \<subseteq> {OpenStore}" if "owned \<or> \<not> safe"
    using that assms(3,4) s serve_refused [of os addrs cx0 "state_dir (ci_vars ce)"] by auto
  have served: "safe \<and> \<not> owned \<and> sacts = control_acts (bp_exists (so_control os)) True @ map2 BindTcp [0..<length addrs] addrs"
    if "r = Ret h" for h
    using that assms(3,4) s serve_Ret [of cx0 os "state_dir (ci_vars ce)" addrs sacts h] by auto
  have "out = [] \<and> (\<exists>e. fin = Failed e) \<and>
      (\<forall>a \<in> set acts. a \<in> {OpenStateDir, PersistAdvertise (resolve_advertise flag addrs), ServeAct OpenStore} \<or>
                      (\<exists>left. a = AdvertiseLeft left))" if "owned \<or> \<not> safe"
    using refused [OF that] assms(1,2) s
    by (auto simp: cli_serve_def Let_def split: option.splits sum.splits prod.splits)
  moreover have "safe \<and> \<not> owned \<and>
      acts = [OpenStateDir, PersistAdvertise (resolve_advertise flag addrs), ServeAct OpenStore] @
             (if bp_exists (so_control os) then [ServeAct RemoveStaleSocket] else []) @ [ServeAct BindControl] @
             map ServeAct (map2 BindTcp [0..<length addrs] addrs)" if "out \<noteq> []"
    using served that assms(1,2) s
    by (auto simp: cli_serve_def Let_def control_acts_def split: option.splits sum.splits prod.splits exec.splits)
  ultimately show ?thesis by blast
qed

text \<open>A leftover socket file on which a live server answers, or nobody does.\<close>

definition demo_found :: "bool \<Rightarrow> serve_os" where
  "demo_found live = demo_os\<lparr>so_control := \<lparr>bp_exists = True, bp_live = live, bp_bind = None, bp_chmod = None\<rparr>\<rparr>"

definition demo_start :: "bool \<Rightarrow> start_act list \<times> cli_result" where
  "demo_start live = cli_serve (demo_cli (demo_lib JNull) (\<lambda>_ _. ConnectFailed) (\<lambda>_. None)) (demo_ctx (demo_lib JNull))
     (demo_found live) None None None [''41807''] (Some ''wrong.example'')"

lemma demo_spec:
  "resolve_listen_addrs (ci_vars (demo_cli (demo_lib JNull) (\<lambda>_ _. ConnectFailed) (\<lambda>_. None))) [''41807''] =
     Inr [\<lparr>sa_ip = LOCALHOST, sa_scope = 0, sa_port = 41807\<rparr>]"
proof -
  have spec: "''41807'' = show_nat (unat (41807 :: u16))" by (simp add: show_nat.simps) code_simp
  have "parse_listen_spec ''41807'' = Inr \<lparr>sa_ip = LOCALHOST, sa_scope = 0, sa_port = 41807\<rparr>"
    using parse_bare_port [of 41807] by (simp add: spec)
  then show ?thesis by (simp add: resolve_listen_addrs_def)
qed

theorem start_fails_closed_witness:
  "(\<exists>e. snd (demo_start True) = ([], Failed e)) \<and> ServeAct BindControl \<notin> set (fst (demo_start True)) \<and>
   fst (demo_start False) =
     [OpenStateDir, PersistAdvertise (Some ''wrong.example''), ServeAct OpenStore, ServeAct RemoveStaleSocket,
      ServeAct BindControl, ServeAct (BindTcp 0 \<lparr>sa_ip = LOCALHOST, sa_scope = 0, sa_port = 41807\<rparr>)]"
proof -
  obtain acts out fin where t: "demo_start True = (acts, out, fin)" by (cases "demo_start True")
  obtain acts' out' fin' where f: "demo_start False = (acts', out', fin')" by (cases "demo_start False")
  have os: "bp_exists (so_control (demo_found live))" "bp_live (so_control (demo_found live)) = live" for live
    by (simp_all add: demo_found_def)
  note refused = start_fails_closed [OF demo_spec t [unfolded demo_start_def] refl refl]
  note served = start_fails_closed [OF demo_spec f [unfolded demo_start_def] refl refl]
  have "out' \<noteq> []"
    using f demo_spec
    by (auto simp: demo_start_def cli_serve_def persist_def serve_def demo_found_def demo_os_def demo_cli_def Let_def
        bind_control_socket_def LOCALHOST_def connection_limits_from_env_def connection_limits_default_def env_parsed_def
        MAX_PERMITS_def)
  with refused served os t f show ?thesis by (auto simp: resolve_advertise_def)
qed

text \<open>
  A refused start has already replaced the advertised address.  When the addresses parse and
  the file can be written, \<open>serve\<close> records its advertised address first; then a start that is
  refused, because a live server owns the state directory or an address is not loopback, ends with
  an error and leaves that record behind, although the check of the control socket is documented
  to come before it.
\<close>

lemma refused_start_leaves_advertisement:
  assumes "resolve_listen_addrs (ci_vars ce) listen = Inr addrs" and "ci_open_error ce = None"
    and "bp_exists (so_control os) \<and> bp_live (so_control os) \<or> \<not> list_all (\<lambda>a. is_loopback (sa_ip a)) addrs"
  shows "\<exists>acts e. cli_serve ce cx0 os None None signal_error listen advertise_flag =
               (OpenStateDir # PersistAdvertise (resolve_advertise advertise_flag addrs) # acts, [], Failed e)"
proof -
  from serve_refused [OF assms(3), of cx0 "state_dir (ci_vars ce)"] assms(1,2) show ?thesis
    by (auto simp: cli_serve_def persist_def Let_def)
qed

text \<open>
  A blank \<open>HOLLER_LISTEN\<close> starts a server nobody can reach.  When the variable is set but holds
  no address, no default is used: the start succeeds and binds the control socket and no port.
\<close>

lemma blank_listen_binds_nothing:
  assumes "ci_vars ce ''HOLLER_LISTEN'' = Some v" and "list_all (\<lambda>s. trim s = []) (split_on CHR '','' v)"
    and "ci_open_error ce = None" and "so_hostname os = Inr hostname" and "so_store_error os = None"
    and "so_control os = \<lparr>bp_exists = False, bp_live = False, bp_bind = None, bp_chmod = None\<rparr>"
    and "cl_max_unauth_connections (connection_limits_from_env (so_env os)) \<le> MAX_PERMITS"
  shows "cli_serve ce cx0 os None None None [] None =
           ([OpenStateDir, PersistAdvertise None, ServeAct OpenStore, ServeAct BindControl],
            [''holler-server listening on: '', ''holler-server: shutting down''], Done)"
proof -
  have "resolve_listen_addrs (ci_vars ce) [] = Inr []"
    using assms(1,2) by (simp add: resolve_listen_addrs_def parse_specs_Nil)
  moreover have "\<exists>h. serve cx0 os (state_dir (ci_vars ce)) [] = ([OpenStore, BindControl], Ret h) \<and> sh_addrs h = []"
    using assms(4-7) by (simp add: serve_def bind_control_socket_def control_acts_def Let_def)
  ultimately show ?thesis
    using assms(3) by (auto simp: cli_serve_def persist_def resolve_advertise_def Let_def)
qed

lemma blank_listen_binds_nothing_at_work:
  "cli_serve (demo_cli (demo_lib JNull) (\<lambda>_ _. ConnectFailed) (\<lambda>k. if k = ''HOLLER_LISTEN'' then Some [] else None))
     (demo_ctx (demo_lib JNull))
     (demo_os\<lparr>so_control := \<lparr>bp_exists = False, bp_live = False, bp_bind = None, bp_chmod = None\<rparr>\<rparr>) None None None [] None =
   ([OpenStateDir, PersistAdvertise None, ServeAct OpenStore, ServeAct BindControl],
    [''holler-server listening on: '', ''holler-server: shutting down''], Done)"
  by (rule blank_listen_binds_nothing [where v = "[]" and hostname = "''hub''"])
     (simp_all add: demo_cli_def demo_os_def trim_def connection_limits_from_env_def connection_limits_default_def
       env_parsed_def MAX_PERMITS_def)

text \<open>
  The exit status of \<open>say\<close>.  The text is printed and a harness exit code in the range of 32 bits
  is handed to the operating system as it is, so the status seen outside is its remainder modulo
  256: a failing code that is a multiple of 256 is seen as success.
\<close>

lemma say_exit_status:
  assumes "ci_open_error ce = None"
    and "run_say (ci_json ce) (ci_dial ce) session msg = OReached (SyOk answer (Some n))"
    and "- (2 ^ 31) \<le> n" and "n < 2 ^ 31"
  shows "fst (cli_say ce session msg) = [answer] \<and>
         exit_status (snd (cli_say ce session msg)) = n mod 256 \<and>
         (exit_status (snd (cli_say ce session msg)) = 0 \<longleftrightarrow> 256 dvd n)"
  using assms by (auto simp: cli_say_def with_store_def clamp_i32_def dvd_eq_mod_eq_0)

lemma say_exit_status_at_work:
  "exit_status (snd (cli_say
     (demo_cli (demo_lib (say_reply_json (SyOk ''lost'' (Some 256)))) (\<lambda>_ _. ReadLine ''frame'') (\<lambda>_. None))
     ''alpha'' ''go'')) = 0"
proof -
  let ?ce = "demo_cli (demo_lib (say_reply_json (SyOk ''lost'' (Some 256)))) (\<lambda>_ _. ReadLine ''frame'') (\<lambda>_. None)"
  have "trim ''frame'' \<noteq> []" by code_simp
  moreover have "say_reply_from (canon (say_reply_json (SyOk ''lost'' (Some 256)))) = Some (SyOk ''lost'' (Some 256))"
    by (rule say_reply_codec.dec_enc) (simp add: in_i64_def)
  ultimately have "run_say (ci_json ?ce) (ci_dial ?ce) ''alpha'' ''go'' = OReached (SyOk ''lost'' (Some 256))"
    by (simp add: run_say_def slow_reply_def run_client_query_with_timeout_def read_doc_def demo_cli_def demo_lib_def
        del: say_reply_json.simps)
  from say_exit_status [OF _ this] show ?thesis by (simp add: demo_cli_def)
qed

text \<open>
  Bad debug settings stop the program first.  When the winning value of the debug level or of
  the log format (the flag, otherwise the environment) is not one of the accepted words, every
  command ends with an error, prints nothing, changes no token and does nothing to the host.
\<close>

lemma main_rejects_bad_settings:
  assumes "(case debug_flag of Some v \<Rightarrow> Some v | None \<Rightarrow> ci_vars ce ''HOLLER_DEBUG'') = Some v \<and>
             to_ascii_lowercase v \<notin> {''none'', ''quiet'', ''noisy''} \<or>
           (case format_flag of Some v \<Rightarrow> Some v | None \<Rightarrow> ci_vars ce ''HOLLER_LOG_FORMAT'') = Some v \<and>
             to_ascii_lowercase v \<notin> {''text'', ''json''}"
  shows "\<exists>e. cli_main ce cx0 os write_failure runtime_error signal_error debug_flag format_flag cmd st =
               (([], Failed e), st, [])"
proof -
  have "\<exists>e. resolve_debug_config ce debug_flag format_flag = Inl e"
  proof (cases "resolve_debug_config ce debug_flag format_flag")
    case (Inr cfg)
    then obtain l f where lf: "debug_level_resolve debug_flag (ci_vars ce ''HOLLER_DEBUG'') = Inr l"
        "log_format_resolve format_flag (ci_vars ce ''HOLLER_LOG_FORMAT'') = Inr f"
      by (auto simp: resolve_debug_config_def split: sum.splits)
    have "debug_level_as_str l \<in> {''none'', ''quiet'', ''noisy''}" "log_format_display f \<in> {''text'', ''json''}"
      by (cases l; simp) (cases f; simp)
    with lf assms level_setting.resolve_cases [of debug_flag "ci_vars ce ''HOLLER_DEBUG''"]
      format_setting.resolve_cases [of format_flag "ci_vars ce ''HOLLER_LOG_FORMAT''"] show ?thesis
      by (auto simp: level_setting.winner_def format_setting.winner_def)
  qed simp
  then show ?thesis by (auto simp: cli_main_def)
qed

lemma main_rejects_bad_settings_at_work:
  "\<exists>e. cli_main (demo_cli (demo_lib JNull) (\<lambda>_ _. ConnectFailed) (\<lambda>k. if k = ''HOLLER_LOG_FORMAT'' then Some ''xml'' else None))
         (demo_ctx (demo_lib JNull)) demo_os None None None (Some ''Quiet'') None (CmdToken (TokDelete ''tok_1''))
         \<lparr>ts_file = None\<rparr> = (([], Failed e), \<lparr>ts_file = None\<rparr>, [])"
proof (rule main_rejects_bad_settings [where v = "''xml''"])
  have "to_ascii_lowercase ''xml'' = ''xml''" by code_simp
  then show "(case Some ''Quiet'' of Some v \<Rightarrow> Some v | None \<Rightarrow> ci_vars (demo_cli (demo_lib JNull) (\<lambda>_ _. ConnectFailed)
        (\<lambda>k. if k = ''HOLLER_LOG_FORMAT'' then Some ''xml'' else None)) ''HOLLER_DEBUG'') = Some ''xml'' \<and>
      to_ascii_lowercase ''xml'' \<notin> {''none'', ''quiet'', ''noisy''} \<or>
    (case None of Some v \<Rightarrow> Some v | None \<Rightarrow> ci_vars (demo_cli (demo_lib JNull) (\<lambda>_ _. ConnectFailed)
        (\<lambda>k. if k = ''HOLLER_LOG_FORMAT'' then Some ''xml'' else None)) ''HOLLER_LOG_FORMAT'') = Some ''xml'' \<and>
      to_ascii_lowercase ''xml'' \<notin> {''text'', ''json''}"
    by (simp add: demo_cli_def)
qed

end
