(* ===== verification/ControlSystem.thy ===== *)
theory ControlSystem
  imports Server Control
begin

text \<open>
  The control channel inside the running server.  Theory Control describes a control connection as one
  function of the server state, with what other tasks did meanwhile as a parameter; theory Server
  describes the server as steps that interleave.  Here the two are put together: a control connection
  is a trace of the system's steps, some of them its own and the rest arbitrary steps of other tasks,
  and the function computes what that trace does.

  \<^item> \<open>exchange\<close> is the common shape of the five request calls of \<open>src/src/wire/registry.rs\<close>: look the
    connection up, register a waiter, send the frame, wait, and forget the waiter unless it was answered.
  \<^item> A \<open>schedule\<close> is what the scheduler does while the connection's task holds no lock: any steps of the
    system, logins included.  A step that is not enabled when its turn comes does nothing.
  \<^item> \<open>control_trace\<close> is the trace, \<open>seen_lines\<close> what its requests see of the other tasks.
\<close>

section \<open>Exchanges\<close>

text \<open>What a request does about its waiter when the wait is over.\<close>

datatype after_wait = Leave | CancelPrompts | Forget | ForgetThenLook

definition exchange ::
  "request_kind \<Rightarrow> instant \<Rightarrow> string \<Rightarrow> string \<Rightarrow> string \<Rightarrow> waiter
   \<Rightarrow> (registry \<Rightarrow> registry) \<Rightarrow> bool \<Rightarrow> (registry \<Rightarrow> registry) \<Rightarrow> (registry \<Rightarrow> registry)
   \<Rightarrow> envelope \<Rightarrow> after_wait \<Rightarrow> registry \<Rightarrow> registry \<times> effect list" where
  "exchange k now t i session w oa ok ob oc frame aw r =
     (case hm_get (rg_entries r) t of
        None \<Rightarrow> (r, [])
      | Some e \<Rightarrow>
          (case register_request k now t i session w (oa r) of
             None \<Rightarrow> (oa r, [])
           | Some (r2, drops) \<Rightarrow>
               if \<not> ok then (case forget_request k t i r2 of (r3, fx) \<Rightarrow> (r3, drops @ fx))
               else
                 let sent = drops @ [SendOut (en_out e) frame]
                 in (case aw of
                       Leave \<Rightarrow> (ob r2, sent)
                     | CancelPrompts \<Rightarrow> (ob r2, sent @ cancel_pending_prompts_for_session t session (ob r2))
                     | Forget \<Rightarrow> (case forget_request k t i (ob r2) of (r3, fx) \<Rightarrow> (r3, sent @ fx))
                     | ForgetThenLook \<Rightarrow>
                         (case forget_request k t i (ob r2) of (r3, fx) \<Rightarrow> (oc r3, sent @ fx)))))"

fun after_reply :: "'a wait_result \<Rightarrow> after_wait" where
  "after_reply (Got _) = Leave"
| "after_reply _ = Forget"

fun after_ack :: "after_wait \<Rightarrow> 'a wait_result \<Rightarrow> after_wait" where
  "after_ack got (Got _) = got"
| "after_ack got Closed = Leave"
| "after_ack got TimedOut = ForgetThenLook"

lemma calls_exchange:
  "snd (ping ts now w oa ok ob waited1 t i h r) =
     exchange KPing now t i session w oa ok ob oc (new_ping_envelope ts i h) (after_reply waited1) r"
  "snd (registry_query ts w oa ok ob waited2 t c args i r) =
     exchange KQuery now t i session w oa ok ob oc (new_query_envelope ts i c args) (after_reply waited2) r"
  "snd (registry_prompt ts w oa ok ob received t i session msg meta r) =
     exchange KPrompt now t i session w oa ok ob oc (new_prompt_envelope ts i session msg meta) Forget r"
  "snd (registry_interrupt ts w oa ok ob oc waited3 t i session r) =
     exchange KInterrupt now t i session w oa ok ob oc (new_interrupt_envelope ts i session)
       (after_ack CancelPrompts waited3) r"
  "snd (registry_answer ts w oa ok ob oc waited4 t i session choice r) =
     exchange KAnswer now t i session w oa ok ob oc (new_answer_envelope ts i session choice)
       (after_ack Leave waited4) r"
  subgoal
    by (cases waited1) (auto simp: ping_def exchange_def Let_def split: option.splits prod.splits)
  subgoal
    by (cases waited2) (auto simp: registry_query_def exchange_def Let_def
        split: option.splits prod.splits pending_query_reply.splits)
  subgoal
    by (auto simp: registry_prompt_def exchange_def Let_def split: option.splits prod.splits)
  subgoal
    by (cases waited3) (auto simp: registry_interrupt_def exchange_def Let_def split: option.splits prod.splits)
  subgoal
    by (cases waited4) (auto simp: registry_answer_def exchange_def Let_def
        split: option.splits prod.splits pending_answer_reply.splits)
  done

section \<open>Traces\<close>

text \<open>Steps as the scheduler takes them, and what a step of the control channel does to channels and waiters.\<close>

definition sys_exec :: "conn_ctx \<Rightarrow> sys_op list \<Rightarrow> system \<Rightarrow> system" where
  "sys_exec cx xs s = fold (\<lambda>x s. case sys_step cx x s of None \<Rightarrow> s | Some s' \<Rightarrow> s') xs s"

fun step_effects :: "sys_op \<Rightarrow> system \<Rightarrow> effect list" where
  "step_effects (SControl x) s = snd (reg_step x (sv_registry (sy_server s)))"
| "step_effects (SPush ch e) s = [SendOut ch e]"
| "step_effects _ s = []"

text \<open>
  A trace marks the steps of the control connection itself.  Playing it gives the system it leads to
  and the effects of the connection's own steps.
\<close>

type_synonym trace = "(bool \<times> sys_op) list"

definition mine :: "sys_op list \<Rightarrow> trace" where
  "mine xs = map (Pair True) xs"

definition others :: "sys_op list \<Rightarrow> trace" where
  "others xs = map (Pair False) xs"

fun play :: "conn_ctx \<Rightarrow> trace \<Rightarrow> system \<Rightarrow> system \<times> effect list" where
  "play cx [] s = (s, [])"
| "play cx ((own, x) # zs) s =
     (case play cx zs (sys_exec cx [x] s) of
        (s', fx) \<Rightarrow> (s', (if own then step_effects x s else []) @ fx))"

record schedule =
  gp_before :: "sys_op list"
  gp_found :: "sys_op list"
  gp_wait :: "sys_op list"
  gp_forgot :: "sys_op list"
  gp_between :: "sys_op list"

text \<open>A registry call: its kind, token, session, frame and what follows the wait.\<close>

record call =
  ca_kind :: request_kind
  ca_token :: string
  ca_session :: string
  ca_frame :: envelope
  ca_after :: after_wait

abbreviation reg_of :: "system \<Rightarrow> registry" where
  "reg_of s \<equiv> sv_registry (sy_server s)"

definition register_step :: "control_env \<Rightarrow> call \<Rightarrow> sys_op" where
  "register_step cv c =
     SControl (RegRegister (ca_kind c) (cv_now cv) (ca_token c) (cv_id cv) (ca_session c) (cv_waiter cv))"

definition forget_step :: "control_env \<Rightarrow> call \<Rightarrow> sys_op" where
  "forget_step cv c = SControl (RegForget (ca_kind c) (ca_token c) (cv_id cv))"

text \<open>
  The call as a trace: the frame goes to the channel that the first look found for the token, and the
  call ends early when the token is not, or no longer, registered.
\<close>

definition call_trace :: "conn_ctx \<Rightarrow> control_env \<Rightarrow> schedule \<Rightarrow> call \<Rightarrow> system \<Rightarrow> trace" where
  "call_trace cx cv g c s =
     (case hm_get (rg_entries (reg_of s)) (ca_token c) of
        None \<Rightarrow> []
      | Some e \<Rightarrow>
          others (gp_found g) @
          (if hm_get (rg_entries (reg_of (sys_exec cx (gp_found g) s))) (ca_token c) = None then []
           else if \<not> cv_send_ok cv then mine [register_step cv c, forget_step cv c]
           else mine [register_step cv c, SPush (en_out e) (ca_frame c)] @ others (gp_wait g) @
                (case ca_after c of
                   Leave \<Rightarrow> []
                 | CancelPrompts \<Rightarrow> mine [SControl (RegCancel (ca_token c) (ca_session c))]
                 | Forget \<Rightarrow> mine [forget_step cv c]
                 | ForgetThenLook \<Rightarrow> mine [forget_step cv c] @ others (gp_forgot g))))"

text \<open>What the call sees of the other tasks: their steps, from whatever registry it left them.\<close>

definition seen :: "conn_ctx \<Rightarrow> sys_op list \<Rightarrow> system \<Rightarrow> registry \<Rightarrow> registry" where
  "seen cx xs s r = reg_of (sys_exec cx xs (set_server ((sy_server s)\<lparr>sv_registry := r\<rparr>) s))"

definition sent_state :: "conn_ctx \<Rightarrow> control_env \<Rightarrow> schedule \<Rightarrow> call \<Rightarrow> system \<Rightarrow> system" where
  "sent_state cx cv g c s =
     (case hm_get (rg_entries (reg_of s)) (ca_token c) of
        None \<Rightarrow> s
      | Some e \<Rightarrow>
          sys_exec cx (gp_found g @ [register_step cv c, SPush (en_out e) (ca_frame c)]) s)"

definition call_env :: "conn_ctx \<Rightarrow> control_env \<Rightarrow> schedule \<Rightarrow> call \<Rightarrow> system \<Rightarrow> control_env" where
  "call_env cx cv g c s =
     cv\<lparr>cv_other1 := seen cx (gp_found g) s,
        cv_other2 := seen cx (gp_wait g) (sent_state cx cv g c s),
        cv_other3 := seen cx (gp_forgot g) (sys_exec cx (gp_wait g @ [forget_step cv c]) (sent_state cx cv g c s)),
        cv_rest := (\<lambda>sv. sy_server (fst (play cx (call_trace cx cv g c (set_server sv s)) (set_server sv s))))\<rparr>"

section \<open>Requests and connections\<close>

fun request_call :: "conn_ctx \<Rightarrow> control_env \<Rightarrow> request \<Rightarrow> server \<Rightarrow> call option" where
  "request_call cx cv (ReqPing t) sv =
     Some \<lparr>ca_kind = KPing, ca_token = t, ca_session = [],
           ca_frame = new_ping_envelope (cv_ts cv) (cv_id cv) (cx_hostname cx),
           ca_after = after_reply (cv_ping cv)\<rparr>"
| "request_call cx cv (ReqQuery (Some i) c args) sv =
     map_option (\<lambda>t. \<lparr>ca_kind = KQuery, ca_token = t, ca_session = [],
                      ca_frame = new_query_envelope (cv_ts cv) (cv_id cv) c args,
                      ca_after = after_reply (cv_query cv)\<rparr>) (resolve_target i (sv_registry sv))"
| "request_call cx cv (ReqSay session msg) sv =
     map_option (\<lambda>t. \<lparr>ca_kind = KPrompt, ca_token = t, ca_session = session,
                      ca_frame = new_prompt_envelope (cv_ts cv) (cv_id cv) session msg None,
                      ca_after = Forget\<rparr>) (resolve_session (cv_now cv) session (sv_roster sv))"
| "request_call cx cv (ReqInterrupt session) sv =
     map_option (\<lambda>t. \<lparr>ca_kind = KInterrupt, ca_token = t, ca_session = session,
                      ca_frame = new_interrupt_envelope (cv_ts cv) (cv_id cv) session,
                      ca_after = after_ack CancelPrompts (cv_interrupt cv)\<rparr>)
       (resolve_session (cv_now cv) session (sv_roster sv))"
| "request_call cx cv (ReqAnswer session choice) sv =
     map_option (\<lambda>t. \<lparr>ca_kind = KAnswer, ca_token = t, ca_session = session,
                      ca_frame = new_answer_envelope (cv_ts cv) (cv_id cv) session choice,
                      ca_after = after_ack Leave (cv_answer cv)\<rparr>)
       (resolve_session (cv_now cv) session (sv_roster sv))"
| "request_call cx cv _ sv = None"

text \<open>What a request does before its call, and after it: a prompt is recorded, a confirmation is noted.\<close>

fun request_opening :: "control_env \<Rightarrow> request \<Rightarrow> sys_op list" where
  "request_opening cv (ReqSay session msg) = [SRecordPrompt (cv_talk cv) (cv_id cv) session msg]"
| "request_opening cv _ = []"

definition answered :: "conn_ctx \<Rightarrow> control_env \<Rightarrow> schedule \<Rightarrow> call \<Rightarrow> system \<Rightarrow> bool" where
  "answered cx cv g c s \<longleftrightarrow>
     hm_get (rg_entries (reg_of s)) (ca_token c) \<noteq> None \<and>
     hm_get (rg_entries (reg_of (sys_exec cx (gp_found g) s))) (ca_token c) \<noteq> None \<and> cv_send_ok cv"

fun request_closing :: "control_env \<Rightarrow> request \<Rightarrow> call \<Rightarrow> registry \<Rightarrow> sys_op list" where
  "request_closing cv (ReqQuery (Some _) c args) ca r =
     (case (cv_query cv, args, hostname_of (ca_token ca) r) of
        (Got (ReplyOk b), feature # _, Some host) \<Rightarrow>
          if c = ''support'' \<and> Option.bind (json_get (qok_rest b) ''ok'') as_bool = Some True
          then [SControl (RegConfirm feature host)] else []
      | _ \<Rightarrow> [])"
| "request_closing cv _ ca r = []"

definition request_trace :: "conn_ctx \<Rightarrow> control_env \<Rightarrow> schedule \<Rightarrow> request \<Rightarrow> system \<Rightarrow> trace" where
  "request_trace cx cv g req s =
     (case req of
        ReqRevoke t \<Rightarrow> mine [SControl (RegRemove t)] @ others (gp_between g) @ mine [SGone t]
      | _ \<Rightarrow>
          (case request_call cx cv req (sy_server s) of
             None \<Rightarrow> []
           | Some c \<Rightarrow>
               let s0 = sys_exec cx (request_opening cv req) s
               in mine (request_opening cv req) @ call_trace cx cv g c s0 @
                  (if answered cx cv g c s0 then mine (request_closing cv req c (reg_of s)) else [])))"

definition request_env :: "conn_ctx \<Rightarrow> control_env \<Rightarrow> schedule \<Rightarrow> request \<Rightarrow> system \<Rightarrow> control_env" where
  "request_env cx cv g req s =
     (case req of
        ReqRevoke t \<Rightarrow>
          cv\<lparr>cv_between := (\<lambda>sv. sy_server (sys_exec cx (gp_between g)
               (set_server sv (sys_exec cx [SControl (RegRemove t)] s))))\<rparr>
      | _ \<Rightarrow>
          (case request_call cx cv req (sy_server s) of
             None \<Rightarrow> cv
           | Some c \<Rightarrow> call_env cx cv g c (sys_exec cx (request_opening cv req) s)))"

definition line_request :: "conn_ctx \<Rightarrow> string \<Rightarrow> request option" where
  "line_request cx line =
     (if trim line = [] then None
      else case jl_from_str (cx_json cx) line of Inl _ \<Rightarrow> None | Inr j \<Rightarrow> request_from j)"

type_synonym scheduled_line = "control_env \<times> schedule \<times> bool \<times> string"

definition line_trace :: "conn_ctx \<Rightarrow> control_env \<Rightarrow> schedule \<Rightarrow> string \<Rightarrow> system \<Rightarrow> trace" where
  "line_trace cx cv g line s =
     others (gp_before g) @
     (case line_request cx line of
        None \<Rightarrow> []
      | Some req \<Rightarrow> request_trace cx cv g req (sys_exec cx (gp_before g) s))"

definition line_env :: "conn_ctx \<Rightarrow> control_env \<Rightarrow> schedule \<Rightarrow> string \<Rightarrow> system \<Rightarrow> control_env" where
  "line_env cx cv g line s =
     (case line_request cx line of
        None \<Rightarrow> cv
      | Some req \<Rightarrow> request_env cx cv g req (sys_exec cx (gp_before g) s))
     \<lparr>cv_before := (\<lambda>sv. sy_server (sys_exec cx (gp_before g) (set_server sv s)))\<rparr>"

text \<open>The whole connection; it ends when an answer cannot be written.\<close>

fun control_trace :: "conn_ctx \<Rightarrow> scheduled_line list \<Rightarrow> system \<Rightarrow> trace" where
  "control_trace cx [] s = []"
| "control_trace cx ((cv, g, write_ok, line) # rest) s =
     line_trace cx cv g line s @
     (if line_request cx line \<noteq> None \<and> \<not> write_ok then []
      else control_trace cx rest (fst (play cx (line_trace cx cv g line s) s)))"

fun seen_lines :: "conn_ctx \<Rightarrow> scheduled_line list \<Rightarrow> system \<Rightarrow> (control_env \<times> bool \<times> string) list" where
  "seen_lines cx [] s = []"
| "seen_lines cx ((cv, g, write_ok, line) # rest) s =
     (line_env cx cv g line s, write_ok, line) #
     seen_lines cx rest (fst (play cx (line_trace cx cv g line s) s))"

section \<open>Lemmas\<close>

lemma sys_exec_simps [simp]:
  "sys_exec cx [] s = s"
  "sys_exec cx (xs @ ys) s = sys_exec cx ys (sys_exec cx xs s)"
  by (simp_all add: sys_exec_def)

lemma sys_exec_Cons: "sys_exec cx (x # xs) s = sys_exec cx xs (sys_exec cx [x] s)"
  by (simp add: sys_exec_def)

lemma control_exec [simp]:
  "control_op x \<Longrightarrow> sy_server (sys_exec cx [SControl x] s) =
     (sy_server s)\<lparr>sv_registry := fst (reg_step x (reg_of s))\<rparr>"
  "sy_server (sys_exec cx [SPush ch e] s) = sy_server s"
  "sy_server (sys_exec cx [SGone t] s) = (sy_server s)\<lparr>sv_roster := mark_gone t (sv_roster (sy_server s))\<rparr>"
  "sy_server (sys_exec cx [SRecordPrompt call i session msg] s) =
     (sy_server s)\<lparr>sv_talklog := snd (record_prompt (cx_talk cx) call i session msg (sv_talklog (sy_server s)))\<rparr>"
  by (simp_all add: sys_exec_def)

lemma set_server_same [simp]: "set_server (sy_server s) s = s" "set_server sv (set_server sv' s) = set_server sv s"
  by (simp_all add: set_server_def)

lemma apply_effects_Nil [simp]: "apply_effects [] s = s"
  by (simp add: apply_effects_def)

lemma seen_here [simp]: "seen cx xs s (reg_of s) = reg_of (sys_exec cx xs s)"
  by (simp add: seen_def)

lemma play_append:
  "play cx (xs @ ys) s =
     (case play cx xs s of (s1, fx1) \<Rightarrow> (case play cx ys s1 of (s2, fx2) \<Rightarrow> (s2, fx1 @ fx2)))"
proof (induction xs arbitrary: s)
  case (Cons z xs)
  then show ?case by (cases z) (simp split: prod.splits)
qed simp

lemma play_others [simp]: "play cx (others xs) s = (sys_exec cx xs s, [])"
  by (induction xs arbitrary: s) (simp_all add: others_def sys_exec_Cons [of cx _ "_ # _"] sys_exec_def)

lemma play_mine [simp]:
  "play cx (mine []) s = (s, [])"
  "play cx (mine (x # xs)) s =
     (case play cx (mine xs) (sys_exec cx [x] s) of (s', fx) \<Rightarrow> (s', step_effects x s @ fx))"
  by (simp_all add: mine_def)

lemma play_reachable: "sys_reachable cx s0 s \<Longrightarrow> sys_reachable cx s0 (fst (play cx zs s))"
proof (induction zs arbitrary: s)
  case (Cons z zs)
  have "sys_reachable cx s0 (sys_exec cx [snd z] s)"
    using Cons.prems sys_reachable.step [OF Cons.prems, of "snd z"]
    by (cases "sys_step cx (snd z) s") (simp_all add: sys_exec_def)
  from Cons.IH [OF this] show ?case by (cases z) (simp add: case_prod_unfold)
qed simp

lemma register_request_None: "register_request k now t i session w r = None \<longleftrightarrow> hm_get (rg_entries r) t = None"
  by (cases k) (auto simp: register_ping_def register_query_def register_prompt_def register_interrupt_def
      register_answer_def split: option.splits)

text \<open>A registry call among arbitrary steps of others does what its trace does.\<close>

lemma call_refines:
  assumes "ev = call_env cx cv g c s" and "p = play cx (call_trace cx cv g c s) s"
  shows "exchange (ca_kind c) (cv_now cv) (ca_token c) (cv_id cv) (ca_session c) (cv_waiter cv) (cv_other1 ev)
           (cv_send_ok cv) (cv_other2 ev) (cv_other3 ev) (ca_frame c) (ca_after c) (reg_of s) =
         (reg_of (fst p), snd p)"
proof (cases "hm_get (rg_entries (reg_of s)) (ca_token c)")
  case None
  then show ?thesis by (simp add: exchange_def assms(2) call_trace_def)
next
  case (Some e)
  define s1 where "s1 = sys_exec cx (gp_found g) s"
  have oa: "cv_other1 ev (reg_of s) = reg_of s1" by (simp add: assms(1) call_env_def s1_def)
  show ?thesis
  proof (cases "register_request (ca_kind c) (cv_now cv) (ca_token c) (cv_id cv) (ca_session c) (cv_waiter cv) (reg_of s1)")
    case None
    then have "hm_get (rg_entries (reg_of s1)) (ca_token c) = None" by (simp add: register_request_None)
    with Some None oa show ?thesis by (simp add: exchange_def assms(2) call_trace_def play_append s1_def)
  next
    case (Some x)
    obtain r2 d where x: "x = (r2, d)" by (cases x)
    define s2 where "s2 = sys_exec cx [register_step cv c] s1"
    have s2: "reg_of s2 = r2" "step_effects (register_step cv c) s1 = d"
      using Some x by (simp_all add: s2_def register_step_def)
    obtain e1 where there: "hm_get (rg_entries (reg_of s1)) (ca_token c) = Some e1"
      using Some register_request_None [of "ca_kind c" "cv_now cv" "ca_token c" "cv_id cv" "ca_session c"
        "cv_waiter cv" "reg_of s1"] by auto
    note found = \<open>hm_get (rg_entries (reg_of s)) (ca_token c) = Some e\<close>
    define s3 where "s3 = sys_exec cx [SPush (en_out e) (ca_frame c)] s2"
    have s3: "sent_state cx cv g c s = s3" "reg_of s3 = r2"
      using found s2 by (simp_all add: sent_state_def s3_def s2_def s1_def sys_exec_Cons [of cx _ "_ # _"])
    have ob: "cv_other2 ev r2 = reg_of (sys_exec cx (gp_wait g) s3)"
      using s3 seen_here [of cx "gp_wait g" s3] by (simp add: assms(1) call_env_def)
    have oc: "cv_other3 ev (fst (forget_request (ca_kind c) (ca_token c) (cv_id cv) (reg_of (sys_exec cx (gp_wait g) s3)))) =
        reg_of (sys_exec cx (gp_forgot g) (sys_exec cx [forget_step cv c] (sys_exec cx (gp_wait g) s3)))"
      using seen_here [of cx "gp_forgot g" "sys_exec cx [forget_step cv c] (sys_exec cx (gp_wait g) s3)"]
      by (simp add: assms(1) call_env_def s3 forget_step_def)
    have step: "play cx (mine [register_step cv c, y]) s1 = (sys_exec cx [y] s2, d @ step_effects y s2)" for y
      by (simp add: s2 s2_def [symmetric])
    have head: "p = play cx (call_trace cx cv g c s) s" "sys_exec cx (gp_found g) s = s1" "s3 = sys_exec cx [SPush (en_out e) (ca_frame c)] s2"
      by (simp_all add: assms(2) s1_def s3_def)
    show ?thesis
    proof (cases "cv_send_ok cv")
      case False
      with found there Some x oa s2 head step [of "forget_step cv c"] show ?thesis
        by (simp add: exchange_def call_trace_def play_append forget_step_def split: prod.splits)
    next
      case True
      with found there Some x oa ob oc s2 head step [of "SPush (en_out e) (ca_frame c)"] show ?thesis
        by (cases "ca_after c") (simp_all add: exchange_def call_trace_def play_append forget_step_def case_prod_unfold)
    qed
  qed
qed

lemma call_env_simps [simp]:
  "cv_now (call_env cx cv g c s) = cv_now cv" "cv_ts (call_env cx cv g c s) = cv_ts cv"
  "cv_id (call_env cx cv g c s) = cv_id cv" "cv_waiter (call_env cx cv g c s) = cv_waiter cv"
  "cv_send_ok (call_env cx cv g c s) = cv_send_ok cv" "cv_ping (call_env cx cv g c s) = cv_ping cv"
  "cv_query (call_env cx cv g c s) = cv_query cv" "cv_prompt (call_env cx cv g c s) = cv_prompt cv"
  "cv_interrupt (call_env cx cv g c s) = cv_interrupt cv" "cv_answer (call_env cx cv g c s) = cv_answer cv"
  "cv_talk (call_env cx cv g c s) = cv_talk cv"
  by (simp_all add: call_env_def)

lemma same_registry [simp]: "(sv :: server)\<lparr>sv_registry := sv_registry sv\<rparr> = sv"
  by simp

text \<open>What a request handler adds to its registry call.\<close>

lemma handled_call:
  "snd (handle_ping cx cv t sv) =
     map_prod (settle cv sv) id (snd (ping (cv_ts cv) (cv_now cv) (cv_waiter cv) (cv_other1 cv) (cv_send_ok cv)
       (cv_other2 cv) (cv_ping cv) t (cv_id cv) (cx_hostname cx) (sv_registry sv)))"
  "resolve_session (cv_now cv) session (sv_roster sv) = Some t \<Longrightarrow>
   snd (handle_say cx cv session msg sv) =
     map_prod (settle cv (sv\<lparr>sv_talklog :=
         snd (record_prompt (cx_talk cx) (cv_talk cv) (cv_id cv) session msg (sv_talklog sv))\<rparr>)) id
       (snd (registry_prompt (cv_ts cv) (cv_waiter cv) (cv_other1 cv) (cv_send_ok cv) (cv_other2 cv) (cv_prompt cv)
         t (cv_id cv) session msg None (sv_registry sv)))"
  "resolve_session (cv_now cv) session (sv_roster sv) = Some t \<Longrightarrow>
   snd (handle_interrupt cv session sv) =
     map_prod (settle cv sv) id (snd (registry_interrupt (cv_ts cv) (cv_waiter cv) (cv_other1 cv) (cv_send_ok cv)
       (cv_other2 cv) (cv_other3 cv) (cv_interrupt cv) t (cv_id cv) session (sv_registry sv)))"
  "resolve_session (cv_now cv) session (sv_roster sv) = Some t \<Longrightarrow>
   snd (handle_answer cv session choice sv) =
     map_prod (settle cv sv) id (snd (registry_answer (cv_ts cv) (cv_waiter cv) (cv_other1 cv) (cv_send_ok cv)
       (cv_other2 cv) (cv_other3 cv) (cv_answer cv) t (cv_id cv) session choice (sv_registry sv)))"
  by (simp_all add: handle_ping_def handle_say_def handle_interrupt_def handle_answer_def Let_def
      case_prod_unfold prod_eq_iff)

lemma query_outcome:
  "fst (registry_query ts w oa ok ob waited t c args i r) =
     (if hm_get (rg_entries r) t \<noteq> None \<and> hm_get (rg_entries (oa r)) t \<noteq> None \<and> ok
      then (case waited of Got (ReplyOk b) \<Rightarrow> QueryOk b | Got (ReplyErr b) \<Rightarrow> QueryErr b | _ \<Rightarrow> QueryDisconnected)
      else QueryDisconnected)"
  by (auto simp: registry_query_def register_query_def Let_def
      split: option.splits prod.splits wait_result.splits pending_query_reply.splits)

text \<open>A call in its environment, as a step of the whole server.\<close>

lemma call_settles:
  assumes "ev = call_env cx cv g c s" and "p = play cx (call_trace cx cv g c s) s"
  shows "map_prod (settle ev (sy_server s)) id
           (exchange (ca_kind c) (cv_now cv) (ca_token c) (cv_id cv) (ca_session c) (cv_waiter cv) (cv_other1 ev)
             (cv_send_ok cv) (cv_other2 ev) (cv_other3 ev) (ca_frame c) (ca_after c) (reg_of s)) =
         (sy_server (fst p), snd p)"
    and "settle ev (sy_server s) r = (sy_server (fst p))\<lparr>sv_registry := r\<rparr>"
  using call_refines [OF assms] assms by (simp_all add: settle_def call_env_def)

lemma call_request:
  assumes "request_call cx cv req (sy_server s) = Some c" and "s0 = sys_exec cx (request_opening cv req) s"
    and "p = play cx (call_trace cx cv g c s0) s0"
  shows "request_env cx cv g req s = call_env cx cv g c s0"
    and "request_closing cv req c (reg_of s) = [] \<or> \<not> answered cx cv g c s0 \<Longrightarrow>
           map_prod sy_server id (play cx (request_trace cx cv g req s) s) = (sy_server (fst p), snd p)"
    and "request_closing cv req c (reg_of s) = [x] \<Longrightarrow> answered cx cv g c s0 \<Longrightarrow>
           play cx (request_trace cx cv g req s) s = (sys_exec cx [x] (fst p), snd p @ step_effects x (fst p))"
  subgoal using assms by (cases req) (auto simp: request_env_def)
  subgoal using assms by (cases req) (auto simp: request_trace_def play_append case_prod_unfold Let_def)
  subgoal using assms by (cases req) (auto simp: request_trace_def play_append case_prod_unfold Let_def)
  done

text \<open>A query relayed to a client, with the confirmation that may follow it.\<close>

lemma query_refines:
  assumes "resolve_target i (reg_of s) = Some t"
    and "c = \<lparr>ca_kind = KQuery, ca_token = t, ca_session = [], ca_frame = new_query_envelope (cv_ts cv) (cv_id cv) d args,
               ca_after = after_reply (cv_query cv)\<rparr>"
  shows "snd (handle_query cx (call_env cx cv g c s) (Some i) d args (sy_server s)) =
         map_prod sy_server id (play cx (request_trace cx cv g (ReqQuery (Some i) d args) s) s)"
proof -
  define ev where "ev = call_env cx cv g c s"
  define p where "p = play cx (call_trace cx cv g c s) s"
  define q where "q = registry_query (cv_ts ev) (cv_waiter ev) (cv_other1 ev) (cv_send_ok ev) (cv_other2 ev)
    (cv_query ev) t d args (cv_id ev) (reg_of s)"
  have call: "request_call cx cv (ReqQuery (Some i) d args) (sy_server s) = Some c" using assms by simp
  note run = call_request(2,3) [OF call refl refl, where g = g, simplified request_opening.simps sys_exec_simps, folded p_def]
  have snd_q: "snd q = (reg_of (fst p), snd p)"
    using call_refines [OF ev_def p_def] assms(2)
    by (simp add: q_def ev_def calls_exchange(2) [where now = "cv_now cv" and session = "[]" and oc = "cv_other3 ev"])
  have fst_q: "fst q = (if answered cx cv g c s
      then (case cv_query cv of Got (ReplyOk b) \<Rightarrow> QueryOk b | Got (ReplyErr b) \<Rightarrow> QueryErr b | _ \<Rightarrow> QueryDisconnected)
      else QueryDisconnected)"
    using assms(2) by (simp add: q_def query_outcome answered_def ev_def call_env_def)
  have "handle_query cx ev (Some i) d args (sy_server s) =
      (case q of
         (QueryOk b, r, fx) \<Rightarrow> (RespQuery (QrOk b), settle ev (sy_server s) (confirm_support d args (hostname_of t (reg_of s)) b r), fx)
       | (QueryErr e, r, fx) \<Rightarrow> (RespQuery (QrErr e), settle ev (sy_server s) r, fx)
       | (QueryDisconnected, r, fx) \<Rightarrow> (RespQuery QrNotConnected, settle ev (sy_server s) r, fx))"
    using assms(1) by (simp add: handle_query_def q_def)
  then have h: "snd (handle_query cx ev (Some i) d args (sy_server s)) =
      (settle ev (sy_server s) (case fst q of QueryOk b \<Rightarrow> confirm_support d args (hostname_of t (reg_of s)) b (reg_of (fst p))
          | _ \<Rightarrow> reg_of (fst p)), snd p)"
    using snd_q by (cases q) (simp split: query_outcome.splits)
  have c: "ca_token c = t" by (simp add: assms(2))
  note facts = h fst_q c call_settles(2) [OF ev_def p_def]
  show ?thesis unfolding ev_def [symmetric]
  proof (cases "answered cx cv g c s \<and> request_closing cv (ReqQuery (Some i) d args) c (reg_of s) \<noteq> []")
    case True
    then obtain x where x: "answered cx cv g c s" "request_closing cv (ReqQuery (Some i) d args) c (reg_of s) = [x]"
      by (auto split: wait_result.splits pending_query_reply.splits list.splits option.splits if_splits)
    then show "snd (handle_query cx ev (Some i) d args (sy_server s)) =
        map_prod sy_server id (play cx (request_trace cx cv g (ReqQuery (Some i) d args) s) s)"
      using run(2) [OF x(2,1)] facts
      by (auto simp: confirm_support_def
          split: wait_result.splits pending_query_reply.splits list.splits option.splits if_splits)
  next
    case False
    then have none: "request_closing cv (ReqQuery (Some i) d args) c (reg_of s) = [] \<or> \<not> answered cx cv g c s" by auto
    from run(1) [OF none] none facts show "snd (handle_query cx ev (Some i) d args (sy_server s)) =
        map_prod sy_server id (play cx (request_trace cx cv g (ReqQuery (Some i) d args) s) s)"
      by (auto simp: confirm_support_def
          split: wait_result.splits pending_query_reply.splits list.splits option.splits if_splits)
  qed
qed

lemma request_refines:
  "snd (handle_request cx (request_env cx cv g req s) req (sy_server s)) =
     map_prod sy_server id (play cx (request_trace cx cv g req s) s)"
proof (cases "request_call cx cv req (sy_server s)")
  case None
  show ?thesis
  proof (cases req)
    case (ReqQuery target d args)
    with None show ?thesis
      by (cases target) (auto simp: request_trace_def request_env_def handle_query_def)
  next
    case (ReqRevoke t)
    have kept: "set_server ((sy_server s)\<lparr>sv_registry := fst (snd (registry_remove t (reg_of s)))\<rparr>)
        (sys_exec cx [SControl (RegRemove t)] s) = sys_exec cx [SControl (RegRemove t)] s"
      by (rule trans [OF _ set_server_same(1)]) (simp del: set_server_same)
    show ?thesis
      using ReqRevoke by (simp add: kept request_trace_def request_env_def handle_revoke_def play_append case_prod_unfold Let_def)
  qed (use None in \<open>auto simp: request_trace_def request_env_def handle_status_def handle_roster_def handle_say_def
        handle_interrupt_def handle_answer_def\<close>)
next
  case (Some c)
  define s0 where "s0 = sys_exec cx (request_opening cv req) s"
  define ev where "ev = call_env cx cv g c s0"
  note env = call_request(1) [OF Some s0_def refl, of g, folded ev_def]
  note settled = call_settles [OF ev_def refl]
  note run = call_request(2) [OF Some s0_def refl, of g]
  have ev: "cv_now ev = cv_now cv" "cv_ts ev = cv_ts cv" "cv_id ev = cv_id cv" "cv_waiter ev = cv_waiter cv"
    "cv_send_ok ev = cv_send_ok cv" "cv_ping ev = cv_ping cv" "cv_query ev = cv_query cv" "cv_prompt ev = cv_prompt cv"
    "cv_interrupt ev = cv_interrupt cv" "cv_answer ev = cv_answer cv" "cv_talk ev = cv_talk cv"
    by (simp_all add: ev_def)
  have "snd (handle_request cx ev req (sy_server s)) = map_prod sy_server id (play cx (request_trace cx cv g req s) s)"
  proof (cases req)
    case (ReqPing t)
    with Some settled(1) run ev show ?thesis
      by (auto simp: handled_call(1) s0_def calls_exchange(1) [where session = "[]" and oc = "cv_other3 ev"])
  next
    case (ReqSay session msg)
    with Some settled(1) run ev show ?thesis
      by (auto simp: handled_call(2) s0_def calls_exchange(3) [where now = "cv_now cv" and oc = "cv_other3 ev"])
  next
    case (ReqInterrupt session)
    with Some settled(1) run ev show ?thesis
      by (auto simp: handled_call(3) s0_def calls_exchange(4) [where now = "cv_now cv"])
  next
    case (ReqAnswer session choice)
    with Some settled(1) run ev show ?thesis
      by (auto simp: handled_call(4) s0_def calls_exchange(5) [where now = "cv_now cv"])
  next
    case (ReqQuery target d args)
    with Some show ?thesis
      by (cases target) (auto simp: ev_def s0_def intro!: query_refines [simplified])
  qed (use Some in auto)
  then show ?thesis by (simp add: env)
qed

lemma handle_request_before: "handle_request cx (cv\<lparr>cv_before := f\<rparr>) req sv = handle_request cx cv req sv"
  by (cases req) (simp_all add: handle_ping_def handle_query_def handle_say_def handle_interrupt_def handle_answer_def
      handle_revoke_def handle_roster_def settle_def cong: option.case_cong prod.case_cong query_outcome.case_cong)

lemma line_refines:
  assumes "handle_control_line cx (line_env cx cv g line s) line (cv_before (line_env cx cv g line s) (sy_server s)) =
             Ret (out, sv', fx)"
  shows "map_prod sy_server id (play cx (line_trace cx cv g line s) s) = (sv', fx)"
    and "out = None \<longleftrightarrow> line_request cx line = None"
proof -
  let ?s = "sys_exec cx (gp_before g) s"
  have b: "cv_before (line_env cx cv g line s) (sy_server s) = sy_server ?s" by (simp add: line_env_def)
  have "map_prod sy_server id (play cx (line_trace cx cv g line s) s) = (sv', fx) \<and>
      (out = None \<longleftrightarrow> line_request cx line = None)"
  proof (cases "line_request cx line")
    case None
    with assms b show ?thesis
      by (auto simp: line_trace_def handle_control_line_def line_request_def split: if_splits sum.splits option.splits)
  next
    case (Some req)
    have env: "handle_request cx (line_env cx cv g line s) req (sy_server ?s) =
        handle_request cx (request_env cx cv g req ?s) req (sy_server ?s)"
      using Some by (simp add: line_env_def handle_request_before)
    with Some assms b have "snd (handle_request cx (request_env cx cv g req ?s) req (sy_server ?s)) = (sv', fx) \<and> out \<noteq> None"
      by (auto simp: handle_control_line_def line_request_def split: if_splits sum.splits option.splits prod.splits)
    with Some request_refines [of cx cv g req ?s] show ?thesis
      by (auto simp: line_trace_def play_append case_prod_unfold prod_eq_iff)
  qed
  then show "map_prod sy_server id (play cx (line_trace cx cv g line s) s) = (sv', fx)"
    and "out = None \<longleftrightarrow> line_request cx line = None" by blast+
qed

lemma conn_refines:
  assumes "handle_control_conn cx (seen_lines cx lines s) (sy_server s) = Ret (outs, sv', fx)"
  shows "map_prod sy_server id (play cx (control_trace cx lines s) s) = (sv', fx)"
  using assms
proof (induction lines arbitrary: s outs sv' fx)
  case (Cons l rest)
  obtain cv g write_ok line where l: "l = (cv, g, write_ok, line)" by (cases l) auto
  let ?ev = "line_env cx cv g line s" and ?p = "play cx (line_trace cx cv g line s) s"
  from Cons.prems l obtain out sv1 fx1 where
    h: "handle_control_line cx ?ev line (cv_before ?ev (sy_server s)) = Ret (out, sv1, fx1)"
    by (cases "handle_control_line cx ?ev line (cv_before ?ev (sy_server s))") auto
  note first = line_refines [OF h]
  then obtain s1 where s1: "?p = (s1, fx1)" "sy_server s1 = sv1" by (cases ?p) auto
  show ?case
  proof (cases "out \<noteq> None \<and> \<not> write_ok")
    case True
    with Cons.prems l h first show ?thesis by (auto simp: id_def)
  next
    case False
    with Cons.prems l h obtain outs' fx' where
      r: "handle_control_conn cx (seen_lines cx rest s1) sv1 = Ret (outs', sv', fx')" "fx = fx1 @ fx'"
      using s1(1) by (cases "handle_control_conn cx (seen_lines cx rest s1) sv1") (auto split: option.splits if_splits)
    then obtain s2 where "play cx (control_trace cx rest s1) s1 = (s2, fx')" "sy_server s2 = sv'"
      using Cons.IH [of s1 outs' sv' fx'] s1(2) by (cases "play cx (control_trace cx rest s1) s1") auto
    with s1 r(2) False first(2) show ?thesis by (auto simp: l play_append)
  qed
qed simp

text \<open>The connection's own steps are those of the control socket: none of them registers a connection.\<close>

fun control_step :: "sys_op \<Rightarrow> bool" where
  "control_step (SControl x) = control_op x"
| "control_step (SPush ch e) = True"
| "control_step (SGone t) = True"
| "control_step (SRecordPrompt call i session text) = True"
| "control_step _ = False"

definition own_control :: "trace \<Rightarrow> bool" where
  "own_control zs \<longleftrightarrow> (\<forall>(own, x) \<in> set zs. own \<longrightarrow> control_step x)"

lemma own_control_simps [simp]:
  "own_control []" "own_control (xs @ ys) \<longleftrightarrow> own_control xs \<and> own_control ys"
  "own_control (others zs)" "own_control (mine zs) \<longleftrightarrow> list_all control_step zs"
  by (auto simp: own_control_def others_def mine_def list_all_iff)

lemma control_trace_own: "own_control (control_trace cx lines s)"
proof -
  have call: "own_control (call_trace cx cv g c s)" for cv g c s
    by (auto simp: call_trace_def register_step_def forget_step_def split: option.splits after_wait.splits)
  have "list_all control_step (request_opening cv req)" "list_all control_step (request_closing cv req c r)" for cv req c r
    by (cases req; simp) (cases "(cv, req, c, r)" rule: request_closing.cases; auto split: wait_result.splits
        pending_query_reply.splits list.splits option.splits)
  with call have "own_control (request_trace cx cv g req s)" for cv g req s
    by (auto simp: request_trace_def Let_def split: request.splits option.splits)
  then have "own_control (line_trace cx cv g line s)" for cv g line s
    by (auto simp: line_trace_def split: option.splits)
  then show ?thesis by (induction cx lines s rule: control_trace.induct) auto
qed

section \<open>Properties\<close>

text \<open>
  C13: the control channel refines the server's step system.  Take any lines of a control connection and
  any schedule: while its task waits for a line, between the lock sections of its requests and during
  their waits, any steps of the system may run, of any task (logins and superseded sessions, frames,
  heartbeats, prompts of other control connections, pruning, a rewritten token file).  Then what the
  handlers compute is what the resulting run of the system does: the whole server state at the end, and
  the frames, closed channels and signals of the connection's own steps, in order.  Each frame goes to
  the channel that the registry held for the request's token when the request looked it up.  The
  connection's own steps are those of the control socket, so it admits nobody; what holds in every
  reachable state of the system holds with the control channel in use.  (The reads a request starts
  with, up to its first look at the connection, are taken at one moment.)
\<close>

theorem control_refines_system:
  assumes "handle_control_conn cx (seen_lines cx lines s) (sy_server s) = Ret (outs, sv', fx)"
  shows "\<exists>s'. play cx (control_trace cx lines s) s = (s', fx) \<and> sy_server s' = sv' \<and> sys_reachable cx s s' \<and>
           (\<forall>(own, x) \<in> set (control_trace cx lines s). own \<longrightarrow> control_step x)"
  using conn_refines [OF assms] play_reachable [OF sys_reachable.initial, of cx s "control_trace cx lines s"]
    control_trace_own [of cx lines s]
  by (cases "play cx (control_trace cx lines s) s") (auto simp: own_control_def)

text \<open>A ping during whose wait a second connection of the same client is registered, so that no pong comes.\<close>

definition demo_two :: system where
  "demo_two = demo_init\<lparr>sy_server := demo_live_server,
     sy_phase := (sy_phase demo_init)(1 := CVerified \<lparr>vc_token_id = ''tok_1'', vc_client_id = ''cli_1'', vc_machine = ''box''\<rparr>)\<rparr>"

definition demo_schedule :: schedule where
  "demo_schedule = \<lparr>gp_before = [SPrune 90], gp_found = [], gp_wait = [SRegister 1], gp_forgot = [], gp_between = []\<rparr>"

definition demo_ping_ctx :: conn_ctx where
  "demo_ping_ctx = demo_ctx (demo_exchange_lib (request_json (ReqPing ''tok_1'')) JNull)"

definition demo_pinged :: "scheduled_line list" where
  "demo_pinged = [(demo_control_env [], demo_schedule, True, ''q'')]"

lemma demo_ping_line: "line_request demo_ping_ctx ''q'' = Some (ReqPing ''tok_1'')"
  using request_codec.dec_enc [of "ReqPing ''tok_1''"]
  by (simp add: line_request_def trim_def demo_line_chars demo_ping_ctx_def demo_ctx_def demo_exchange_lib_def
      del: request_json.simps)

theorem control_refines_system_witness:
  "\<exists>outs sv' s' e. let fx = [SendOut 0 (new_ping_envelope ''t'' ''c1'' (cx_hostname demo_ping_ctx))] in
     handle_control_conn demo_ping_ctx (seen_lines demo_ping_ctx demo_pinged demo_two) (sy_server demo_two) =
       Ret (outs, sv', fx) \<and>
     play demo_ping_ctx (control_trace demo_ping_ctx demo_pinged demo_two) demo_two = (s', fx) \<and> sy_server s' = sv' \<and>
     hm_get (rg_entries (reg_of s')) ''tok_1'' = Some e \<and> en_out e = 1"
proof -
  let ?ev = "line_env demo_ping_ctx (demo_control_env []) demo_schedule ''q'' demo_two"
  obtain resp sv' fx where h: "handle_request demo_ping_ctx ?ev (ReqPing ''tok_1'') (cv_before ?ev (sy_server demo_two)) =
      (RespPing resp, sv', fx)"
    by (auto simp: handle_ping_def case_prod_unfold)
  have req: "trim ''q'' \<noteq> []" "jl_from_str (cx_json demo_ping_ctx) ''q'' = Inr (canon (request_json (ReqPing ''tok_1'')))"
    by (simp_all add: trim_def demo_line_chars demo_ping_ctx_def demo_ctx_def demo_exchange_lib_def del: request_json.simps)
  have line: "handle_control_line demo_ping_ctx ?ev ''q'' (cv_before ?ev (sy_server demo_two)) =
      Ret (Some (jl_to_string (cx_json demo_ping_ctx) (ping_reply_json resp)), sv', fx)"
    using req h request_codec.dec_enc [of "ReqPing ''tok_1''"]
    by (simp add: handle_control_line_def del: request_json.simps handle_request.simps)
  have conn: "\<exists>outs. handle_control_conn demo_ping_ctx (seen_lines demo_ping_ctx demo_pinged demo_two) (sy_server demo_two) =
      Ret (outs, sv', fx)"
    using line by (simp add: demo_pinged_def)
  then obtain outs where c: "handle_control_conn demo_ping_ctx (seen_lines demo_ping_ctx demo_pinged demo_two)
      (sy_server demo_two) = Ret (outs, sv', fx)" by blast
  obtain s' where s': "play demo_ping_ctx (control_trace demo_ping_ctx demo_pinged demo_two) demo_two = (s', fx)"
      "sy_server s' = sv'"
    using control_refines_system [OF c] by blast
  have "\<exists>e. hm_get (rg_entries (reg_of s')) ''tok_1'' = Some e \<and> en_out e = 1 \<and>
      fx = [SendOut 0 (new_ping_envelope ''t'' ''c1'' (cx_hostname demo_ping_ctx))]"
    using s'(1)
    by (auto simp: demo_pinged_def line_trace_def demo_ping_line request_trace_def call_trace_def play_append Let_def
        demo_schedule_def demo_two_def demo_live_server_def demo_control_env_def demo_registry_eval register_step_def
        forget_step_def sys_exec_def roster_prune_tick_def register_conn_def drop_old_def answered_def)
  then show ?thesis using c s' by (auto simp: Let_def)
qed

end
