(* ===== verification/Revocation.thy ===== *)
theory Revocation
  imports ControlSystem
begin

text \<open>
  Revoking a token end to end.  The operator's \<open>token delete\<close> first marks the record in the store
  (\<open>TokenStore::delete\<close>) and then tells the live server over the control channel (\<open>handle_revoke\<close>:
  remove the connection, mark its rows gone).  The server meanwhile runs on, and other processes
  rewrite the store.  The theorems here join the token store's, the control channel's and the
  connection tasks' models: what revocation guarantees over every interleaving, and the two
  windows it leaves open.
\<close>

section \<open>Barred tokens\<close>

text \<open>The store holds a record of the token that is invalidated or revoked.\<close>

definition barred :: "token_lib \<Rightarrow> string \<Rightarrow> token_store \<Rightarrow> bool" where
  "barred lib t st \<longleftrightarrow>
     (\<exists>rs r. contents lib st = Some rs \<and> find_token t rs = Some r \<and> 2 \<le> state_rank (tr_state r))"

text \<open>Steps that follow a deletion: token operations succeed or fail cleanly and nobody undoes it.\<close>

fun after_deletion :: "conn_ctx \<Rightarrow> string \<Rightarrow> sys_op \<Rightarrow> bool" where
  "after_deletion cx t (SStore st) = barred (cx_tokens cx) t st"
| "after_deletion cx t (SFirst i msgs timely ev) = (tc_write_err (ce_token ev) = None)"
| "after_deletion cx t _ = True"

lemma barred_deleted:
  assumes "reads_back lib" and "delete lib c t st = (Ret d, st')"
  shows "barred lib t st'"
proof -
  obtain rs r where "contents lib st' = Some rs" "find_token t rs = Some (delete_record r)"
    using delete_Ret [OF assms] by blast
  moreover have "2 \<le> state_rank (tr_state (delete_record r))"
    by (cases "tr_state r") (simp_all add: delete_record_def)
  ultimately show ?thesis unfolding barred_def by blast
qed

lemma barred_run:
  assumes "reads_back lib" and "no_write_faults ops" and "barred lib t st"
  shows "barred lib t (snd (token_run lib ops st))"
  using assms token_run_rank [OF assms(1,2)] unfolding barred_def by (meson le_trans)

lemma barred_denies:
  assumes "reads_back lib" and "barred lib t st"
  shows "verify_credential lib c t cred st \<noteq> (Ret v, st')"
  using verify_Ret [OF assms(1), of c t cred st v st'] assms(2) by (force simp: barred_def)

lemma barred_first:
  assumes "reads_back (cx_tokens cx)" and "tc_write_err (ce_token ev) = None"
    and "barred (cx_tokens cx) t (sv_store sv)" and "handle_first_frame cx ev ip raw sv = Ret (res, ms, sv')"
  shows "barred (cx_tokens cx) t (sv_store sv')"
proof -
  have one: "barred (cx_tokens cx) t (snd (token_exec (cx_tokens cx) op (sv_store sv)))"
    if "op_call op = ce_token ev" for op
    using barred_run [OF assms(1) _ assms(3), of "[op]"] assms(2) that
    by (simp add: no_write_faults_def)
  have "barred (cx_tokens cx) t (snd (redeem (cx_tokens cx) (ce_token ev) i s m (sv_store sv)))" for i s m
    using one [of "OpRedeem (ce_token ev) i s m"] by (auto split: prod.splits)
  moreover have "barred (cx_tokens cx) t (snd (verify_credential (cx_tokens cx) (ce_token ev) i cred (sv_store sv)))"
    for i cred
    using one [of "OpVerify (ce_token ev) i cred"] by (auto split: prod.splits)
  ultimately show ?thesis
    using assms(3,4)
    by (auto simp: handle_first_frame_def handle_join_def reject_first_def note_failure_def conn_encode_def
        split: sum.splits body.splits exec.splits option.splits prod.splits)
       (metis snd_conv)+
qed

lemma handle_frame_store:
  assumes "handle_frame cx ev raw t c sv = Ret (keep, ms, fx, sv')"
  shows "sv_store sv' = sv_store sv"
  using assms
  by (cases rule: handle_frame_cases [of cx raw ev t c sv])
     (auto simp: handle_body_def on_registry_def split: body.splits option.splits prod.splits)

lemma barred_step:
  assumes "reads_back (cx_tokens cx)" and "sys_step cx x s = Some s'" and "after_deletion cx t x"
    and "barred (cx_tokens cx) t (sv_store (sy_server s))"
  shows "barred (cx_tokens cx) t (sv_store (sy_server s'))"
proof (cases x)
  case (SFirst i msgs timely ev)
  with assms barred_first [OF assms(1)] show ?thesis
    by (auto simp: first_def split: conn_phase.splits option.splits exec.splits prod.splits
        first_result.splits if_splits)
next
  case (SIncoming i m ev)
  with assms show ?thesis
    by (auto simp: incoming_step_def handle_frame_store split: conn_phase.splits incoming.splits exec.splits
        prod.splits)
qed (use assms in \<open>auto simp: sys_defs split: conn_phase.splits if_splits prod.splits exec.splits list.splits\<close>)

section \<open>Tokens that are shut out\<close>

text \<open>No connection is registered for the token and no task holds a verified login for it.\<close>

definition shut_out :: "string \<Rightarrow> system \<Rightarrow> bool" where
  "shut_out t s \<longleftrightarrow>
     hm_get (rg_entries (sv_registry (sy_server s))) t = None \<and>
     (\<forall>i v. sy_phase s i = CVerified v \<longrightarrow> vc_token_id v \<noteq> t)"

lemma absent_ids: "hm_get (rg_entries r) t = None \<longleftrightarrow> (\<forall>c ch. (t, c, ch) \<notin> entry_ids r)"
proof
  assume "hm_get (rg_entries r) t = None"
  then show "\<forall>c ch. (t, c, ch) \<notin> entry_ids r"
    using hm_get_NoneD [of "rg_entries r" t] by (force simp: entry_ids_def)
next
  assume "\<forall>c ch. (t, c, ch) \<notin> entry_ids r"
  then show "hm_get (rg_entries r) t = None" using entry_ids_get by (cases "hm_get (rg_entries r) t") blast+
qed

lemma verified_token:
  assumes "reads_back lib" and "verify_credential lib c i cred st = (Ret v, st')"
  shows "vc_token_id v = i"
  using verify_Ret [OF assms] by (auto simp: verify_body_Ret)

lemma verified_new:
  assumes "reads_back (cx_tokens cx)" and "sys_step cx x s = Some s'"
    and "barred (cx_tokens cx) t (sv_store (sy_server s))"
    and "sy_phase s' i = CVerified v" and "vc_token_id v = t"
  shows "sy_phase s i = CVerified v"
proof (cases x)
  case (SFirst k msgs timely ev)
  show ?thesis
  proof (rule ccontr)
    assume "sy_phase s i \<noteq> CVerified v"
    with SFirst assms(2,4) obtain ip raw ms sv where
      "handle_first_frame cx ev ip raw (sy_server s) = Ret (FirstAuthed v, ms, sv)"
      by (auto simp: first_def split: conn_phase.splits option.splits exec.splits prod.splits
          first_result.splits if_splits)
    then obtain e :: envelope and cr where vc: "verify_credential (cx_tokens cx) (ce_token ev) (env_from e) cr
        (sv_store (sy_server s)) = (Ret v, sv_store sv)"
      using first_frame_authed by blast
    with verified_token [OF assms(1) vc] assms(5) barred_denies [OF assms(1,3)] show False by simp
  qed
qed (use assms in \<open>auto simp: sys_defs split: conn_phase.splits if_splits prod.splits exec.splits list.splits
       incoming.splits\<close>)

text \<open>A step adds an entry for a token only by registering a task verified for it.\<close>

lemma step_entries:
  assumes "sys_step cx x s = Some s'"
    and "(t, c, ch) \<in> entry_ids (sv_registry (sy_server s')) - entry_ids (sv_registry (sy_server s))"
  shows "\<exists>i v. sy_phase s i = CVerified v \<and> vc_token_id v = t"
proof (cases x)
  case (SRegister i)
  with assms entry_ids_reg_step [of "RegInsert tt cc h i" "sv_registry (sy_server s)" for tt cc h]
  show ?thesis by (fastforce simp: sys_defs split: conn_phase.splits)
next
  case (SFirst i msgs timely ev)
  with assms show ?thesis
    by (auto simp: first_def dest: first_frame_shared split: conn_phase.splits option.splits exec.splits
        prod.splits first_result.splits if_splits)
next
  case (SIncoming i m ev)
  have "entry_ids (sv_registry sv') \<subseteq> entry_ids (sv_registry (sy_server s))"
    if "handle_frame cx ev raw tt cc (sy_server s) = Ret (keep, ms, fx, sv')" for raw tt cc keep ms fx sv'
    using handle_frame_stays [OF that] by (simp add: stays_def)
  with SIncoming assms show ?thesis
    by (auto simp: incoming_step_def split: conn_phase.splits incoming.splits exec.splits prod.splits) blast
next
  case (SControl y)
  moreover have "inserted y = {}" if "control_op y" using that by (cases y) simp_all
  ultimately show ?thesis
    using assms entry_ids_reg_step [of y "sv_registry (sy_server s)"] by (auto split: if_splits)
next
  case (SRemove i)
  with assms entry_ids_reg_step [of "RegRemove tt" "sv_registry (sy_server s)" for tt]
  show ?thesis by (fastforce simp: sys_defs split: conn_phase.splits)
qed (use assms in \<open>auto simp: sys_defs split: conn_phase.splits if_splits prod.splits exec.splits list.splits\<close>)

lemma shut_out_step:
  assumes "reads_back (cx_tokens cx)" and "sys_step cx x s = Some s'"
    and "barred (cx_tokens cx) t (sv_store (sy_server s))" and "shut_out t s"
  shows "shut_out t s'"
  using verified_new [OF assms(1-3)] step_entries [OF assms(2)] assms(4)
  unfolding shut_out_def absent_ids by blast

lemma shut_out_run:
  assumes "reads_back (cx_tokens cx)" and "sys_run cx xs s = Some s'" and "\<forall>x \<in> set xs. after_deletion cx t x"
    and "barred (cx_tokens cx) t (sv_store (sy_server s))"
  shows "barred (cx_tokens cx) t (sv_store (sy_server s'))" and "shut_out t s \<Longrightarrow> shut_out t s'"
  using assms(2-4)
proof (induction xs arbitrary: s)
  case (Cons x xs)
  case 1
  then show ?case using Cons.IH(1) barred_step [OF assms(1)] by (force simp: bind_eq_Some_conv)
next
  case (Cons x xs)
  case 2
  then show ?case using Cons.IH(2) barred_step [OF assms(1)] shut_out_step [OF assms(1)]
    by (force simp: bind_eq_Some_conv)
qed auto

section \<open>Properties\<close>

text \<open>
  C12: a revoked token stays out of the running server.  Let the operator's \<open>delete\<close> succeed and its
  result become the store's contents while the server runs, let any steps of the server follow, and
  then let the control channel's revoke remove the token's connection.  If no task holds a login of
  the token that was verified but not yet registered at that moment, then from then on, over every
  interleaving (new connections with the old credential or join secret, frames still arriving on the
  revoked socket, other requests, other processes' token operations), the token is never registered
  again and no task is ever verified for it; so no request is ever sent to it.  The operations are
  assumed to write the store's file without error, and the other processes not to undo the deletion.
\<close>

theorem revocation_final:
  assumes "reads_back (cx_tokens cx)" and "delete (cx_tokens cx) c t st = (Ret d, store)"
    and "sys_run cx (SStore store # ys) s = Some s1" and "\<forall>i v. sy_phase s1 i = CVerified v \<longrightarrow> vc_token_id v \<noteq> t"
    and "sys_run cx (SControl (RegRemove t) # xs) s1 = Some s'" and "\<forall>x \<in> set (ys @ xs). after_deletion cx t x"
  shows "hm_get (rg_entries (sv_registry (sy_server s'))) t = None \<and>
         (\<forall>i v. sy_phase s' i = CVerified v \<longrightarrow> vc_token_id v \<noteq> t) \<and>
         fst (verify_credential (cx_tokens cx) call t cred (sv_store (sy_server s'))) \<noteq> Ret v"
proof -
  have b1: "barred (cx_tokens cx) t (sv_store (sy_server s1))"
    using shut_out_run(1) [OF assms(1), of ys "set_server ((sy_server s)\<lparr>sv_store := store\<rparr>) s"]
      assms(3,6) barred_deleted [OF assms(1,2)] by simp
  obtain s2 where s2: "s2 = on_sys_registry (reg_step (RegRemove t)) s1" "sys_run cx xs s2 = Some s'"
    using assms(5) by simp
  have "shut_out t s2"
    using assms(4) s2(1) by (simp add: shut_out_def registry_remove_def hm_simps split: option.splits)
  moreover have "barred (cx_tokens cx) t (sv_store (sy_server s2))" using b1 s2(1) by simp
  ultimately have "shut_out t s'" "barred (cx_tokens cx) t (sv_store (sy_server s'))"
    using shut_out_run [OF assms(1) s2(2)] assms(6) by simp_all
  with barred_denies [OF assms(1)] show ?thesis
    unfolding shut_out_def by (metis prod.collapse)
qed

text \<open>The operator deletes the token; a client that holds its credential then tries to log in.\<close>

definition demo_retry :: "sys_op list" where
  "demo_retry = [SAccept 0 ''127.0.0.1'', SStart 0 True demo_env, SFirst 0 [InText ''frame''] True demo_env]"

lemma demo_deletes: "\<exists>d store. delete demo_token_lib (demo_call 5) ''tok_a'' demo_bound_store = (Ret d, store)"
  using delete_healthy [OF demo_prints demo_healthy demo_bound_contents demo_bound_found] by blast

lemma demo_retry_runs: "\<exists>s'. sys_run cx demo_retry (on_sys_registry f (set_server ((sy_server demo_init)\<lparr>sv_store := st\<rparr>) demo_init)) = Some s'"
  by (simp add: demo_retry_def demo_init_def sys_init_def accept_def start_def Let_def is_locked_out_def hm_get_def
      lockout_new_def with_params_def demo_cx_def demo_ctx_def connection_limits_default_def)

theorem revocation_final_witness:
  "\<exists>d store s'. delete demo_token_lib (demo_call 5) ''tok_a'' demo_bound_store = (Ret d, store) \<and>
     sys_run demo_cx ([SStore store, SControl (RegRemove ''tok_a'')] @ demo_retry) demo_init = Some s' \<and>
     hm_get (rg_entries (sv_registry (sy_server s'))) ''tok_a'' = None \<and>
     (\<forall>v. sy_phase s' 0 = CVerified v \<longrightarrow> vc_token_id v \<noteq> ''tok_a'')"
proof -
  obtain d store where del: "delete demo_token_lib (demo_call 5) ''tok_a'' demo_bound_store = (Ret d, store)"
    using demo_deletes by blast
  let ?s1 = "set_server ((sy_server demo_init)\<lparr>sv_store := store\<rparr>) demo_init"
  obtain s' where s': "sys_run demo_cx demo_retry (on_sys_registry (reg_step (RegRemove ''tok_a'')) ?s1) = Some s'"
    using demo_retry_runs by blast
  have cx: "cx_tokens demo_cx = demo_token_lib" by (simp add: demo_cx_def demo_ctx_def)
  have "\<forall>i v. sy_phase ?s1 i = CVerified v \<longrightarrow> vc_token_id v \<noteq> ''tok_a''"
    by (simp add: demo_init_def sys_init_def)
  moreover have "\<forall>x \<in> set ([] @ demo_retry). after_deletion demo_cx ''tok_a'' x"
    by (simp add: demo_retry_def demo_env_def demo_call_def)
  ultimately show ?thesis
    using revocation_final [of demo_cx "demo_call 5" "''tok_a''" demo_bound_store d store "[]" demo_init ?s1 demo_retry s'
        "demo_call 6" "''c''" demo_client] s' del cx demo_reads_back
    by auto
qed

text \<open>
  C25: revocation misses a login in progress.  Suppose a task holds a login of a token that the store
  verified but that is not registered yet, and the token has no registered connection.  Then the token
  is deleted in the store and the revoke reaches the server: it closes no channel, changes no
  connection and leaves the task where it was.  The task then registers the connection and greets the
  client: the token, whose credentials the store now refuses, has a live session to which requests are
  sent until its socket closes.
\<close>

theorem revoke_misses_verified_login:
  assumes "reads_back (cx_tokens cx)" and "sy_phase s i = CVerified v"
    and "hm_get (rg_entries (sv_registry (sy_server s))) (vc_token_id v) = None"
    and "delete (cx_tokens cx) call (vc_token_id v) (sv_store (sy_server s)) = (Ret d, store)"
  shows "\<exists>s1 s' e.
           sys_run cx [SStore store, SControl (RegRemove (vc_token_id v)), SGone (vc_token_id v)] s = Some s1 \<and>
           sv_registry (sy_server s1) = sv_registry (sy_server s) \<and> sy_closed s1 = sy_closed s \<and>
           sy_queue s1 = sy_queue s \<and> sy_phase s1 = sy_phase s \<and>
           sys_run cx [SRegister i, SHello i True ev] s1 = Some s' \<and>
           sy_phase s' i = CSession v \<and>
           hm_get (rg_entries (sv_registry (sy_server s'))) (vc_token_id v) = Some e \<and> en_out e = i \<and>
           sv_store (sy_server s') = store \<and>
           (\<forall>c cred w st. verify_credential (cx_tokens cx) c (vc_token_id v) cred store \<noteq> (Ret w, st))"
proof -
  obtain m where m: "conn_encode cx (server_hello (ce_id ev) (ce_ts ev) (cx_hostname cx)) = Ret m"
    using hello_encodes by blast
  have rm: "registry_remove (vc_token_id v) (sv_registry (sy_server s)) = (False, sv_registry (sy_server s), [])"
    using assms(3) by (simp add: registry_remove_def)
  define s1 where "s1 = on_roster (mark_gone (vc_token_id v)) (set_server ((sy_server s)\<lparr>sv_store := store\<rparr>) s)"
  have one: "sys_run cx [SStore store, SControl (RegRemove (vc_token_id v)), SGone (vc_token_id v)] s = Some s1"
    by (simp add: s1_def on_sys_registry_def on_registry_def rm set_server_def)
  have kept: "sv_registry (sy_server s1) = sv_registry (sy_server s)" "sy_closed s1 = sy_closed s"
      "sy_queue s1 = sy_queue s" "sy_phase s1 = sy_phase s"
    by (simp_all add: s1_def)
  have two: "\<exists>s' e. sys_run cx [SRegister i, SHello i True ev] s1 = Some s' \<and> sy_phase s' i = CSession v \<and>
      hm_get (rg_entries (sv_registry (sy_server s'))) (vc_token_id v) = Some e \<and> en_out e = i \<and>
      sv_store (sy_server s') = store"
    using assms(2,3) m by (simp add: s1_def register_conn_def hello_def registry_insert_def put_entry_def hm_simps)
  have "verify_credential (cx_tokens cx) c (vc_token_id v) cred store \<noteq> (Ret w, st)" for c cred w st
    using barred_denies [OF assms(1) barred_deleted [OF assms(1,4)]] .
  with one kept two show ?thesis by blast
qed

theorem revoke_misses_verified_login_witness:
  "\<exists>s s1 s' d store e. sys_run demo_cx (demo_login 0 @ [SStore demo_bound_store]) demo_init = Some s \<and>
     delete demo_token_lib (demo_call 5) ''tok_a'' (sv_store (sy_server s)) = (Ret d, store) \<and>
     sys_run demo_cx [SStore store, SControl (RegRemove ''tok_a''), SGone ''tok_a''] s = Some s1 \<and>
     sy_closed s1 = sy_closed s \<and> sys_run demo_cx [SRegister 0, SHello 0 True demo_env] s1 = Some s' \<and>
     sy_phase s' 0 = CSession demo_client \<and>
     hm_get (rg_entries (sv_registry (sy_server s'))) ''tok_a'' = Some e \<and> en_out e = 0"
proof -
  obtain d store where del: "delete demo_token_lib (demo_call 5) ''tok_a'' demo_bound_store = (Ret d, store)"
    using demo_deletes by blast
  obtain st where "sys_run demo_cx (demo_login 0) demo_init =
      Some (demo_init\<lparr>sy_server := (sy_server demo_init)\<lparr>sv_store := st\<rparr>,
              sy_phase := (sy_phase demo_init)(0 := CVerified demo_client),
              sy_admitted := (0, demo_client) # sy_admitted demo_init\<rparr>)"
    using demo_logs_in [of demo_init 0]
    by (auto simp: demo_init_def sys_init_def demo_cx_def demo_ctx_def connection_limits_default_def
        lockout_new_def with_params_def)
  then obtain s where s: "sys_run demo_cx (demo_login 0 @ [SStore demo_bound_store]) demo_init = Some s"
      "sy_phase s 0 = CVerified demo_client" "sv_store (sy_server s) = demo_bound_store"
      "hm_get (rg_entries (sv_registry (sy_server s))) (vc_token_id demo_client) = None"
    by (simp add: sys_run_append demo_init_def sys_init_def registry_new_def hm_get_def)
  have cx: "cx_tokens demo_cx = demo_token_lib" by (simp add: demo_cx_def demo_ctx_def)
  with s del demo_reads_back revoke_misses_verified_login [OF _ s(2,4), of demo_cx "demo_call 5" d store demo_env]
  show ?thesis by (auto simp: demo_client_def)
qed

text \<open>
  C26: a revoked session can come back to the roster.  The revoke marks the token's rows gone and drops
  its channel, but the connection's task may read one more frame before it notices.  If that frame is
  a \<open>presence\<close> for a session of the token, the row is fresh again; the task then ends because its
  channel is gone, which is not a certain close, so the row is not marked gone a second time.  In the
  end the token has no connection, its task is over, and its session still resolves, until the row
  ages out.
\<close>

theorem revoked_session_can_reappear:
  assumes "sy_phase s i = CSession v" and "hm_get (rg_entries (sv_registry (sy_server s))) (vc_token_id v) = Some en"
    and "en_out en = i" and "sy_queue s i = []"
    and "decode (cx_json cx) raw = Inr e" and "env_body e = BPresence p" and "pres_sessions p = [j]"
    and "presence_session_from j = Some ps"
    and "resolve_session (ce_now ev) (ps_name ps) (sv_roster (sy_server s)) \<in> {None, Some (vc_token_id v)}"
    and "0 < gone_after (ro_config (sv_roster (sy_server s)))"
  shows "\<exists>s'. sys_run cx [SControl (RegRemove (vc_token_id v)), SGone (vc_token_id v), SIncoming i (InText raw) ev,
                          SOutgoing i True, SRemove i, SMarkGone i] s = Some s' \<and>
           sy_phase s' i = CDone \<and> hm_get (rg_entries (sv_registry (sy_server s'))) (vc_token_id v) = None \<and>
           resolve_session (ce_now ev) (ps_name ps) (sv_roster (sy_server s')) = Some (vc_token_id v)"
proof -
  let ?t = "vc_token_id v" and ?n = "ps_name ps"
  let ?rm = "mark_gone ?t (sv_roster (sy_server s))"
  have none: "resolve_session (ce_now ev) ?n ?rm = None"
    using assms(9) by (auto simp: mark_gone_resolves)
  have cfg: "0 < gone_after (ro_config ?rm)" using assms(10) by (simp add: mark_gone_def)
  define ro where "ro = advertise_row ev ?t (vc_client_id v) j ?rm"
  have row: "resolve_session (ce_now ev) ?n ro = Some ?t"
    using roster_advertise_outcome [OF cfg, where now = "ce_now ev" and name = ?n and harness = "ps_harness ps"
        and tok = ?t and cl = "vc_client_id v" and mode = "ps_mode ps" and hsid = "ps_harness_session_id ps"] none assms(8)
    by (auto simp: ro_def advertise_row_def split: sum.splits)
  obtain r fx where rm: "registry_remove ?t (sv_registry (sy_server s)) = (True, r, fx)"
      "fx = drop_entry en" "hm_get (rg_entries r) ?t = None"
    using assms(2) by (auto simp: registry_remove_def hm_simps)
  have closed: "sy_closed (apply_effects fx s0) i" "sy_queue (apply_effects fx s0) = sy_queue s0" for s0
    using rm(2) assms(3) by (auto simp: drop_entry_def apply_effects_def apply_drops)
  have again: "registry_remove ?t r = (False, r, [])"
    using rm(3) by (simp add: registry_remove_def)
  show ?thesis
    using assms(1,4-7) rm(1,3) row closed again
    by (simp add: on_sys_registry_def on_registry_def incoming_step_def handle_frame_def handle_body_def
        outgoing_step_def remove_conn_def finish_conn_def on_roster_def set_phase_def set_server_def send_out_def
        ro_def [symmetric])
qed

definition demo_presence :: envelope where
  "demo_presence = \<lparr>env_v = 1, env_msg_type = TPresence, env_id = ''2'', env_ts = ''t'', env_from = ''tok_a'',
     env_body = BPresence \<lparr>pres_sessions =
       [JObject [(''harness'', JString ''opencode''), (''name'', JString ''alpha'')]]\<rparr>\<rparr>"

definition demo_presence_cx :: conn_ctx where
  "demo_presence_cx = demo_ctx (demo_lib (the (envelope_json demo_presence)))"

definition demo_session :: system where
  "demo_session = demo_init\<lparr>sy_phase := (\<lambda>_. CIdle)(0 := CSession demo_client),
     sy_server := (sy_server demo_init)\<lparr>sv_registry := fst (registry_insert ''tok_a'' ''cli_a'' ''box'' 0 registry_new)\<rparr>\<rparr>"

theorem revoked_session_can_reappear_witness:
  "\<exists>s'. sys_run demo_presence_cx [SControl (RegRemove ''tok_a''), SGone ''tok_a'', SIncoming 0 (InText ''frame'') demo_env,
                  SOutgoing 0 True, SRemove 0, SMarkGone 0] demo_session = Some s' \<and>
        hm_get (rg_entries (sv_registry (sy_server s'))) ''tok_a'' = None \<and>
        resolve_session (ce_now demo_env) ''alpha'' (sv_roster (sy_server s')) = Some ''tok_a''"
proof -
  have "canon (JObject [(''harness'', JString ''opencode''), (''name'', JString ''alpha'')]) =
      JObject [(''harness'', JString ''opencode''), (''name'', JString ''alpha'')]"
    by code_simp
  then have wf: "envelope_wf demo_presence" by (simp add: envelope_wf_def demo_presence_def)
  have dec: "decode (cx_json demo_presence_cx) ''frame'' = Inr demo_presence"
    using encode_decode [OF wf, of "cx_json demo_presence_cx"]
    by (simp add: demo_presence_cx_def demo_ctx_def demo_lib_def encode_def)
  obtain e where e: "hm_get (rg_entries (sv_registry (sy_server demo_session))) ''tok_a'' = Some e" "en_out e = 0"
    by (simp add: demo_session_def registry_insert_def registry_new_def put_entry_def hm_simps)
  have ps: "presence_session_from (JObject [(''harness'', JString ''opencode''), (''name'', JString ''alpha'')]) =
      Some \<lparr>ps_name = ''alpha'', ps_harness = ''opencode'', ps_mode = None, ps_harness_session_id = None\<rparr>"
    by code_simp
  have st: "sy_phase demo_session 0 = CSession demo_client" "sy_queue demo_session 0 = []"
      "resolve_session (ce_now demo_env) ''alpha'' (sv_roster (sy_server demo_session)) = None"
      "0 < gone_after (ro_config (sv_roster (sy_server demo_session)))"
      "env_body demo_presence = BPresence \<lparr>pres_sessions =
         [JObject [(''harness'', JString ''opencode''), (''name'', JString ''alpha'')]]\<rparr>"
    by (simp_all add: demo_session_def demo_init_def sys_init_def roster_new_def resolve_session_def demo_config_def
        demo_presence_def)
  have t: "vc_token_id demo_client = ''tok_a''" by (simp add: demo_client_def)
  from revoked_session_can_reappear [OF st(1) e(1) [folded t] e(2) st(2) dec st(5) _ ps, of demo_env] st(3,4) t
  show ?thesis by auto
qed

end
