(* ===== verification/Delivery.thy ===== *)
theory Delivery
  imports Server "HOL-Library.Sublist"
begin

text \<open>
  What happens to the frames queued for a session.  The registry and the control channel put frames
  on a connection's outbound channel; the connection's task (\<open>handle_connection\<close> of
  \<open>src/src/wire/connection.rs\<close>) takes them off and writes them to the socket, between frames of its
  own.  The steps are those of theory Server.
\<close>

section \<open>Queues\<close>

fun outgoing_to :: "nat \<Rightarrow> sys_op \<Rightarrow> bool" where
  "outgoing_to i (SOutgoing j ok) \<longleftrightarrow> j = i"
| "outgoing_to i _ \<longleftrightarrow> False"

text \<open>A session that has ended never runs again.\<close>

fun over :: "conn_phase \<Rightarrow> bool" where
  "over (CClosing _ _) = True"
| "over (CRemoved _ _) = True"
| "over CDone = True"
| "over _ = False"

lemma over_step:
  assumes "sys_step cx x s = Some s'" and "over (sy_phase s i)"
  shows "over (sy_phase s' i)"
proof -
  have next_over: "over q" if "next_phase p q" and "over p" for p q
    using that by (cases p) auto
  from sys_step_moves [OF assms(1)] show ?thesis
  proof (elim disjE exE conjE)
    fix k
    assume "sy_phase s' = (sy_phase s)(k := sy_phase s' k)" "next_phase (sy_phase s k) (sy_phase s' k)"
    with assms(2) next_over show ?thesis by (metis fun_upd_apply)
  qed (use assms(2) in simp)
qed

lemma over_run: "sys_run cx xs s = Some s' \<Longrightarrow> over (sy_phase s i) \<Longrightarrow> over (sy_phase s' i)"
  by (induction xs arbitrary: s) (auto simp: bind_eq_Some_conv intro: over_step)

lemma session_until:
  assumes "sys_step cx x s = Some s1" and "sys_run cx xs s1 = Some s'"
    and "sy_phase s i = CSession v" and "sy_phase s' i = CSession w"
  shows "sy_phase s1 i = CSession v"
proof -
  have "\<not> over (sy_phase s1 i)" using over_run [OF assms(2)] assms(4) by fastforce
  moreover from sys_step_moves [OF assms(1)] have "sy_phase s1 i = sy_phase s i \<or> next_phase (sy_phase s i) (sy_phase s1 i)"
    by (metis fun_upd_apply)
  ultimately show ?thesis using assms(3) by auto
qed

text \<open>The frames that effects, a step, and a run put on channel \<open>i\<close>.\<close>

definition sends_to :: "channel \<Rightarrow> effect list \<Rightarrow> envelope list" where
  "sends_to i fx = List.map_filter (\<lambda>x. case x of SendOut ch e \<Rightarrow> if ch = i then Some e else None | _ \<Rightarrow> None) fx"

fun step_sends :: "conn_ctx \<Rightarrow> channel \<Rightarrow> sys_op \<Rightarrow> system \<Rightarrow> envelope list" where
  "step_sends cx i (SPush ch e) s = (if ch = i then [e] else [])"
| "step_sends cx i (SControl x) s = sends_to i (snd (reg_step x (sv_registry (sy_server s))))"
| "step_sends cx i (SRegister j) s =
     (case sy_phase s j of
        CVerified v \<Rightarrow>
          sends_to i (snd (registry_insert (vc_token_id v) (vc_client_id v) (vc_machine v) j (sv_registry (sy_server s))))
      | _ \<Rightarrow> [])"
| "step_sends cx i (SRemove j) s =
     (case sy_phase s j of
        CClosing v certain \<Rightarrow> sends_to i (snd (snd (registry_remove (vc_token_id v) (sv_registry (sy_server s)))))
      | _ \<Rightarrow> [])"
| "step_sends cx i (SIncoming j (InText raw) ev) s =
     (case sy_phase s j of
        CSession v \<Rightarrow>
          (case handle_frame cx ev raw (vc_token_id v) (vc_client_id v) (sy_server s) of
             Ret (keep, ms, fx, sv) \<Rightarrow> sends_to i fx
           | _ \<Rightarrow> [])
      | _ \<Rightarrow> [])"
| "step_sends cx i _ s = []"

fun run_sends :: "conn_ctx \<Rightarrow> channel \<Rightarrow> sys_op list \<Rightarrow> system \<Rightarrow> envelope list" where
  "run_sends cx i [] s = []"
| "run_sends cx i (x # xs) s =
     step_sends cx i x s @ (case sys_step cx x s of None \<Rightarrow> [] | Some s1 \<Rightarrow> run_sends cx i xs s1)"

lemma sends_to_simps [simp]:
  "sends_to i [] = []"
  "sends_to i (x # fx) = (case x of SendOut ch e \<Rightarrow> if ch = i then [e] else [] | _ \<Rightarrow> []) @ sends_to i fx"
  by (auto simp: sends_to_def map_filter_simps split: effect.splits)

lemma effects_queue: "sy_queue (apply_effects fx s) i = sy_queue s i @ sends_to i fx"
proof -
  have one: "sy_queue (apply_effect x s) i = sy_queue s i @ sends_to i [x]" for x s
    by (cases x) auto
  show ?thesis
    unfolding apply_effects_def
    by (induction fx arbitrary: s) (auto simp: one split: effect.splits)
qed

lemma registry_queue:
  "sy_queue (on_sys_registry f s) i = sy_queue s i @ sends_to i (snd (f (sv_registry (sy_server s))))"
  by (simp add: on_sys_registry_def on_registry_def effects_queue split: prod.splits)

text \<open>
  One step of a running session: an outgoing step takes the head of the queue and writes it, any
  other step adds what it sends to the end of the queue and may write frames of the session's own.
\<close>

lemma session_step:
  assumes "sys_step cx x s = Some s'" and "sy_phase s i = CSession v" and "sy_phase s' i = CSession v"
  shows "if outgoing_to i x
         then step_sends cx i x s = [] \<and> (\<exists>e m. sy_queue s i = e # sy_queue s' i \<and> conn_encode cx e = Ret m \<and>
                sy_sent s' i = sy_sent s i @ [m])
         else sy_queue s' i = sy_queue s i @ step_sends cx i x s \<and> (\<exists>ms. sy_sent s' i = sy_sent s i @ ms)"
proof (cases x)
  case (SOutgoing j ok)
  with assms show ?thesis
    by (auto simp: outgoing_step_def Let_def split: conn_phase.splits list.splits exec.splits if_splits)
next
  case (SRegister j)
  moreover have "j \<noteq> i" using SRegister assms(1,2) by auto
  ultimately show ?thesis
    using assms(1) by (auto simp: register_conn_def registry_queue split: conn_phase.splits)
next
  case (SIncoming j m ev)
  with assms(1) show ?thesis
    by (cases m) (auto simp: incoming_step_def effects_queue split: conn_phase.splits exec.splits prod.splits)
qed (use assms(1) in \<open>auto simp: sys_defs release_def registry_queue split: conn_phase.splits if_splits prod.splits
       exec.splits option.splits first_result.splits\<close>)

section \<open>Properties\<close>

text \<open>
  C15: frames queued for a session are written in the order they were queued.  Take any run of the
  server during which a session stays up.  The frames its task took off the channel are the first
  ones that were queued at the start followed by those queued meanwhile, one for each of its outgoing
  steps, none lost, repeated or overtaken; each was encoded and written to the session's own socket,
  in that order, between whatever else the session wrote; and what is left is still queued.
  So a queued frame has been written as soon as the task has taken as many outgoing steps as there were
  frames up to it.
\<close>

theorem queued_frames_delivered:
  assumes "sys_run cx xs s = Some s'" and "sy_phase s i = CSession v" and "sy_phase s' i = CSession w"
  shows "\<exists>taken ms written.
           sy_queue s i @ run_sends cx i xs s = taken @ sy_queue s' i \<and>
           length taken = length (filter (outgoing_to i) xs) \<and>
           map (conn_encode cx) taken = map Ret ms \<and>
           sy_sent s' i = sy_sent s i @ written \<and> subseq ms written"
  using assms
proof (induction xs arbitrary: s)
  case Nil
  then show ?case by simp
next
  case (Cons x xs)
  then obtain s1 where s1: "sys_step cx x s = Some s1" "sys_run cx xs s1 = Some s'"
    by (auto simp: bind_eq_Some_conv)
  note ses = session_until [OF s1 Cons.prems(2,3)]
  obtain taken ms written where ih: "sy_queue s1 i @ run_sends cx i xs s1 = taken @ sy_queue s' i"
      "length taken = length (filter (outgoing_to i) xs)" "map (conn_encode cx) taken = map Ret ms"
      "sy_sent s' i = sy_sent s1 i @ written" "subseq ms written"
    using Cons.IH [OF s1(2) ses Cons.prems(3)] by blast
  show ?case
  proof (cases "outgoing_to i x")
    case True
    with session_step [OF s1(1) Cons.prems(2) ses] obtain e m where
      "sy_queue s i = e # sy_queue s1 i" "conn_encode cx e = Ret m" "sy_sent s1 i = sy_sent s i @ [m]"
      "step_sends cx i x s = []" by auto
    with ih True s1(1) show ?thesis
      by (intro exI [of _ "e # taken"] exI [of _ "m # ms"] exI [of _ "m # written"]) auto
  next
    case False
    with session_step [OF s1(1) Cons.prems(2) ses] obtain own where
      "sy_queue s1 i = sy_queue s i @ step_sends cx i x s" "sy_sent s1 i = sy_sent s i @ own" by auto
    with ih False s1(1) show ?thesis
      by (intro exI [of _ taken] exI [of _ ms] exI [of _ "own @ written"]) (auto intro: list_emb_append2)
  qed
qed

text \<open>Two frames are pushed to the session of theory Server's concrete run; its task writes both.\<close>

theorem queued_frames_delivered_witness:
  "\<exists>s s' ms written. sys_run demo_cx demo_ops demo_init = Some s \<and>
     sys_run demo_cx [SPush 0 (new_ping_envelope ''t'' ''p1'' ''hub''), SOutgoing 0 True,
                      SPush 0 (new_ping_envelope ''t'' ''p2'' ''hub''), SOutgoing 0 True] s = Some s' \<and>
     map (conn_encode demo_cx) [new_ping_envelope ''t'' ''p1'' ''hub'', new_ping_envelope ''t'' ''p2'' ''hub''] = map Ret ms \<and>
     sy_sent s' 0 = sy_sent s 0 @ written \<and> subseq ms written"
proof -
  let ?a = "new_ping_envelope ''t'' ''p1'' ''hub''" and ?b = "new_ping_envelope ''t'' ''p2'' ''hub''"
  let ?xs = "[SPush 0 ?a, SOutgoing 0 True, SPush 0 ?b, SOutgoing 0 True]"
  obtain s where s: "sys_run demo_cx demo_ops demo_init = Some s" "sy_phase s 0 = CSession demo_client" "sy_queue s 0 = []"
    using demo_run by blast
  obtain ma mb where m: "conn_encode demo_cx ?a = Ret ma" "conn_encode demo_cx ?b = Ret mb"
    using conn_encode_wf [OF hello_builders_wf(2)] by blast
  obtain s' where s': "sys_run demo_cx ?xs s = Some s'" "sy_phase s' 0 = CSession demo_client" "sy_queue s' 0 = []"
    using s(2,3) m by (simp add: outgoing_step_def Let_def)
  have sends: "run_sends demo_cx 0 ?xs s = [?a, ?b]"
    using s(2,3) m by (simp add: outgoing_step_def Let_def)
  obtain taken ms written where d: "sy_queue s 0 @ run_sends demo_cx 0 ?xs s = taken @ sy_queue s' 0"
      "map (conn_encode demo_cx) taken = map Ret ms" "sy_sent s' 0 = sy_sent s 0 @ written" "subseq ms written"
    using queued_frames_delivered [OF s'(1) s(2) s'(2)] by blast
  from d(1) have "taken = [?a, ?b]" unfolding sends s(3) s'(3) by simp
  with d s(1) s'(1) show ?thesis by blast
qed

end
