(* ===== verification/Trace.thy ===== *)
theory Trace
  imports Control Debug
begin

text \<open>
  The log lines of the connection handler (\<open>src/src/wire/connection.rs\<close>) and of the registry's
  requests (\<open>src/src/wire/registry.rs\<close>), as the events of theory Debug in the order they are emitted.

  \<^item> A function here takes what the handler it belongs to takes and follows the same branches; the
    handlers themselves are in theories Connection and Registry.
  \<^item> \<open>peer\<close> is the text of the socket's remote address.  Wordings that come from libraries (the error of
    a handshake, of a read, of a row that does not parse, the \<open>Debug\<close> form of a duration) are arguments.
\<close>

section \<open>Connection lines\<close>

definition conn_trace :: "debug_config \<Rightarrow> string \<Rightarrow> event" where
  "conn_trace cfg msg = event_field ''event'' msg (event_local cfg ''wire'' ''conn'')"

definition cap_reached_log :: "debug_config \<Rightarrow> string \<Rightarrow> event list" where
  "cap_reached_log cfg peer =
     [conn_trace cfg (''['' @ peer @ ''] rejecting: unauthenticated-connection cap reached'')]"

text \<open>The lockout check and the handshake (\<open>Some\<close> error when it fails).\<close>

definition start_log :: "debug_config \<Rightarrow> conn_env \<Rightarrow> string \<Rightarrow> string \<Rightarrow> string option \<Rightarrow> server \<Rightarrow> event list" where
  "start_log cfg ev ip peer handshake_error sv =
     (if fst (is_locked_out (ce_now ev) ip (sv_lockout sv)) then
        [event_field ''addr'' peer
           (event_field ''reason'' ''locked_out''
             (event_field ''event'' ''refused'' (event_local cfg ''wire'' ''conn'')))]
      else case handshake_error of
             Some e \<Rightarrow> [conn_trace cfg (''['' @ peer @ ''] websocket handshake failed: '' @ e)]
           | None \<Rightarrow> [])"

definition pre_auth_timeout_log :: "debug_config \<Rightarrow> string \<Rightarrow> (duration \<Rightarrow> string) \<Rightarrow> duration \<Rightarrow> event list" where
  "pre_auth_timeout_log cfg peer shown limit =
     [conn_trace cfg (''['' @ peer @ ''] closing: no first frame within '' @ shown limit)]"

text \<open>The lines of a login: the outcome, whose token, from where and why not.\<close>

definition login_line :: "debug_config \<Rightarrow> string \<Rightarrow> string \<Rightarrow> string \<Rightarrow> string option \<Rightarrow> event" where
  "login_line cfg outcome token_id addr reason =
     (let e = event_field ''addr'' addr
                (event_peer (redact ''token_id'' token_id)
                  (event_field ''event'' outcome (event_local cfg ''wire'' ''conn'')))
      in case reason of None \<Rightarrow> e | Some r \<Rightarrow> event_field ''reason'' r e)"

definition join_log ::
  "debug_config \<Rightarrow> conn_ctx \<Rightarrow> conn_env \<Rightarrow> string \<Rightarrow> envelope \<Rightarrow> string \<Rightarrow> string \<Rightarrow> server \<Rightarrow> event list" where
  "join_log cfg cx ev peer e secret hostname sv =
     (case fst (redeem (cx_tokens cx) (ce_token ev) (env_from e) secret hostname (sv_store sv)) of
        Ret result \<Rightarrow> [login_line cfg ''join_ok'' (env_from e) peer None]
      | Raise err \<Rightarrow>
          [login_line cfg ''join_rejected'' (env_from e) peer (Some (token_error_display (cx_quoted cx) err))]
      | Panic \<Rightarrow> [])"

definition auth_log ::
  "debug_config \<Rightarrow> conn_ctx \<Rightarrow> conn_env \<Rightarrow> string \<Rightarrow> envelope \<Rightarrow> string \<Rightarrow> server \<Rightarrow> event list" where
  "auth_log cfg cx ev peer e credential sv =
     (case fst (verify_credential (cx_tokens cx) (ce_token ev) (env_from e) credential (sv_store sv)) of
        Ret v \<Rightarrow> [login_line cfg ''authenticated'' (vc_token_id v) peer None]
      | Raise err \<Rightarrow>
          [login_line cfg ''auth_rejected'' (env_from e) peer (Some (token_error_display (cx_quoted cx) err))]
      | Panic \<Rightarrow> [])"

text \<open>Everything logged about a first frame, up to the registration of the session it opens.\<close>

definition first_frame_log ::
  "debug_config \<Rightarrow> conn_ctx \<Rightarrow> conn_env \<Rightarrow> string \<Rightarrow> string \<Rightarrow> server \<Rightarrow> event list" where
  "first_frame_log cfg cx ev peer raw sv =
     (case decode (cx_json cx) raw of
        Inl err \<Rightarrow> [conn_trace cfg (''['' @ peer @ ''] first frame did not decode: '' @ decode_error_display err)]
      | Inr e \<Rightarrow>
          (case env_body e of
             BJoin j \<Rightarrow> join_log cfg cx ev peer e (join_secret j) (join_hostname j) sv
           | BAuth a \<Rightarrow>
               (case as_str (auth_credential a) of
                  None \<Rightarrow> []
                | Some credential \<Rightarrow> auth_log cfg cx ev peer e credential sv)
           | _ \<Rightarrow> []))"

fun message_type_debug :: "message_type \<Rightarrow> string" where
  "message_type_debug TJoin = ''Join''"
| "message_type_debug TJoinOk = ''JoinOk''"
| "message_type_debug TAuth = ''Auth''"
| "message_type_debug THello = ''Hello''"
| "message_type_debug TQuery = ''Query''"
| "message_type_debug TQueryOk = ''QueryOk''"
| "message_type_debug TPrompt = ''Prompt''"
| "message_type_debug TReply = ''Reply''"
| "message_type_debug TInterrupt = ''Interrupt''"
| "message_type_debug TAnswer = ''Answer''"
| "message_type_debug TPresence = ''Presence''"
| "message_type_debug TSessionBlocked = ''SessionBlocked''"
| "message_type_debug TPing = ''Ping''"
| "message_type_debug TPong = ''Pong''"
| "message_type_debug TAck = ''Ack''"
| "message_type_debug TError = ''Error''"

definition show_bool :: "bool \<Rightarrow> string" where
  "show_bool b = (if b then ''true'' else ''false'')"

text \<open>The rows of a \<open>presence\<close> frame, each seen with the roster as the rows before it left it.\<close>

fun presence_log ::
  "debug_config \<Rightarrow> (string \<Rightarrow> string) \<Rightarrow> (json \<Rightarrow> string) \<Rightarrow> conn_env \<Rightarrow> string \<Rightarrow> string \<Rightarrow> json list \<Rightarrow> roster
   \<Rightarrow> event list" where
  "presence_log cfg quoted row_error ev token client [] r = []"
| "presence_log cfg quoted row_error ev token client (j # js) r =
     (case presence_session_from j of
        None \<Rightarrow> [conn_trace cfg (''presence: skipping malformed session row: '' @ row_error j)]
      | Some s \<Rightarrow>
          (case advertise_with_mode (ce_now ev) (ps_name s) (ps_harness s) token client (ps_mode s)
                  (ps_harness_session_id s) r of
             Inl conflict \<Rightarrow>
               [conn_trace cfg (''presence: '' @ roster_conflict_display quoted conflict @ '', ignoring advertise'')]
           | Inr r' \<Rightarrow> []))
     @ presence_log cfg quoted row_error ev token client js (advertise_row ev token client j r)"

text \<open>A reply's text is a field of its own, unless there is none.\<close>

definition with_text :: "reply_body \<Rightarrow> event \<Rightarrow> event" where
  "with_text b e =
     (let text_preview = concat (reply_pieces b)
      in if text_preview = [] then e else event_field ''text'' text_preview e)"

definition reply_received :: "debug_config \<Rightarrow> json_lib \<Rightarrow> string \<Rightarrow> string \<Rightarrow> reply_body \<Rightarrow> event" where
  "reply_received cfg lib i client b =
     event_frame_of lib (Some (reply_json b))
       (with_text b
         (event_field ''done'' (show_bool (rp_done b))
           (event_field ''session'' (rp_session b)
             (event_peer client (event_id i (event_incoming cfg ''wire'' ''reply''))))))"

definition frame_log ::
  "debug_config \<Rightarrow> conn_ctx \<Rightarrow> (json \<Rightarrow> string) \<Rightarrow> conn_env \<Rightarrow> string \<Rightarrow> string \<Rightarrow> string \<Rightarrow> server \<Rightarrow> event list" where
  "frame_log cfg cx row_error ev raw token client sv =
     (case decode (cx_json cx) raw of
        Inl err \<Rightarrow> [conn_trace cfg (''frame did not decode: '' @ decode_error_display err)]
      | Inr e \<Rightarrow>
          (case env_body e of
             BHello hello \<Rightarrow> [conn_trace cfg (''client hello: hostname='' @ hb_hostname hello)]
           | BPing p \<Rightarrow> [conn_trace cfg (''client ping from '' @ unwrap_or (ping_hostname p) [])]
           | BAuth a \<Rightarrow> [conn_trace cfg ''ignoring mid-session `auth` frame'']
           | BJoin j \<Rightarrow> [conn_trace cfg (''ignoring mid-session '' @ message_type_debug (env_msg_type e) @ '' frame'')]
           | BJoinOk j \<Rightarrow> [conn_trace cfg (''ignoring mid-session '' @ message_type_debug (env_msg_type e) @ '' frame'')]
           | BPresence p \<Rightarrow> presence_log cfg (cx_quoted cx) row_error ev token client (pres_sessions p) (sv_roster sv)
           | BSessionBlocked b \<Rightarrow>
               [conn_trace cfg (''session_blocked: '' @ sb_session b @ '' blocked='' @ show_bool (sb_blocked b))]
           | BReply b \<Rightarrow> [reply_received cfg (cx_json cx) (env_id e) client b]
           | BAck a \<Rightarrow> (case ack_of a of None \<Rightarrow> [conn_trace cfg ''ignoring `ack` with no `of`''] | Some i \<Rightarrow> [])
           | BPrompt p \<Rightarrow>
               [conn_trace cfg (''ignoring unimplemented frame type '' @ message_type_debug (env_msg_type e))]
           | BInterrupt p \<Rightarrow>
               [conn_trace cfg (''ignoring unimplemented frame type '' @ message_type_debug (env_msg_type e))]
           | BAnswer p \<Rightarrow>
               [conn_trace cfg (''ignoring unimplemented frame type '' @ message_type_debug (env_msg_type e))]
           | _ \<Rightarrow> []))"

definition read_error_log :: "debug_config \<Rightarrow> string \<Rightarrow> event list" where
  "read_error_log cfg e = [conn_trace cfg (''websocket read error: '' @ e)]"

definition disconnected_log :: "debug_config \<Rightarrow> string \<Rightarrow> string \<Rightarrow> bool \<Rightarrow> event list" where
  "disconnected_log cfg token_id peer certain_close =
     [event_field ''close'' (if certain_close then ''clean'' else ''ambiguous'')
        (event_field ''addr'' peer
          (event_peer (redact ''token_id'' token_id)
            (event_field ''event'' ''disconnected'' (event_local cfg ''wire'' ''conn''))))]"

section \<open>Registry lines\<close>

definition request_out ::
  "debug_config \<Rightarrow> json_lib \<Rightarrow> string \<Rightarrow> string \<Rightarrow> string \<Rightarrow> (string \<times> string) list \<Rightarrow> envelope \<Rightarrow> event" where
  "request_out cfg lib kind i token kvs envelope =
     event_frame_of lib (envelope_json envelope)
       (fold (\<lambda>(k, v). event_field k v) kvs
         (event_peer token (event_id i (event_outgoing cfg ''registry'' kind))))"

definition request_in ::
  "debug_config \<Rightarrow> string \<Rightarrow> string \<Rightarrow> string \<Rightarrow> (string \<times> string) list \<Rightarrow> event" where
  "request_in cfg kind i token kvs =
     fold (\<lambda>(k, v). event_field k v) kvs
       (event_peer token (event_id i (event_incoming cfg ''registry'' kind)))"

definition ping_log ::
  "debug_config \<Rightarrow> json_lib \<Rightarrow> string \<Rightarrow> instant \<Rightarrow> waiter \<Rightarrow> (registry \<Rightarrow> registry) \<Rightarrow> bool
   \<Rightarrow> duration wait_result \<Rightarrow> string \<Rightarrow> string \<Rightarrow> string \<Rightarrow> registry \<Rightarrow> event list" where
  "ping_log cfg lib ts now w other1 send_ok waited token ping_id server_hostname r =
     (case hm_get (rg_entries r) token of
        None \<Rightarrow> []
      | Some e \<Rightarrow>
          (case register_ping now token ping_id w (other1 r) of
             None \<Rightarrow> []
           | Some _ \<Rightarrow>
               request_out cfg lib ''ping'' ping_id token [] (new_ping_envelope ts ping_id server_hostname) #
               (if \<not> send_ok then []
                else case waited of
                       Got rtt \<Rightarrow>
                         [request_in cfg ''pong'' ping_id token
                            [(''hostname'', en_hostname e), (''rtt_ms'', show_nat (as_millis rtt))]]
                     | _ \<Rightarrow> [request_in cfg ''pong'' ping_id token [(''outcome'', ''timeout'')]])))"

definition query_log ::
  "debug_config \<Rightarrow> json_lib \<Rightarrow> string \<Rightarrow> waiter \<Rightarrow> (registry \<Rightarrow> registry) \<Rightarrow> bool
   \<Rightarrow> pending_query_reply wait_result \<Rightarrow> string \<Rightarrow> string \<Rightarrow> string list \<Rightarrow> string \<Rightarrow> registry \<Rightarrow> event list" where
  "query_log cfg lib ts w other1 send_ok waited token cmd args query_id r =
     (case hm_get (rg_entries r) token of
        None \<Rightarrow> []
      | Some e \<Rightarrow>
          (case register_query token query_id w (other1 r) of
             None \<Rightarrow> []
           | Some _ \<Rightarrow>
               request_out cfg lib ''query'' query_id token [(''cmd'', cmd)] (new_query_envelope ts query_id cmd args) #
               (if \<not> send_ok then []
                else case waited of
                       Got (ReplyOk b) \<Rightarrow>
                         [event_frame_of lib (query_ok_json b) (request_in cfg ''query_ok'' query_id token [])]
                     | Got (ReplyErr b) \<Rightarrow>
                         [event_frame_of lib (Some (error_json b))
                            (request_in cfg ''query'' query_id token [(''outcome'', ''err'')])]
                     | _ \<Rightarrow> [request_in cfg ''query'' query_id token [(''outcome'', ''timeout'')]])))"

text \<open>One line for every event the receive loop reads, the last for the one that ends it.\<close>

fun prompt_loop_log ::
  "debug_config \<Rightarrow> json_lib \<Rightarrow> string \<Rightarrow> string \<Rightarrow> string \<Rightarrow> prompt_event wait_result list \<Rightarrow> event list" where
  "prompt_loop_log cfg lib i token session [] =
     [request_in cfg ''reply'' i token [(''session'', session), (''outcome'', ''timeout'')]]"
| "prompt_loop_log cfg lib i token session (Got (EvReply b) # evs) =
     event_frame_of lib (Some (reply_json b))
       (with_text b (request_in cfg ''reply'' i token [(''session'', session), (''done'', show_bool (rp_done b))])) #
     (if rp_done b then [] else prompt_loop_log cfg lib i token session evs)"
| "prompt_loop_log cfg lib i token session (Got (EvErr b) # evs) =
     [event_frame_of lib (Some (error_json b))
        (request_in cfg ''reply'' i token [(''session'', session), (''outcome'', ''err'')])]"
| "prompt_loop_log cfg lib i token session (Got EvCancelled # evs) =
     [request_in cfg ''reply'' i token [(''session'', session), (''outcome'', ''cancelled'')]]"
| "prompt_loop_log cfg lib i token session (_ # evs) =
     [request_in cfg ''reply'' i token [(''session'', session), (''outcome'', ''timeout'')]]"

definition prompt_log ::
  "debug_config \<Rightarrow> json_lib \<Rightarrow> string \<Rightarrow> waiter \<Rightarrow> (registry \<Rightarrow> registry) \<Rightarrow> bool
   \<Rightarrow> prompt_event wait_result list \<Rightarrow> string \<Rightarrow> string \<Rightarrow> string \<Rightarrow> string \<Rightarrow> json option \<Rightarrow> registry \<Rightarrow> event list" where
  "prompt_log cfg lib ts w other1 send_ok received token prompt_id session msg meta r =
     (case hm_get (rg_entries r) token of
        None \<Rightarrow> []
      | Some e \<Rightarrow>
          (case register_prompt token prompt_id session w (other1 r) of
             None \<Rightarrow> []
           | Some _ \<Rightarrow>
               trace_prompt lib cfg prompt_id token session msg (new_prompt_envelope ts prompt_id session msg meta) #
               (if \<not> send_ok then [] else prompt_loop_log cfg lib prompt_id token session received)))"

definition interrupt_log ::
  "debug_config \<Rightarrow> json_lib \<Rightarrow> string \<Rightarrow> waiter \<Rightarrow> (registry \<Rightarrow> registry) \<Rightarrow> bool \<Rightarrow> (registry \<Rightarrow> registry)
   \<Rightarrow> (registry \<Rightarrow> registry) \<Rightarrow> unit wait_result \<Rightarrow> string \<Rightarrow> string \<Rightarrow> string \<Rightarrow> registry \<Rightarrow> event list" where
  "interrupt_log cfg lib ts w other1 send_ok other2 other3 waited token interrupt_id session r =
     (case hm_get (rg_entries r) token of
        None \<Rightarrow> []
      | Some e \<Rightarrow>
          (case register_interrupt token interrupt_id w (other1 r) of
             None \<Rightarrow> []
           | Some (r2, drops) \<Rightarrow>
               request_out cfg lib ''interrupt'' interrupt_id token [(''session'', session)]
                 (new_interrupt_envelope ts interrupt_id session) #
               (if \<not> send_ok then []
                else [request_in cfg ''ack'' interrupt_id token
                        [(''session'', session),
                         (''outcome'',
                          case waited of
                            Got _ \<Rightarrow> ''acked''
                          | Closed \<Rightarrow> ''disconnected''
                          | TimedOut \<Rightarrow>
                              if hm_get (rg_entries (other3 (fst (forget_pending_interrupt token interrupt_id (other2 r2)))))
                                   token \<noteq> None
                              then ''timeout'' else ''disconnected'')]])))"

definition answer_log ::
  "debug_config \<Rightarrow> json_lib \<Rightarrow> string \<Rightarrow> waiter \<Rightarrow> (registry \<Rightarrow> registry) \<Rightarrow> bool \<Rightarrow> (registry \<Rightarrow> registry)
   \<Rightarrow> (registry \<Rightarrow> registry) \<Rightarrow> pending_answer_reply wait_result \<Rightarrow> string \<Rightarrow> string \<Rightarrow> string \<Rightarrow> string \<Rightarrow> registry
   \<Rightarrow> event list" where
  "answer_log cfg lib ts w other1 send_ok other2 other3 waited token answer_id session choice r =
     (case hm_get (rg_entries r) token of
        None \<Rightarrow> []
      | Some e \<Rightarrow>
          (case register_answer token answer_id w (other1 r) of
             None \<Rightarrow> []
           | Some (r2, drops) \<Rightarrow>
               request_out cfg lib ''answer'' answer_id token [(''session'', session), (''choice'', choice)]
                 (new_answer_envelope ts answer_id session choice) #
               (if \<not> send_ok then []
                else [case waited of
                        Got AnsAcked \<Rightarrow>
                          request_in cfg ''ack'' answer_id token [(''session'', session), (''outcome'', ''acked'')]
                      | Got (AnsErr b) \<Rightarrow>
                          event_frame_of lib (Some (error_json b))
                            (request_in cfg ''error'' answer_id token [(''session'', session), (''outcome'', ''err'')])
                      | Closed \<Rightarrow>
                          request_in cfg ''ack'' answer_id token [(''session'', session), (''outcome'', ''disconnected'')]
                      | TimedOut \<Rightarrow>
                          request_in cfg ''ack'' answer_id token
                            [(''session'', session),
                             (''outcome'',
                              if hm_get (rg_entries (other3 (fst (forget_pending_answer token answer_id (other2 r2)))))
                                   token \<noteq> None
                              then ''timeout'' else ''disconnected'')]])))"

section \<open>Lemmas\<close>

lemma event_parts [simp]:
  "lv_cfg (event_field k v e) = lv_cfg e" "lv_id (event_field k v e) = lv_id e" "lv_peer (event_field k v e) = lv_peer e"
  "lv_dir (event_field k v e) = lv_dir e" "lv_severity (event_field k v e) = lv_severity e"
  "lv_kind (event_field k v e) = lv_kind e" "lv_frame (event_field k v e) = lv_frame e"
  "lv_cfg (event_frame_of lib j e) = lv_cfg e" "lv_id (event_frame_of lib j e) = lv_id e"
  "lv_peer (event_frame_of lib j e) = lv_peer e" "lv_dir (event_frame_of lib j e) = lv_dir e"
  "lv_severity (event_frame_of lib j e) = lv_severity e" "lv_kind (event_frame_of lib j e) = lv_kind e"
  "lv_fields (event_frame_of lib j e) = lv_fields e"
  by (auto simp: event_field_def event_frame_of_def split: option.splits)

lemma event_base [simp]:
  "event_id i e = e\<lparr>lv_id := Some i\<rparr>" "event_peer p e = e\<lparr>lv_peer := Some p\<rparr>"
  by (simp_all add: event_id_def event_peer_def)

lemma field_recorded [simp]:
  "is_on (lv_cfg e) \<Longrightarrow> lv_severity e = SevDebug \<Longrightarrow> lv_fields (event_field k v e) = lv_fields e @ [(k, v)]"
  by (simp add: event_field_def will_emit_def)

lemma request_parts [simp]:
  "lv_cfg (request_in cfg kind i token kvs) = cfg" "lv_id (request_in cfg kind i token kvs) = Some i"
  "lv_peer (request_in cfg kind i token kvs) = Some token" "lv_dir (request_in cfg kind i token kvs) = DirIn"
  "lv_severity (request_in cfg kind i token kvs) = SevDebug"
  "lv_id (request_out cfg lib kind i token kvs env) = Some i"
  "lv_peer (request_out cfg lib kind i token kvs env) = Some token"
  "lv_dir (request_out cfg lib kind i token kvs env) = DirOut"
proof -
  have f: "lv_cfg (fold (\<lambda>(k, v). event_field k v) kvs e) = lv_cfg e \<and> lv_id (fold (\<lambda>(k, v). event_field k v) kvs e) = lv_id e \<and>
      lv_peer (fold (\<lambda>(k, v). event_field k v) kvs e) = lv_peer e \<and> lv_dir (fold (\<lambda>(k, v). event_field k v) kvs e) = lv_dir e \<and>
      lv_severity (fold (\<lambda>(k, v). event_field k v) kvs e) = lv_severity e" for e
    by (induction kvs arbitrary: e) auto
  show "lv_cfg (request_in cfg kind i token kvs) = cfg" "lv_id (request_in cfg kind i token kvs) = Some i"
    "lv_peer (request_in cfg kind i token kvs) = Some token" "lv_dir (request_in cfg kind i token kvs) = DirIn"
    "lv_severity (request_in cfg kind i token kvs) = SevDebug"
    "lv_id (request_out cfg lib kind i token kvs env) = Some i"
    "lv_peer (request_out cfg lib kind i token kvs env) = Some token"
    "lv_dir (request_out cfg lib kind i token kvs env) = DirOut"
    by (simp_all add: request_in_def request_out_def f event_incoming_def event_outgoing_def event_new_def)
qed

lemma request_in_fields [simp]: "is_on cfg \<Longrightarrow> lv_fields (request_in cfg kind i token kvs) = kvs"
proof -
  assume on: "is_on cfg"
  have "lv_fields (fold (\<lambda>(k, v). event_field k v) kvs e) = lv_fields e @ kvs"
    if "is_on (lv_cfg e)" "lv_severity e = SevDebug" for e
    using that by (induction kvs arbitrary: e) auto
  with on show ?thesis by (simp add: request_in_def event_incoming_def event_new_def)
qed

text \<open>
  What the lines of one request say: all name its id and its token; the first is the outgoing frame,
  the others came in; something came in exactly when the frame went out on the channel; and the
  last line gives the outcome.
\<close>

definition says :: "event \<Rightarrow> string option" where
  "says l = map_of (lv_fields l) ''outcome''"

definition request_logged :: "string \<Rightarrow> string \<Rightarrow> effect list \<Rightarrow> string option \<Rightarrow> event list \<Rightarrow> bool" where
  "request_logged i token fx result log \<longleftrightarrow>
     list_all (\<lambda>l. lv_id l = Some i \<and> lv_peer l = Some token) log \<and>
     (case log of
        [] \<Rightarrow> \<forall>ch e. SendOut ch e \<notin> set fx
      | l # ls \<Rightarrow> lv_dir l = DirOut \<and> list_all (\<lambda>l. lv_dir l = DirIn) ls \<and>
                  (ls \<noteq> [] \<longleftrightarrow> (\<exists>ch e. SendOut ch e \<in> set fx)) \<and> (ls = [] \<or> says (last ls) = result))"

lemma with_text_parts [simp]:
  "lv_id (with_text b e) = lv_id e" "lv_peer (with_text b e) = lv_peer e" "lv_dir (with_text b e) = lv_dir e"
  "is_on (lv_cfg e) \<Longrightarrow> lv_severity e = SevDebug \<Longrightarrow>
     map_of (lv_fields (with_text b e)) ''outcome'' = map_of (lv_fields e) ''outcome''"
  by (auto simp: with_text_def Let_def map_add_def map_of_append split: option.splits)

text \<open>Dropping waiters sends nothing.\<close>

lemma drop_old_sends [simp]: "SendOut ch e \<notin> set (drop_old old)"
  by (auto simp: drop_old_def split: option.splits)

lemma register_sends: "register_request k now t i s w r = Some (r2, d) \<Longrightarrow> SendOut ch e \<notin> set d"
  by (cases k) (auto simp: register_ping_def register_query_def register_prompt_def register_interrupt_def
      register_answer_def split: option.splits)

lemma forget_sends: "forget_request k t i r = (r2, f) \<Longrightarrow> SendOut ch e \<notin> set f"
  by (cases k) (auto simp: forget_pending_def forget_pending_query_def forget_pending_prompt_def
      forget_pending_interrupt_def forget_pending_answer_def split: option.splits)

lemma cancel_sends [simp]: "SendOut ch e \<notin> set (cancel_pending_prompts_for_session t s r)"
  by (auto simp: cancel_pending_prompts_for_session_def split: option.splits)

lemmas ping_sends = register_sends [of KPing, simplified] forget_sends [of KPing, simplified]
lemmas query_sends = register_sends [of KQuery, simplified] forget_sends [of KQuery, simplified]
lemmas prompt_sends = register_sends [of KPrompt, simplified] forget_sends [of KPrompt, simplified]
lemmas interrupt_sends = register_sends [of KInterrupt, simplified] forget_sends [of KInterrupt, simplified]
lemmas answer_sends = register_sends [of KAnswer, simplified] forget_sends [of KAnswer, simplified]

lemma ping_logged:
  assumes "is_on cfg"
  shows "case ping ts now w oa ok ob waited t i h r of
           (status, r', fx) \<Rightarrow>
             request_logged i t fx (case status of StatusConnected _ _ \<Rightarrow> None | StatusDisconnected \<Rightarrow> Some ''timeout'')
               (ping_log cfg lib ts now w oa ok waited t i h r)"
  using assms
  by (auto simp: ping_def ping_log_def request_logged_def says_def Let_def
      split: option.splits prod.splits wait_result.splits dest: ping_sends)

lemma query_logged:
  assumes "is_on cfg"
  shows "case registry_query ts w oa ok ob waited t c args i r of
           (outcome, r', fx) \<Rightarrow>
             request_logged i t fx
               (case outcome of QueryOk _ \<Rightarrow> None | QueryErr _ \<Rightarrow> Some ''err'' | QueryDisconnected \<Rightarrow> Some ''timeout'')
               (query_log cfg lib ts w oa ok waited t c args i r)"
  using assms
  by (auto simp: registry_query_def query_log_def request_logged_def says_def Let_def
      split: option.splits prod.splits wait_result.splits pending_query_reply.splits dest: query_sends)

text \<open>The lines of the receive loop: never none, all incoming, and the last tells how the loop ended.\<close>

fun prompt_says :: "prompt_outcome \<Rightarrow> string option" where
  "prompt_says (PromptDone t x) = None"
| "prompt_says (PromptErr b) = Some ''err''"
| "prompt_says PromptCancelled = Some ''cancelled''"
| "prompt_says PromptDisconnected = Some ''timeout''"

lemma prompt_loop_logged:
  assumes "is_on cfg"
  shows "prompt_loop_log cfg lib i t session evs \<noteq> [] \<and>
         list_all (\<lambda>l. lv_id l = Some i \<and> lv_peer l = Some t \<and> lv_dir l = DirIn) (prompt_loop_log cfg lib i t session evs) \<and>
         says (last (prompt_loop_log cfg lib i t session evs)) = prompt_says (prompt_loop pieces evs)"
  using assms
  by (induction pieces evs rule: prompt_loop.induct) (auto simp: says_def)

lemma prompt_logged:
  assumes "is_on cfg"
  shows "case registry_prompt ts w oa ok ob received t i session msg meta r of
           (outcome, r', fx) \<Rightarrow>
             request_logged i t fx (prompt_says outcome)
               (prompt_log cfg lib ts w oa ok received t i session msg meta r)"
proof -
  have tp: "lv_id (trace_prompt lib cfg i t session msg e) = Some i" "lv_peer (trace_prompt lib cfg i t session msg e) = Some t"
    "lv_dir (trace_prompt lib cfg i t session msg e) = DirOut" for e
    by (simp_all add: trace_prompt_def event_outgoing_def event_new_def)
  show ?thesis
    using prompt_loop_logged [OF assms, of lib i t session received "[]"] assms
    by (auto simp: registry_prompt_def prompt_log_def request_logged_def list_all_iff tp
        split: option.splits prod.splits dest: prompt_sends)
qed

lemma interrupt_logged:
  assumes "is_on cfg"
  shows "case registry_interrupt ts w oa ok ob oc waited t i session r of
           (outcome, r', fx) \<Rightarrow>
             request_logged i t fx
               (Some (case outcome of InterruptAcked \<Rightarrow> ''acked'' | InterruptTimedOut \<Rightarrow> ''timeout''
                      | InterruptDisconnected \<Rightarrow> ''disconnected''))
               (interrupt_log cfg lib ts w oa ok ob oc waited t i session r)"
  using assms
  by (auto simp: registry_interrupt_def interrupt_log_def request_logged_def says_def Let_def
      split: option.splits prod.splits wait_result.splits dest: interrupt_sends)

lemma answer_logged:
  assumes "is_on cfg"
  shows "case registry_answer ts w oa ok ob oc waited t i session choice r of
           (outcome, r', fx) \<Rightarrow>
             request_logged i t fx
               (Some (case outcome of AnswerAcked \<Rightarrow> ''acked'' | AnswerErr _ \<Rightarrow> ''err'' | AnswerTimedOut \<Rightarrow> ''timeout''
                      | AnswerDisconnected \<Rightarrow> ''disconnected''))
               (answer_log cfg lib ts w oa ok ob oc waited t i session choice r)"
  using assms
  by (auto simp: registry_answer_def answer_log_def request_logged_def says_def Let_def
      split: option.splits prod.splits wait_result.splits pending_answer_reply.splits dest: answer_sends)

subsection \<open>Logins\<close>

definition event_name :: "event \<Rightarrow> string option" where
  "event_name l = map_of (lv_fields l) ''event''"

lemma conn_trace_name [simp]: "is_on cfg \<Longrightarrow> event_name (conn_trace cfg msg) = Some msg"
  by (simp add: event_name_def conn_trace_def event_local_def event_new_def)

lemma login_line_parts [simp]:
  "lv_peer (login_line cfg outcome token addr reason) = Some token"
  "is_on cfg \<Longrightarrow> event_name (login_line cfg outcome token addr reason) = Some outcome"
  "is_on cfg \<Longrightarrow> map_of (lv_fields (login_line cfg outcome token addr reason)) ''addr'' = Some addr"
proof -
  have "to_ascii_lowercase ''token_id'' \<notin> set NEVER_PRINT_FIELDS" by code_simp
  then have "redact ''token_id'' token = token" by (simp add: redact_def)
  then show "lv_peer (login_line cfg outcome token addr reason) = Some token"
    by (simp add: login_line_def Let_def split: option.splits)
  show "is_on cfg \<Longrightarrow> event_name (login_line cfg outcome token addr reason) = Some outcome"
    "is_on cfg \<Longrightarrow> map_of (lv_fields (login_line cfg outcome token addr reason)) ''addr'' = Some addr"
    by (simp_all add: event_name_def login_line_def Let_def event_local_def event_new_def split: option.splits)
qed

text \<open>A first frame the server answers without having looked at the token store.\<close>

definition no_attempt :: "conn_ctx \<Rightarrow> string \<Rightarrow> bool" where
  "no_attempt cx raw \<longleftrightarrow>
     (case decode (cx_json cx) raw of
        Inl _ \<Rightarrow> False
      | Inr e \<Rightarrow> (case env_body e of BJoin j \<Rightarrow> False | BAuth a \<Rightarrow> as_str (auth_credential a) = None | _ \<Rightarrow> True))"

text \<open>The secret of a login frame, and the same frame with another one.\<close>

fun secret_of :: "body \<Rightarrow> string option" where
  "secret_of (BJoin j) = Some (join_secret j)"
| "secret_of (BAuth a) = as_str (auth_credential a)"
| "secret_of _ = None"

fun with_secret :: "string \<Rightarrow> body \<Rightarrow> body" where
  "with_secret s (BJoin j) = BJoin (j\<lparr>join_secret := s\<rparr>)"
| "with_secret s (BAuth a) = BAuth \<lparr>auth_credential = JString s\<rparr>"
| "with_secret s b = b"

text \<open>Two secrets compare alike with the hashes the store has for a token.\<close>

definition compare_alike :: "conn_ctx \<Rightarrow> conn_env \<Rightarrow> string \<Rightarrow> server \<Rightarrow> string \<Rightarrow> string \<Rightarrow> bool" where
  "compare_alike cx ev t sv s s' \<longleftrightarrow>
     (\<forall>p rs r. get_pepper (ce_token ev) = Ret p \<and> contents (cx_tokens cx) (sv_store sv) = Some rs \<and>
        find_token t rs = Some r \<longrightarrow>
        (\<forall>h. h = tr_secret_hash r \<or> Some h = tr_credential_hash r \<longrightarrow>
           verify_secret (cx_tokens cx) p s h = verify_secret (cx_tokens cx) p s' h))"

lemma locked_cycle_cong:
  assumes "\<And>rs. contents lib st = Some rs \<Longrightarrow> f rs = g rs"
  shows "with_lock c (load_modify_save lib c f) st = with_lock c (load_modify_save lib c g) st"
proof -
  have "exec_bind (load lib c st) f = exec_bind (load lib c st) g"
  proof (cases "load lib c st")
    case (Ret rs)
    then have "f rs = g rs" using assms by (simp add: load_Ret)
    with Ret show ?thesis by simp
  qed simp_all
  then have "load_modify_save lib c f st = load_modify_save lib c g st" by (simp add: load_modify_save_def)
  then show ?thesis by (simp add: with_lock_def split: option.splits)
qed

lemma compare_alike_store:
  assumes "compare_alike cx ev t sv s s'"
  shows "verify_credential (cx_tokens cx) (ce_token ev) t s (sv_store sv) =
         verify_credential (cx_tokens cx) (ce_token ev) t s' (sv_store sv)"
    and "redeem (cx_tokens cx) (ce_token ev) t s m (sv_store sv) = redeem (cx_tokens cx) (ce_token ev) t s' m (sv_store sv)"
proof -
  have v: "verify_body (cx_tokens cx) (ce_token ev) p t s rs = verify_body (cx_tokens cx) (ce_token ev) p t s' rs"
    and r: "redeem_body (cx_tokens cx) (ce_token ev) p t s m rs = redeem_body (cx_tokens cx) (ce_token ev) p t s' m rs"
    if "get_pepper (ce_token ev) = Ret p" "contents (cx_tokens cx) (sv_store sv) = Some rs" for p rs
    using assms that
    by (auto simp: compare_alike_def verify_body_def redeem_body_def
        split: option.splits stored_state.splits display_state.splits)
  show "verify_credential (cx_tokens cx) (ce_token ev) t s (sv_store sv) =
         verify_credential (cx_tokens cx) (ce_token ev) t s' (sv_store sv)"
    using locked_cycle_cong [OF v]
    by (auto simp: verify_credential_def verify_credential_with_pepper_def split: exec.splits)
  show "redeem (cx_tokens cx) (ce_token ev) t s m (sv_store sv) = redeem (cx_tokens cx) (ce_token ev) t s' m (sv_store sv)"
    using locked_cycle_cong [OF r] by (auto simp: redeem_def redeem_with_pepper_def split: exec.splits)
qed

section \<open>Properties\<close>

text \<open>
  C14: a login secret is only ever compared.  Let two first frames differ in nothing but the join secret
  or the credential, and let both secrets match, or both fail to match, the hashes the store has for the
  token (the pepper being the same).  Then the server does the same in every respect it can be observed
  by: the same log lines at every level and in every format, the same answers on the socket, the same
  admission or refusal, and the same store, lockout, registry, roster and talk log afterwards.  So
  nothing but the outcome of the comparison leaves the token store, into the log least of all.
\<close>

theorem login_secret_only_compared:
  assumes "decode (cx_json cx) raw = Inr e" and "secret_of (env_body e) = Some s"
    and "decode (cx_json cx) raw' = Inr (e\<lparr>env_body := with_secret s' (env_body e)\<rparr>)"
    and "compare_alike cx ev (env_from e) sv s s'"
  shows "first_frame_log cfg cx ev peer raw' sv = first_frame_log cfg cx ev peer raw sv \<and>
         handle_first_frame cx ev ip raw' sv = handle_first_frame cx ev ip raw sv"
proof (cases "env_body e")
  case (BJoin j)
  obtain x store where x: "redeem (cx_tokens cx) (ce_token ev) (env_from e) s (join_hostname j) (sv_store sv) = (x, store)"
    by fastforce
  with BJoin assms(1-3) x [unfolded compare_alike_store(2) [OF assms(4)]] show ?thesis
    by (cases x) (auto simp: first_frame_log_def handle_first_frame_def join_log_def handle_join_def)
next
  case (BAuth a)
  obtain x store where x: "verify_credential (cx_tokens cx) (ce_token ev) (env_from e) s (sv_store sv) = (x, store)"
    by fastforce
  with BAuth assms(1-3) x [unfolded compare_alike_store(1) [OF assms(4)]] show ?thesis
    by (cases x) (auto simp: first_frame_log_def handle_first_frame_def auth_log_def)
qed (use assms(2) in auto)

definition demo_join :: "string \<Rightarrow> envelope" where
  "demo_join secret = \<lparr>env_v = 1, env_msg_type = TJoin, env_id = ''1'', env_ts = ''t'', env_from = ''tok_a'',
     env_body = BJoin \<lparr>join_secret = secret, join_hostname = ''box''\<rparr>\<rparr>"

definition demo_join_cx :: conn_ctx where
  "demo_join_cx = demo_ctx (demo_exchange_lib (the (envelope_json (demo_join ''hlr_x''))) (the (envelope_json (demo_join ''hlr_y''))))"

definition demo_token_server :: server where
  "demo_token_server = demo_server\<lparr>sv_store := demo_store SUnused\<rparr>"

lemma demo_join_decodes:
  "decode (cx_json demo_join_cx) ''q'' = Inr (demo_join ''hlr_x'')" "decode (cx_json demo_join_cx) ''a'' = Inr (demo_join ''hlr_y'')"
proof -
  have wf: "envelope_wf (demo_join s)" for s by (simp add: envelope_wf_def demo_join_def)
  have ne: "envelope_json (demo_join ''hlr_x'') \<noteq> envelope_json (demo_join ''hlr_y'')"
    "envelope_json (demo_join ''hlr_x'') \<noteq> None" "envelope_json (demo_join ''hlr_y'') \<noteq> None" by code_simp+
  then obtain jx jy where j: "envelope_json (demo_join ''hlr_x'') = Some jx" "envelope_json (demo_join ''hlr_y'') = Some jy"
    "jy \<noteq> jx" by auto
  then have cx: "cx_json demo_join_cx = demo_exchange_lib jx jy" by (simp add: demo_join_cx_def demo_ctx_def)
  show "decode (cx_json demo_join_cx) ''q'' = Inr (demo_join ''hlr_x'')"
    using encode_decode [OF wf [of "''hlr_x''"], of "cx_json demo_join_cx"] j cx
    by (simp add: demo_exchange_lib_def encode_def)
  show "decode (cx_json demo_join_cx) ''a'' = Inr (demo_join ''hlr_y'')"
    using encode_decode [OF wf [of "''hlr_y''"], of "cx_json demo_join_cx"] j cx
    by (simp add: demo_exchange_lib_def encode_def)
qed

lemma demo_join_parts:
  "cx_tokens demo_join_cx = demo_token_lib" "sv_store demo_token_server = demo_store SUnused" "ce_token demo_env = demo_call 5"
  "env_from (demo_join s) = ''tok_a''" "env_body (demo_join s) = BJoin \<lparr>join_secret = s, join_hostname = ''box''\<rparr>"
  by (simp_all add: demo_join_cx_def demo_ctx_def demo_token_server_def demo_env_def demo_join_def)

lemma demo_secret_matches:
  "verify_secret demo_token_lib p s (tr_secret_hash (demo_token SUnused)) = Ret (as_bytes s = as_bytes ''hlr_s'')"
  by (simp add: demo_token_def) (simp add: demo_token_lib_def)

lemma demo_wrong_secrets: "as_bytes ''hlr_x'' \<noteq> as_bytes ''hlr_s''" "as_bytes ''hlr_y'' \<noteq> as_bytes ''hlr_s''"
  by code_simp+

lemma demo_join_refused:
  "redeem demo_token_lib (demo_call 5) ''tok_a'' ''hlr_x'' ''box'' (demo_store SUnused) =
     (Raise (WrongSecret ''tok_a''), demo_store SUnused)"
proof -
  have "load demo_token_lib (demo_call 5) (demo_store SUnused) = Ret [demo_token SUnused]"
    by (simp add: load_Ret demo_contents demo_call_def)
  moreover have "tc_now (demo_call 5) = 5" "tc_lock_err (demo_call 5) = None"
      "get_pepper (demo_call 5) = Ret (as_bytes ''pepper'')"
    by (simp_all add: demo_call_def get_pepper_def)
  ultimately show ?thesis
    by (simp add: redeem_def redeem_with_pepper_def with_lock_def load_modify_save_def redeem_body_def demo_find
        demo_secret_matches demo_wrong_secrets demo_unused)
qed

text \<open>Two wrong join secrets for the same token.\<close>

theorem login_secret_only_compared_witness:
  "\<exists>l. first_frame_log \<lparr>dc_level = LevelQuiet, dc_format = FormatText\<rparr> demo_join_cx demo_env ''1.2.3.4:5'' ''q'' demo_token_server = [l] \<and>
     first_frame_log \<lparr>dc_level = LevelQuiet, dc_format = FormatText\<rparr> demo_join_cx demo_env ''1.2.3.4:5'' ''a'' demo_token_server = [l] \<and>
     event_name l = Some ''join_rejected''"
proof -
  let ?cfg = "\<lparr>dc_level = LevelQuiet, dc_format = FormatText\<rparr>"
  have on: "is_on ?cfg" by (simp add: is_on_def)
  have alike: "compare_alike demo_join_cx demo_env ''tok_a'' demo_token_server ''hlr_x'' ''hlr_y''"
    by (simp add: compare_alike_def demo_join_parts demo_contents demo_find demo_secret_matches demo_wrong_secrets)
      (simp add: demo_token_def)
  obtain l where l: "first_frame_log ?cfg demo_join_cx demo_env ''1.2.3.4:5'' ''q'' demo_token_server = [l]"
      "event_name l = Some ''join_rejected''"
    using on by (simp add: first_frame_log_def demo_join_decodes demo_join_parts join_log_def demo_join_refused)
  from login_secret_only_compared [OF demo_join_decodes(1), of "''hlr_x''" "''a''" "''hlr_y''" demo_env demo_token_server ?cfg]
  have "first_frame_log ?cfg demo_join_cx demo_env ''1.2.3.4:5'' ''a'' demo_token_server =
      first_frame_log ?cfg demo_join_cx demo_env ''1.2.3.4:5'' ''q'' demo_token_server"
    using alike by (simp add: demo_join_decodes) (simp add: demo_join_def)
  with l show ?thesis by simp
qed

text \<open>
  C22: the log tells how every login ended.  With logging on, a first frame that the server gets through
  leaves at most one line, and that line agrees with what was done: \<open>authenticated\<close> with the token's id
  exactly when a session is opened for it, \<open>auth_rejected\<close> or \<open>join_rejected\<close> exactly when the failure
  is counted against the source, each with the source's address; and there is no line exactly when no
  attempt was made (\<open>no_attempt\<close>): the first frame decodes to something that is neither \<open>auth\<close> nor
  \<open>join\<close>, or to an \<open>auth\<close> whose credential is not a string, although those are refused as well.
\<close>

theorem login_attempts_logged:
  assumes "is_on cfg" and "handle_first_frame cx ev ip raw sv = Ret (res, ms, sv')"
  shows "length (first_frame_log cfg cx ev peer raw sv) \<le> 1 \<and>
         (first_frame_log cfg cx ev peer raw sv = [] \<longleftrightarrow> no_attempt cx raw) \<and>
         (case res of
            FirstAuthed v \<Rightarrow>
              (\<exists>l. first_frame_log cfg cx ev peer raw sv = [l] \<and> event_name l = Some ''authenticated'' \<and>
                   lv_peer l = Some (vc_token_id v) \<and> map_of (lv_fields l) ''addr'' = Some peer)
          | FirstClosed \<Rightarrow>
              (\<forall>l \<in> set (first_frame_log cfg cx ev peer raw sv). event_name l \<noteq> Some ''authenticated'')) \<and>
         sv_lockout sv' =
           (if \<exists>l \<in> set (first_frame_log cfg cx ev peer raw sv).
                 event_name l \<in> {Some ''auth_rejected'', Some ''join_rejected''} \<and>
                 map_of (lv_fields l) ''addr'' = Some peer
            then snd (record_failure (ce_now ev) ip (sv_lockout sv)) else sv_lockout sv)"
proof (cases "decode (cx_json cx) raw")
  case (Inl err)
  with assms show ?thesis
    by (auto simp: first_frame_log_def no_attempt_def handle_first_frame_def conn_encode_def split: option.splits)
next
  case (Inr e)
  show ?thesis
  proof (cases "env_body e")
    case (BJoin j)
    obtain x store where "redeem (cx_tokens cx) (ce_token ev) (env_from e) (join_secret j) (join_hostname j)
        (sv_store sv) = (x, store)" by fastforce
    with Inr BJoin assms show ?thesis
      by (cases x) (auto simp: first_frame_log_def join_log_def no_attempt_def handle_first_frame_def handle_join_def
          conn_encode_def note_failure_def split: option.splits)
  next
    case (BAuth a)
    show ?thesis
    proof (cases "as_str (auth_credential a)")
      case (Some c)
      obtain x store where "verify_credential (cx_tokens cx) (ce_token ev) (env_from e) c (sv_store sv) = (x, store)"
        by fastforce
      with Inr BAuth Some assms show ?thesis
        by (cases x) (auto simp: first_frame_log_def auth_log_def no_attempt_def handle_first_frame_def reject_first_def
            conn_encode_def note_failure_def split: option.splits)
    qed (use Inr BAuth assms in \<open>auto simp: first_frame_log_def no_attempt_def handle_first_frame_def reject_first_def
           conn_encode_def split: option.splits\<close>)
  qed (use Inr assms in \<open>auto simp: first_frame_log_def no_attempt_def handle_first_frame_def reject_first_def
         conn_encode_def split: option.splits\<close>)
qed

theorem login_attempts_logged_witness:
  "\<exists>ms sv' l. handle_first_frame demo_join_cx demo_env ''1.2.3.4'' ''q'' demo_token_server = Ret (FirstClosed, ms, sv') \<and>
     first_frame_log \<lparr>dc_level = LevelQuiet, dc_format = FormatText\<rparr> demo_join_cx demo_env ''1.2.3.4:5'' ''q''
       demo_token_server = [l] \<and>
     sv_lockout sv' = snd (record_failure (ce_now demo_env) ''1.2.3.4'' (sv_lockout demo_token_server))"
proof -
  let ?cfg = "\<lparr>dc_level = LevelQuiet, dc_format = FormatText\<rparr>"
  have on: "is_on ?cfg" by (simp add: is_on_def)
  obtain ms sv' where h: "handle_first_frame demo_join_cx demo_env ''1.2.3.4'' ''q'' demo_token_server = Ret (FirstClosed, ms, sv')"
    using conn_encode_Ret [OF error_with_message_wf, of demo_join_cx]
    by (simp add: handle_first_frame_def handle_join_def demo_join_decodes demo_join_parts demo_join_refused)
  obtain l where l: "first_frame_log ?cfg demo_join_cx demo_env ''1.2.3.4:5'' ''q'' demo_token_server = [l]"
      "event_name l = Some ''join_rejected''" "map_of (lv_fields l) ''addr'' = Some ''1.2.3.4:5''"
    using on by (simp add: first_frame_log_def demo_join_decodes demo_join_parts join_log_def demo_join_refused)
  from h l login_attempts_logged [OF on h, of "''1.2.3.4:5''"] show ?thesis by auto
qed

text \<open>
  C37: the log of a request is its history.  With logging on, and whatever the other tasks do meanwhile,
  the lines of a \<open>ping\<close>, \<open>query\<close>, \<open>prompt\<close>, \<open>interrupt\<close> or \<open>answer\<close> all carry the request's id and its
  token; there is none if no waiter was registered; the first is the outgoing frame and the others came
  in; something came in exactly if the frame was handed to the connection's channel (a failed send
  leaves the outgoing line alone, without an outcome); and when something came in, the last line's
  outcome is the outcome the caller is given (a success of \<open>ping\<close>, \<open>query\<close> and \<open>prompt\<close> has none, and
  their \<open>timeout\<close> stands for a closed connection too).
\<close>

theorem requests_logged:
  assumes "is_on cfg"
  shows "(case ping ts now w oa ok ob pinged t i h r of
            (status, r', fx) \<Rightarrow>
              request_logged i t fx (case status of StatusConnected _ _ \<Rightarrow> None | StatusDisconnected \<Rightarrow> Some ''timeout'')
                (ping_log cfg lib ts now w oa ok pinged t i h r)) \<and>
         (case registry_query ts w oa ok ob queried t c args i r of
            (outcome, r', fx) \<Rightarrow>
              request_logged i t fx
                (case outcome of QueryOk _ \<Rightarrow> None | QueryErr _ \<Rightarrow> Some ''err'' | QueryDisconnected \<Rightarrow> Some ''timeout'')
                (query_log cfg lib ts w oa ok queried t c args i r)) \<and>
         (case registry_prompt ts w oa ok ob received t i session msg meta r of
            (outcome, r', fx) \<Rightarrow>
              request_logged i t fx (prompt_says outcome)
                (prompt_log cfg lib ts w oa ok received t i session msg meta r)) \<and>
         (case registry_interrupt ts w oa ok ob oc interrupted t i session r of
            (outcome, r', fx) \<Rightarrow>
              request_logged i t fx
                (Some (case outcome of InterruptAcked \<Rightarrow> ''acked'' | InterruptTimedOut \<Rightarrow> ''timeout''
                       | InterruptDisconnected \<Rightarrow> ''disconnected''))
                (interrupt_log cfg lib ts w oa ok ob oc interrupted t i session r)) \<and>
         (case registry_answer ts w oa ok ob oc answered t i session choice r of
            (outcome, r', fx) \<Rightarrow>
              request_logged i t fx
                (Some (case outcome of AnswerAcked \<Rightarrow> ''acked'' | AnswerErr _ \<Rightarrow> ''err'' | AnswerTimedOut \<Rightarrow> ''timeout''
                       | AnswerDisconnected \<Rightarrow> ''disconnected''))
                (answer_log cfg lib ts w oa ok ob oc answered t i session choice r))"
  by (intro conjI ping_logged query_logged prompt_logged interrupt_logged answer_logged assms)

theorem requests_logged_witness:
  "case registry_prompt ''t'' 8 id True id [Got (EvReply demo_partial), Got (EvReply demo_final)] ''tok_1'' ''p2'' ''main'' ''go'' None
          demo_registry of
     (outcome, r', fx) \<Rightarrow>
       request_logged ''p2'' ''tok_1'' fx (prompt_says outcome)
         (prompt_log \<lparr>dc_level = LevelNoisy, dc_format = FormatJson\<rparr> (demo_lib JNull) ''t'' 8 id True
            [Got (EvReply demo_partial), Got (EvReply demo_final)] ''tok_1'' ''p2'' ''main'' ''go'' None demo_registry)"
proof -
  have on: "is_on \<lparr>dc_level = LevelNoisy, dc_format = FormatJson\<rparr>" by (simp add: is_on_def)
  show ?thesis by (intro conjunct1 [OF conjunct2 [OF conjunct2 [OF requests_logged [OF on]]]])
qed

text \<open>
  Lines can be forged in the text format.  What a client says of itself in its \<open>hello\<close> goes into the
  log line as it is, line ends included, so an authenticated client can add any line to a text log; the
  frame still counts as one event.
\<close>

lemma hello_forges_text_lines:
  assumes "dc_level cfg \<noteq> LevelNone" and "dc_format cfg = FormatText"
    and "decode (cx_json cx) raw = Inr e" and "env_body e = BHello b" and "hb_hostname b = host @ CHR 0x0A # forged"
  shows "\<exists>l before. frame_log cfg cx row_error ev raw t c sv = [l] \<and>
           emit lib now l = Some (before @ CHR 0x0A # forged)"
  using assms
  by (auto simp: frame_log_def emit_def conn_trace_def event_field_def event_local_def event_new_def will_emit_def is_on_def
      render_text_def)

end
