(* ===== verification/Spec2Isabelle.thy ===== *)
theory Spec2Isabelle
  imports TokenLock Cli Revocation Delivery Trace
begin

text \<open>
  \<^bold>\<open>Verification library for the holler server.\<close>

  The holler server is the hub of a small messaging system.  Clients on other machines connect over
  a web socket, prove who they are with a token, advertise the sessions they host, and answer
  requests; an operator drives the server from the command line, which talks to the running server
  over a local control socket.  This library models the Rust code under \<open>src/src\<close> as HOL functions
  and step relations and proves what makes it correct.

  \<^bold>\<open>The parts and how they interact.\<close>

  \<^item> A connection task (\<open>wire/connection.rs\<close>) reads the first frame, asks the token store
    (\<open>token/mod.rs\<close>) to redeem or verify it, counts failures in the lockout tracker
    (\<open>wire/lockout.rs\<close>), registers the client in the connection registry (\<open>wire/registry.rs\<close>) and
    then exchanges frames of the protocol (\<open>proto/mod.rs\<close>, \<open>wire/hello.rs\<close>); presence frames update
    the session roster (\<open>wire/roster.rs\<close>), queries go to the dispatcher (\<open>wire/query.rs\<close>), and
    answers wake the requests that wait in the registry.
  \<^item> \<open>wire/mod.rs\<close> starts all this, accepts connections under a cap, prunes the roster and stops.
  \<^item> The control channel (\<open>wire/control.rs\<close>) turns lines of the command line (\<open>main.rs\<close>) into registry
    requests, roster reads and revocations, and records prompts in the talk log (\<open>wire/talklog.rs\<close>).
  \<^item> \<open>debug.rs\<close> renders log lines and redacts secrets; \<open>advertise.rs\<close> keeps the advertised address.

  \<^bold>\<open>Theories, in the order of their imports.\<close>

  \<^item> Prelude: strings as UTF-8 byte lists, \<open>exec\<close> (a value, an error, or a panic), durations and
    instants in nanoseconds, hash maps as association lists.  Locale \<open>keyed_map\<close> is the map contract
    every table relies on, interpreted for those lists.
  \<^item> Json: \<open>serde_json\<close> values and the shapes of derived (de)serializers.  Locale \<open>json_codec\<close>
    (reading back what was printed) is interpreted for every scalar here and for every document of
    Proto and Control.
  \<^item> Proto: message types, the sixteen bodies, \<open>encode\<close>, \<open>decode\<close> and the error constructors of
    \<open>proto/mod.rs\<close>.  \<open>proto_roundtrip\<close>, \<open>decode_outcomes\<close> (exactly which frames are accepted),
    \<open>decode_establishes_wf\<close>.
  \<^item> Hello, Query: the envelope builders and the \<open>status\<close>, \<open>caps\<close>, \<open>support\<close> and \<open>protocol\<close> answers.
  \<^item> Lockout: the failed-login throttle.  Who is locked out, from when and until when, over any
    sequence of events.
  \<^item> Roster: session name to owner with a state derived from ages.  A live route cannot be taken over;
    a client that beats in time stays routable.
  \<^item> Token, TokenHistory: the store's records and operations over the file contents, with every
    read, write, lock and random-number failure.  Histories of operations: credentials are authentic,
    redemption happens once, deletion is final, failures leave the file alone.
  \<^item> TokenLock: several processes' lock, read, write and unlock steps, interleaved; the file ends as
    in some sequential order.
  \<^item> Registry: every lock section, and the five request methods cut where they await.  Locale
    \<open>pending_requests\<close> is the contract of the five waiter tables.  Answers reach the request they
    belong to; closing a connection releases every waiter.
  \<^item> TalkLog: one file per sanitized session name; reading gives the transcript of a session that has
    its file to itself; names cannot leave the directory.
  \<^item> Connection: limits, the first frame, every session frame.  Locale \<open>confined\<close> is what a session's
    frames may touch.  No frame makes the handler panic; frames of one client never change another's
    connection.
  \<^item> Server: all tasks together as one step function \<open>sys_step\<close> over the record \<open>system\<close>, with
    \<open>sys_run\<close> for sequences of steps and \<open>sys_reachable\<close> for reachable states.  Locale
    \<open>system_invariant\<close> is what an invariant of the server promises; the permit count, the admission
    and the greeting are its interpretations.  Only verified clients are ever routable; the cap on
    unauthenticated connections holds; the server's hello comes first.
  \<^item> Delivery: frames queued for a session are written to its socket in the order they were queued,
    between the session's own frames, up to where the session ends.
  \<^item> Control: the documents, every request handler, the line loop, binding the socket and the client
    side.  \<open>say\<close> end to end; revocation; document round trips.
  \<^item> ControlSystem: \<open>control_refines_system\<close>, what a control connection computes is what a run of the
    system does in which its own steps alternate with arbitrary steps of other tasks, so that the
    theorems of Server hold with the control channel in use.  The function \<open>exchange\<close> is the common
    specification of the registry's five request methods.
  \<^item> Revocation: \<open>token delete\<close>, the control channel and the running server together: what
    revocation guarantees over every interleaving, and the two windows it leaves open.
  \<^item> Debug: levels, formats, log lines, redaction.  Locale \<open>setting\<close> is shared by level and format.
  \<^item> Trace: the log lines the connection handler and the registry's requests emit, branch by branch
    beside the handlers of Connection and Registry.  What a login's lines say agrees with its outcome;
    its secret is only ever compared; every request logs what it asked and how it ended.
  \<^item> Address: socket addresses with the standard library's parser and printer, and the listen
    specification.  Locale \<open>numeral_text\<close> is interpreted for decimal and hexadecimal numbers.
  \<^item> Serve: starting (every check in its order), the loops until shutdown, the advertised address.
    The accept, control-socket and prune loops end exactly at the shutdown notice (sessions and control
    connections are not stopped by it, in the code either).
  \<^item> Cli: every subcommand of \<open>main.rs\<close> from parsed arguments to printed lines, exit status and token
    file.  A refused start touches no socket.

  \<^bold>\<open>How the code is represented.\<close>

  \<^item> Structs are records, enums are datatypes, both with the source's fields and constructors;
    machine integers are words where their width matters (\<open>u8\<close>, \<open>u16\<close>, \<open>u32\<close>, \<open>u64\<close>), with casts
    written out; errors, early returns and panics are values of \<open>exec\<close>, sums or options.
  \<^item> Mutexes guard every shared table, so each lock section is one atomic function; async methods are
    cut at their awaits, and what other tasks do meanwhile is a parameter (the fields \<open>cv_before\<close> to
    \<open>cv_rest\<close> of \<open>control_env\<close>) or, in Server, ControlSystem and TokenLock, explicit interleaving.
  \<^item> Three places are coarser than the code.  A session frame is one step of the system although its
    handler takes one lock section per \<open>presence\<close> row and three reads for a \<open>query\<close>; the reads with
    which a control request starts are taken at one moment; and an entry's channel counts as closed when
    the entry is dropped, while a request in flight may hold a clone of its sender a little longer.
  \<^item> Sending on a channel, waking or dropping a waiter and closing a channel are values of type
    \<open>effect\<close> in the order the code does them.
  \<^item> Libraries are parameters: JSON text (\<open>json_lib\<close>), HMAC, RFC 3339 and the token file's JSON
    (\<open>token_lib\<close>), Debug quoting of strings.  What a theorem needs of them is a named hypothesis
    (\<open>reads_back\<close>, \<open>prints\<close>, \<open>json_line\<close>): the library reads back what it printed.  Witnesses
    instantiate them with concrete functions.
  \<^item> The clock, random bytes and the outcome of every system call are arguments (\<open>token_call\<close>,
    \<open>conn_env\<close>, \<open>control_env\<close>, \<open>serve_os\<close>), so the theorems hold for all of them.
  \<^item> Every definition is total and executable; loops are structural recursion over what the loop was
    given to read, or have a termination proof by a length.  No fuel is used.  The wait loop of
    \<open>Registry::prompt\<close> consumes a list of what each bounded \<open>recv\<close> returned; the end of the list is
    the timeout that the code's deadline enforces.

  \<^bold>\<open>What is not modelled.\<close>

  \<^item> Third-party crates (\<open>serde_json\<close>, \<open>hmac\<close>/\<open>sha2\<close>, \<open>time\<close>, \<open>getrandom\<close>, \<open>tungstenite\<close>, \<open>tokio\<close>,
    \<open>clap\<close>): parameters, or the structure of the arguments the code receives from them.
  \<^item> The platform variants for systems without Unix sockets, which refuse or idle; \<open>lib.rs\<close> and
    module declarations; conversions between error types; setters of the debug configuration.
  \<^item> The line \<open>main.rs\<close> logs when logging starts (it changes no state).
  \<^item> Unit tests and integration tests.
\<close>

end
